theory Spec2Isabelle
  imports Main "HOL-Library.Word" "HOL-Library.Sublist"
begin

section \<open>The heap: control blocks, payload objects and a destruction trace\<close>

text \<open>
  The strong/weak pair of \<^verbatim>\<open>shared/shared.h\<close> and
  \<^verbatim>\<open>shared-from-this/weak.h\<close>. Pointers are addresses (\<open>None\<close> is
  \<^verbatim>\<open>nullptr\<close>), the counters are \<^verbatim>\<open>size_t\<close> (64-bit words, so
  \<open>+\<close> and \<open>-\<close> wrap as the C++ operators do), a throw is a value of the
  error type, and every access through a pointer whose target has been freed is the
  separate error \<open>UndefinedBehavior\<close>. Names are the source's; a member loses its
  trailing underscore (\<^verbatim>\<open>block_\<close> is \<open>block\<close>), and the two members of
  \<^verbatim>\<open>WeakPtr\<close> are \<open>wblock\<close> and \<open>wobserver\<close>, to tell them from those
  of \<^verbatim>\<open>SharedPtr\<close>.
\<close>

type_synonym addr = nat
type_synonym size_t = "64 word"

datatype error = BadWeakPtr | UndefinedBehavior

record WeakPtr =
  wblock :: "addr option"
  wobserver :: "addr option"

record SharedPtr =
  block :: "addr option"
  observer :: "addr option"

text \<open>
  A payload object. \<open>Plain\<close> is an object of a type that is not convertible to
  \<^verbatim>\<open>ESFTBase*\<close>; \<open>ESFT w\<close> is an object of a type deriving from
  \<^verbatim>\<open>EnableSharedFromThis\<close>, whose only data member \<^verbatim>\<open>weak_this_\<close>
  currently holds \<open>w\<close>.
\<close>

datatype payload = Plain | ESFT WeakPtr

text \<open>
  The two concrete control blocks: \<^verbatim>\<open>ControlBlockWithPtr\<close> keeps the raw
  pointer \<^verbatim>\<open>ptr_\<close>, \<^verbatim>\<open>ControlBlockOwning\<close> embeds the payload in its
  \<^verbatim>\<open>buffer_\<close>, whose address is recorded.
\<close>

datatype storage = WithPtr "addr option" | Owning addr

record ControlBlock =
  storage :: storage
  ref_counter :: size_t
  weak_ref_counter :: size_t

text \<open>
  What the program deletes, in order: \<open>PayloadDestroyed p\<close> when the destructor of
  the object at \<open>p\<close> has completed, \<open>BlockDestroyed b\<close> at \<^verbatim>\<open>delete this\<close>.
\<close>

datatype event = PayloadDestroyed addr | BlockDestroyed addr

record heap =
  blocks :: "addr \<rightharpoonup> ControlBlock"
  objects :: "addr \<rightharpoonup> payload"
  brk :: addr
  trace :: "event list"

text \<open>The heap of a program that has allocated nothing yet.\<close>

definition empty_heap :: heap where
  "empty_heap = \<lparr>blocks = Map.empty, objects = Map.empty, brk = 0, trace = []\<rparr>"

definition andThen :: "error + 'a \<Rightarrow> ('a \<Rightarrow> error + 'b) \<Rightarrow> error + 'b" where
  "andThen r f = (case r of Inl e \<Rightarrow> Inl e | Inr x \<Rightarrow> f x)"

text \<open>\<open>returns r P\<close>: the computation ends without an error, in a result satisfying \<open>P\<close>.\<close>

definition returns :: "error + 'a \<Rightarrow> ('a \<Rightarrow> bool) \<Rightarrow> bool" where
  "returns r P = (case r of Inl e \<Rightarrow> False | Inr x \<Rightarrow> P x)"

text \<open>\<open>quiet r\<close>: the computation does not throw \<^verbatim>\<open>BadWeakPtr\<close>.\<close>

definition quiet :: "error + 'a \<Rightarrow> bool" where
  "quiet r = (r \<noteq> Inl BadWeakPtr)"

section \<open>The control block\<close>

definition IncrementRefCounter :: "addr \<Rightarrow> heap \<Rightarrow> error + heap" where
  "IncrementRefCounter b h =
     (case blocks h b of
        None \<Rightarrow> Inl UndefinedBehavior
      | Some cb \<Rightarrow>
          Inr (h\<lparr>blocks := (blocks h)(b \<mapsto>
                 cb\<lparr>ref_counter := ref_counter cb + 1,
                    weak_ref_counter := weak_ref_counter cb + 1\<rparr>)\<rparr>))"

definition IncrementWeakRefCounter :: "addr \<Rightarrow> heap \<Rightarrow> error + heap" where
  "IncrementWeakRefCounter b h =
     (case blocks h b of
        None \<Rightarrow> Inl UndefinedBehavior
      | Some cb \<Rightarrow>
          Inr (h\<lparr>blocks := (blocks h)(b \<mapsto>
                 cb\<lparr>weak_ref_counter := weak_ref_counter cb + 1\<rparr>)\<rparr>))"

definition GetRefCount :: "addr \<Rightarrow> heap \<Rightarrow> error + size_t" where
  "GetRefCount b h =
     (case blocks h b of None \<Rightarrow> Inl UndefinedBehavior | Some cb \<Rightarrow> Inr (ref_counter cb))"

text \<open>\<^verbatim>\<open>delete this\<close>: neither block destructor touches the payload.\<close>

definition delete_this :: "addr \<Rightarrow> heap \<Rightarrow> heap" where
  "delete_this b h = h\<lparr>blocks := (blocks h)(b := None), trace := trace h @ [BlockDestroyed b]\<rparr>"

definition DecrementWeakRefCounter :: "addr \<Rightarrow> heap \<Rightarrow> error + heap" where
  "DecrementWeakRefCounter b h =
     (case blocks h b of
        None \<Rightarrow> Inl UndefinedBehavior
      | Some cb \<Rightarrow>
          (let cb' = cb\<lparr>weak_ref_counter := weak_ref_counter cb - 1\<rparr>;
               h' = h\<lparr>blocks := (blocks h)(b \<mapsto> cb')\<rparr>
           in Inr (if weak_ref_counter cb' = 0 then delete_this b h' else h')))"

text \<open>\<^verbatim>\<open>~WeakPtr\<close>.\<close>

definition WeakPtr_dtor :: "WeakPtr \<Rightarrow> heap \<Rightarrow> error + heap" where
  "WeakPtr_dtor this h =
     (case wblock this of None \<Rightarrow> Inr h | Some b \<Rightarrow> DecrementWeakRefCounter b h)"

text \<open>
  The destructor of the object at \<open>p\<close>. The library's part of it is the destructor
  of \<^verbatim>\<open>EnableSharedFromThis\<close>, which destroys the member
  \<^verbatim>\<open>weak_this_\<close>; after it the object is gone. Destroying an object that is not
  there is undefined.
\<close>

definition destroy_payload :: "addr \<Rightarrow> heap \<Rightarrow> error + heap" where
  "destroy_payload p h =
     (case objects h p of
        None \<Rightarrow> Inl UndefinedBehavior
      | Some Plain \<Rightarrow>
          Inr (h\<lparr>objects := (objects h)(p := None), trace := trace h @ [PayloadDestroyed p]\<rparr>)
      | Some (ESFT w) \<Rightarrow>
          andThen (WeakPtr_dtor w h) (\<lambda>h'.
            Inr (h'\<lparr>objects := (objects h')(p := None),
                    trace := trace h' @ [PayloadDestroyed p]\<rparr>)))"

text \<open>
  \<^verbatim>\<open>delete ptr_\<close> (nothing happens on a null pointer) and
  \<^verbatim>\<open>reinterpret_cast<Y*>(&buffer_)->~Y()\<close>.
\<close>

definition release_payload :: "storage \<Rightarrow> heap \<Rightarrow> error + heap" where
  "release_payload s h =
     (case s of
        WithPtr None \<Rightarrow> Inr h
      | WithPtr (Some p) \<Rightarrow> destroy_payload p h
      | Owning buf \<Rightarrow> destroy_payload buf h)"

text \<open>
  The body of \<^verbatim>\<open>if (ref_counter_ == 0)\<close> in \<^verbatim>\<open>DecrementRefCounter\<close>:
  one more weak reference, the payload's teardown, one weak reference less.
\<close>

definition guarded_release :: "addr \<Rightarrow> heap \<Rightarrow> error + heap" where
  "guarded_release b h =
     andThen (IncrementWeakRefCounter b h) (\<lambda>h1.
       case blocks h1 b of
         None \<Rightarrow> Inl UndefinedBehavior
       | Some cb1 \<Rightarrow>
           andThen (release_payload (storage cb1) h1) (\<lambda>h2.
             case blocks h2 b of
               None \<Rightarrow> Inl UndefinedBehavior
             | Some cb2 \<Rightarrow>
                 Inr (h2\<lparr>blocks := (blocks h2)(b \<mapsto>
                        cb2\<lparr>weak_ref_counter := weak_ref_counter cb2 - 1\<rparr>)\<rparr>)))"

definition DecrementRefCounter :: "addr \<Rightarrow> heap \<Rightarrow> error + heap" where
  "DecrementRefCounter b h =
     (case blocks h b of
        None \<Rightarrow> Inl UndefinedBehavior
      | Some cb \<Rightarrow>
          (let cb' = cb\<lparr>ref_counter := ref_counter cb - 1,
                        weak_ref_counter := weak_ref_counter cb - 1\<rparr>;
               h' = h\<lparr>blocks := (blocks h)(b \<mapsto> cb')\<rparr>
           in andThen (if ref_counter cb' = 0 then guarded_release b h' else Inr h') (\<lambda>h2.
                case blocks h2 b of
                  None \<Rightarrow> Inl UndefinedBehavior
                | Some cb2 \<Rightarrow>
                    Inr (if weak_ref_counter cb2 = 0 then delete_this b h2 else h2))))"

section \<open>The weak handle\<close>

definition WeakPtr_default :: WeakPtr where
  "WeakPtr_default = \<lparr>wblock = None, wobserver = None\<rparr>"

text \<open>The copy constructors of \<^verbatim>\<open>WeakPtr\<close>; the second component is the new handle.\<close>

definition WeakPtr_copy :: "WeakPtr \<Rightarrow> heap \<Rightarrow> error + heap \<times> WeakPtr" where
  "WeakPtr_copy other h =
     (let this = \<lparr>wblock = wblock other, wobserver = wobserver other\<rparr>
      in case wblock this of
           None \<Rightarrow> Inr (h, this)
         | Some b \<Rightarrow> andThen (IncrementWeakRefCounter b h) (\<lambda>h'. Inr (h', this)))"

text \<open>The move constructors: the new handle, and what is left of the source.\<close>

definition WeakPtr_move :: "WeakPtr \<Rightarrow> WeakPtr \<times> WeakPtr" where
  "WeakPtr_move other =
     (\<lparr>wblock = wblock other, wobserver = wobserver other\<rparr>,
      other\<lparr>wblock := None, wobserver := None\<rparr>)"

text \<open>Demotion, \<^verbatim>\<open>WeakPtr(const SharedPtr<T>&)\<close>.\<close>

definition WeakPtr_from_shared :: "SharedPtr \<Rightarrow> heap \<Rightarrow> error + heap \<times> WeakPtr" where
  "WeakPtr_from_shared other h =
     (let this = \<lparr>wblock = block other, wobserver = observer other\<rparr>
      in case wblock this of
           None \<Rightarrow> Inr (h, this)
         | Some b \<Rightarrow> andThen (IncrementWeakRefCounter b h) (\<lambda>h'. Inr (h', this)))"

text \<open>
  The body of \<^verbatim>\<open>operator=\<close>, whose parameter \<open>other\<close> is passed by value: the
  caller has built it and destroys it after the call.
\<close>

definition WeakPtr_assign :: "WeakPtr \<Rightarrow> WeakPtr \<Rightarrow> heap \<Rightarrow> error + heap \<times> WeakPtr" where
  "WeakPtr_assign this other h =
     andThen (case wblock this of None \<Rightarrow> Inr h | Some b \<Rightarrow> DecrementWeakRefCounter b h) (\<lambda>h1.
       let this' = this\<lparr>wblock := wblock other, wobserver := wobserver other\<rparr>
       in andThen (case wblock this' of None \<Rightarrow> Inr h1 | Some b \<Rightarrow> IncrementWeakRefCounter b h1)
            (\<lambda>h2. Inr (h2, this')))"

text \<open>\<^verbatim>\<open>a = b\<close> and \<^verbatim>\<open>a = std::move(b)\<close> for weak handles, parameter included.\<close>

definition WeakPtr_copy_assign :: "WeakPtr \<Rightarrow> WeakPtr \<Rightarrow> heap \<Rightarrow> error + heap \<times> WeakPtr" where
  "WeakPtr_copy_assign this src h =
     andThen (WeakPtr_copy src h) (\<lambda>(h1, other).
       andThen (WeakPtr_assign this other h1) (\<lambda>(h2, this').
         andThen (WeakPtr_dtor other h2) (\<lambda>h3. Inr (h3, this'))))"

definition WeakPtr_move_assign ::
    "WeakPtr \<Rightarrow> WeakPtr \<Rightarrow> heap \<Rightarrow> error + heap \<times> WeakPtr \<times> WeakPtr" where
  "WeakPtr_move_assign this src h =
     (let (other, src') = WeakPtr_move src
      in andThen (WeakPtr_assign this other h) (\<lambda>(h2, this').
           andThen (WeakPtr_dtor other h2) (\<lambda>h3. Inr (h3, this', src'))))"

text \<open>\<^verbatim>\<open>Reset\<close> is \<^verbatim>\<open>*this = WeakPtr<T>()\<close>.\<close>

definition WeakPtr_Reset :: "WeakPtr \<Rightarrow> heap \<Rightarrow> error + heap \<times> WeakPtr" where
  "WeakPtr_Reset this h =
     andThen (WeakPtr_assign this WeakPtr_default h) (\<lambda>(h2, this').
       andThen (WeakPtr_dtor WeakPtr_default h2) (\<lambda>h3. Inr (h3, this')))"

definition WeakPtr_Swap :: "WeakPtr \<Rightarrow> WeakPtr \<Rightarrow> WeakPtr \<times> WeakPtr" where
  "WeakPtr_Swap this other =
     (this\<lparr>wblock := wblock other, wobserver := wobserver other\<rparr>,
      other\<lparr>wblock := wblock this, wobserver := wobserver this\<rparr>)"

definition WeakPtr_UseCount :: "WeakPtr \<Rightarrow> heap \<Rightarrow> error + size_t" where
  "WeakPtr_UseCount this h =
     (case wblock this of None \<Rightarrow> Inr 0 | Some b \<Rightarrow> GetRefCount b h)"

definition Expired :: "WeakPtr \<Rightarrow> heap \<Rightarrow> error + bool" where
  "Expired this h = andThen (WeakPtr_UseCount this h) (\<lambda>n. Inr (n = 0))"

section \<open>The strong handle\<close>

definition SharedPtr_default :: SharedPtr where
  "SharedPtr_default = \<lparr>block = None, observer = None\<rparr>"

text \<open>\<^verbatim>\<open>SharedPtr(std::nullptr_t)\<close> delegates to the default constructor.\<close>

definition SharedPtr_nullptr :: SharedPtr where
  "SharedPtr_nullptr = SharedPtr_default"

text \<open>
  \<^verbatim>\<open>ptr->weak_this_ = WeakPtr(*this)\<close>: the demoted temporary is the by-value
  parameter of \<^verbatim>\<open>operator=\<close>, the member of the object at \<open>ptr\<close> is assigned,
  the temporary is destroyed. Through a null pointer, or at an address where no such
  object lives, the member access is undefined.
\<close>

definition install_weak_this :: "SharedPtr \<Rightarrow> addr option \<Rightarrow> heap \<Rightarrow> error + heap" where
  "install_weak_this this ptr h =
     (case ptr of
        None \<Rightarrow> Inl UndefinedBehavior
      | Some p \<Rightarrow>
          (case objects h p of
             Some (ESFT wt) \<Rightarrow>
               andThen (WeakPtr_from_shared this h) (\<lambda>(h1, other).
                 andThen (WeakPtr_assign wt other h1) (\<lambda>(h2, wt').
                   andThen (WeakPtr_dtor other (h2\<lparr>objects := (objects h2)(p \<mapsto> ESFT wt')\<rparr>)) Inr))
           | _ \<Rightarrow> Inl UndefinedBehavior))"

text \<open>
  \<^verbatim>\<open>explicit SharedPtr(Y* ptr)\<close>. The flag \<open>esft\<close> is the compile-time test
  \<^verbatim>\<open>std::is_convertible_v<Y*, ESFTBase*>\<close>. \<^verbatim>\<open>new\<close> takes the next free
  address and never yields null.
\<close>

definition SharedPtr_from_raw :: "bool \<Rightarrow> addr option \<Rightarrow> heap \<Rightarrow> error + heap \<times> SharedPtr" where
  "SharedPtr_from_raw esft ptr h =
     (let b = brk h;
          h0 = h\<lparr>blocks := (blocks h)(b \<mapsto>
                  \<lparr>storage = WithPtr ptr, ref_counter = 0, weak_ref_counter = 0\<rparr>),
                brk := brk h + 1\<rparr>;
          this = \<lparr>block = Some b, observer = ptr\<rparr>
      in case block this of
           None \<Rightarrow> Inr (h0, this)
         | Some b' \<Rightarrow>
             andThen (IncrementRefCounter b' h0) (\<lambda>h1.
               if esft then andThen (install_weak_this this ptr h1) (\<lambda>h2. Inr (h2, this))
               else Inr (h1, this)))"

definition SharedPtr_copy :: "SharedPtr \<Rightarrow> heap \<Rightarrow> error + heap \<times> SharedPtr" where
  "SharedPtr_copy other h =
     (let this = \<lparr>block = block other, observer = observer other\<rparr>
      in case block this of
           None \<Rightarrow> Inr (h, this)
         | Some b \<Rightarrow> andThen (IncrementRefCounter b h) (\<lambda>h'. Inr (h', this)))"

definition SharedPtr_move :: "SharedPtr \<Rightarrow> SharedPtr \<times> SharedPtr" where
  "SharedPtr_move other =
     (\<lparr>block = block other, observer = observer other\<rparr>,
      other\<lparr>block := None, observer := None\<rparr>)"

text \<open>The aliasing constructor \<^verbatim>\<open>SharedPtr(const SharedPtr<Y>& other, T* ptr)\<close>.\<close>

definition SharedPtr_alias :: "SharedPtr \<Rightarrow> addr option \<Rightarrow> heap \<Rightarrow> error + heap \<times> SharedPtr" where
  "SharedPtr_alias other ptr h =
     (let this = \<lparr>block = block other, observer = ptr\<rparr>
      in case block this of
           None \<Rightarrow> Inr (h, this)
         | Some b \<Rightarrow> andThen (IncrementRefCounter b h) (\<lambda>h'. Inr (h', this)))"

text \<open>Promotion, \<^verbatim>\<open>explicit SharedPtr(const WeakPtr<T>& other)\<close>.\<close>

definition SharedPtr_from_weak :: "WeakPtr \<Rightarrow> heap \<Rightarrow> error + heap \<times> SharedPtr" where
  "SharedPtr_from_weak other h =
     andThen (Expired other h) (\<lambda>expired.
       if expired then Inl BadWeakPtr
       else (let this = \<lparr>block = wblock other, observer = wobserver other\<rparr>
             in case block this of
                  None \<Rightarrow> Inr (h, this)
                | Some b \<Rightarrow> andThen (IncrementRefCounter b h) (\<lambda>h'. Inr (h', this))))"

definition SharedPtr_dtor :: "SharedPtr \<Rightarrow> heap \<Rightarrow> error + heap" where
  "SharedPtr_dtor this h =
     (case block this of None \<Rightarrow> Inr h | Some b \<Rightarrow> DecrementRefCounter b h)"

text \<open>The body of \<^verbatim>\<open>operator=\<close>; \<open>other\<close> is the by-value parameter.\<close>

definition SharedPtr_assign :: "SharedPtr \<Rightarrow> SharedPtr \<Rightarrow> heap \<Rightarrow> error + heap \<times> SharedPtr" where
  "SharedPtr_assign this other h =
     andThen (case block this of None \<Rightarrow> Inr h | Some b \<Rightarrow> DecrementRefCounter b h) (\<lambda>h1.
       let this' = this\<lparr>block := block other, observer := observer other\<rparr>
       in andThen (case block this' of None \<Rightarrow> Inr h1 | Some b \<Rightarrow> IncrementRefCounter b h1)
            (\<lambda>h2. Inr (h2, this')))"

definition SharedPtr_copy_assign :: "SharedPtr \<Rightarrow> SharedPtr \<Rightarrow> heap \<Rightarrow> error + heap \<times> SharedPtr" where
  "SharedPtr_copy_assign this src h =
     andThen (SharedPtr_copy src h) (\<lambda>(h1, other).
       andThen (SharedPtr_assign this other h1) (\<lambda>(h2, this').
         andThen (SharedPtr_dtor other h2) (\<lambda>h3. Inr (h3, this'))))"

definition SharedPtr_move_assign ::
    "SharedPtr \<Rightarrow> SharedPtr \<Rightarrow> heap \<Rightarrow> error + heap \<times> SharedPtr \<times> SharedPtr" where
  "SharedPtr_move_assign this src h =
     (let (other, src') = SharedPtr_move src
      in andThen (SharedPtr_assign this other h) (\<lambda>(h2, this').
           andThen (SharedPtr_dtor other h2) (\<lambda>h3. Inr (h3, this', src'))))"

text \<open>\<^verbatim>\<open>Reset()\<close> is \<^verbatim>\<open>*this = SharedPtr<T>(nullptr)\<close>.\<close>

definition SharedPtr_Reset :: "SharedPtr \<Rightarrow> heap \<Rightarrow> error + heap \<times> SharedPtr" where
  "SharedPtr_Reset this h =
     andThen (SharedPtr_assign this SharedPtr_nullptr h) (\<lambda>(h2, this').
       andThen (SharedPtr_dtor SharedPtr_nullptr h2) (\<lambda>h3. Inr (h3, this')))"

text \<open>\<^verbatim>\<open>Reset(Y* ptr)\<close> is \<^verbatim>\<open>*this = SharedPtr<T>(ptr)\<close>.\<close>

definition SharedPtr_Reset_ptr ::
    "bool \<Rightarrow> SharedPtr \<Rightarrow> addr option \<Rightarrow> heap \<Rightarrow> error + heap \<times> SharedPtr" where
  "SharedPtr_Reset_ptr esft this ptr h =
     andThen (SharedPtr_from_raw esft ptr h) (\<lambda>(h1, other).
       andThen (SharedPtr_assign this other h1) (\<lambda>(h2, this').
         andThen (SharedPtr_dtor other h2) (\<lambda>h3. Inr (h3, this'))))"

definition SharedPtr_Swap :: "SharedPtr \<Rightarrow> SharedPtr \<Rightarrow> SharedPtr \<times> SharedPtr" where
  "SharedPtr_Swap this other =
     (this\<lparr>block := block other, observer := observer other\<rparr>,
      other\<lparr>block := block this, observer := observer this\<rparr>)"

definition Get :: "SharedPtr \<Rightarrow> addr option" where
  "Get this = observer this"

definition UseCount :: "SharedPtr \<Rightarrow> heap \<Rightarrow> error + size_t" where
  "UseCount this h = (case block this of None \<Rightarrow> Inr 0 | Some b \<Rightarrow> GetRefCount b h)"

definition operator_bool :: "SharedPtr \<Rightarrow> bool" where
  "operator_bool this = (observer this \<noteq> None)"

definition operator_eq :: "SharedPtr \<Rightarrow> SharedPtr \<Rightarrow> bool" where
  "operator_eq left right = (Get left = Get right)"

text \<open>\<^verbatim>\<open>Lock\<close>: the conditional expression of the source.\<close>

definition Lock :: "WeakPtr \<Rightarrow> heap \<Rightarrow> error + heap \<times> SharedPtr" where
  "Lock this h =
     andThen (Expired this h) (\<lambda>expired.
       if expired then Inr (h, SharedPtr_default) else SharedPtr_from_weak this h)"

text \<open>
  \<^verbatim>\<open>MakeShared\<close>: one allocation at \<open>brk h\<close> holds the block and, one address
  further, its buffer, in which the payload is constructed; a payload of a type with
  the self-reference capability starts with a default-constructed \<^verbatim>\<open>weak_this_\<close>.
\<close>

definition MakeShared :: "bool \<Rightarrow> heap \<Rightarrow> error + heap \<times> SharedPtr" where
  "MakeShared esft h =
     (let b = brk h;
          buf = brk h + 1;
          h0 = h\<lparr>blocks := (blocks h)(b \<mapsto>
                  \<lparr>storage = Owning buf, ref_counter = 0, weak_ref_counter = 0\<rparr>),
                objects := (objects h)(buf \<mapsto> (if esft then ESFT WeakPtr_default else Plain)),
                brk := brk h + 2\<rparr>;
          result = \<lparr>block = Some b, observer = Some buf\<rparr>
      in andThen (IncrementRefCounter b h0) (\<lambda>h1.
           if esft then andThen (install_weak_this result (observer result) h1) (\<lambda>h2. Inr (h2, result))
           else Inr (h1, result)))"

text \<open>
  \<^verbatim>\<open>EnableSharedFromThis\<close>: the accessors of the object at \<open>p\<close> promote, and
  copy, its member \<^verbatim>\<open>weak_this_\<close>.
\<close>

definition SharedFromThis :: "addr \<Rightarrow> heap \<Rightarrow> error + heap \<times> SharedPtr" where
  "SharedFromThis p h =
     (case objects h p of
        Some (ESFT wt) \<Rightarrow> SharedPtr_from_weak wt h
      | _ \<Rightarrow> Inl UndefinedBehavior)"

definition WeakFromThis :: "addr \<Rightarrow> heap \<Rightarrow> error + heap \<times> WeakPtr" where
  "WeakFromThis p h =
     (case objects h p of
        Some (ESFT wt) \<Rightarrow> WeakPtr_copy wt h
      | _ \<Rightarrow> Inl UndefinedBehavior)"

text \<open>
  The round trip \<^verbatim>\<open>WeakPtr<T> w(s); auto l = w.Lock();\<close>: the heap after it,
  the weak handle and the locked strong handle.
\<close>

definition round_trip :: "SharedPtr \<Rightarrow> heap \<Rightarrow> error + heap \<times> WeakPtr \<times> SharedPtr" where
  "round_trip s h =
     andThen (WeakPtr_from_shared s h) (\<lambda>(h1, w).
       andThen (Lock w h1) (\<lambda>(h2, l). Inr (h2, w, l)))"

text \<open>A strong handle without a block caches no pointer.\<close>

definition null_block_null_pointer :: "SharedPtr \<Rightarrow> bool" where
  "null_block_null_pointer s = (block s = None \<longrightarrow> observer s = None)"

text \<open>\<open>yields r P\<close>: whatever the computation returns satisfies \<open>P\<close>.\<close>

definition yields :: "error + 'a \<Rightarrow> ('a \<Rightarrow> bool) \<Rightarrow> bool" where
  "yields r P = (case r of Inl e \<Rightarrow> True | Inr x \<Rightarrow> P x)"

section \<open>Programs over one control block\<close>

text \<open>
  A configuration is the heap together with the strong and the weak handles that are
  alive as variables of the program. An operation names its handles by position; the
  new handle of a constructor is appended, a destroyed handle leaves the list.
\<close>

record config =
  mem :: heap
  strongs :: "SharedPtr list"
  weaks :: "WeakPtr list"

datatype op =
    Copy nat
  | Move nat
  | Alias nat "addr option"
  | Promote nat
  | LockOp nat
  | Assign nat nat
  | MoveAssign nat nat
  | ResetOp nat
  | SwapOp nat nat
  | Destroy nat
  | Demote nat
  | WCopy nat
  | WMove nat
  | WAssign nat nat
  | WMoveAssign nat nat
  | WReset nat
  | WSwap nat nat
  | WDestroy nat
  | SharedFromThisOp
  | WeakFromThisOp

definition remove_nth :: "nat \<Rightarrow> 'a list \<Rightarrow> 'a list" where
  "remove_nth i xs = take i xs @ drop (Suc i) xs"

text \<open>
  One statement of the program. A statement that names a variable which does not
  exist, or calls a member of the payload at \<open>p\<close> after its lifetime (or of a payload
  type that has no such member), is not a statement of any program and leaves the
  configuration as it is. \<open>Promote\<close> stands inside a \<^verbatim>\<open>try\<close> block: when the
  constructor throws, no handle comes to exist. In a move assignment the parameter is
  built from the source first, so \<open>this\<close> is read after the source was emptied.
\<close>

fun step :: "addr \<Rightarrow> op \<Rightarrow> config \<Rightarrow> error + config" where
  "step p (Copy i) g =
     (if i < length (strongs g)
      then andThen (SharedPtr_copy (strongs g ! i) (mem g)) (\<lambda>(h, s).
             Inr (g\<lparr>mem := h, strongs := strongs g @ [s]\<rparr>))
      else Inr g)"
| "step p (Move i) g =
     (if i < length (strongs g)
      then (let (s, src') = SharedPtr_move (strongs g ! i)
            in Inr (g\<lparr>strongs := (strongs g)[i := src'] @ [s]\<rparr>))
      else Inr g)"
| "step p (Alias i ptr) g =
     (if i < length (strongs g)
      then andThen (SharedPtr_alias (strongs g ! i) ptr (mem g)) (\<lambda>(h, s).
             Inr (g\<lparr>mem := h, strongs := strongs g @ [s]\<rparr>))
      else Inr g)"
| "step p (Promote i) g =
     (if i < length (weaks g)
      then (case SharedPtr_from_weak (weaks g ! i) (mem g) of
              Inl BadWeakPtr \<Rightarrow> Inr g
            | Inl UndefinedBehavior \<Rightarrow> Inl UndefinedBehavior
            | Inr (h, s) \<Rightarrow> Inr (g\<lparr>mem := h, strongs := strongs g @ [s]\<rparr>))
      else Inr g)"
| "step p (LockOp i) g =
     (if i < length (weaks g)
      then andThen (Lock (weaks g ! i) (mem g)) (\<lambda>(h, s).
             Inr (g\<lparr>mem := h, strongs := strongs g @ [s]\<rparr>))
      else Inr g)"
| "step p (Assign i j) g =
     (if i < length (strongs g) \<and> j < length (strongs g)
      then andThen (SharedPtr_copy_assign (strongs g ! i) (strongs g ! j) (mem g)) (\<lambda>(h, this').
             Inr (g\<lparr>mem := h, strongs := (strongs g)[i := this']\<rparr>))
      else Inr g)"
| "step p (MoveAssign i j) g =
     (if i < length (strongs g) \<and> j < length (strongs g)
      then (let this = (strongs g)[j := snd (SharedPtr_move (strongs g ! j))] ! i
            in andThen (SharedPtr_move_assign this (strongs g ! j) (mem g)) (\<lambda>(h, this', src').
                 Inr (g\<lparr>mem := h, strongs := (strongs g)[j := src', i := this']\<rparr>)))
      else Inr g)"
| "step p (ResetOp i) g =
     (if i < length (strongs g)
      then andThen (SharedPtr_Reset (strongs g ! i) (mem g)) (\<lambda>(h, this').
             Inr (g\<lparr>mem := h, strongs := (strongs g)[i := this']\<rparr>))
      else Inr g)"
| "step p (SwapOp i j) g =
     (if i < length (strongs g) \<and> j < length (strongs g)
      then (let (this', other') = SharedPtr_Swap (strongs g ! i) (strongs g ! j)
            in Inr (g\<lparr>strongs := (strongs g)[i := this', j := other']\<rparr>))
      else Inr g)"
| "step p (Destroy i) g =
     (if i < length (strongs g)
      then andThen (SharedPtr_dtor (strongs g ! i) (mem g)) (\<lambda>h.
             Inr (g\<lparr>mem := h, strongs := remove_nth i (strongs g)\<rparr>))
      else Inr g)"
| "step p (Demote i) g =
     (if i < length (strongs g)
      then andThen (WeakPtr_from_shared (strongs g ! i) (mem g)) (\<lambda>(h, w).
             Inr (g\<lparr>mem := h, weaks := weaks g @ [w]\<rparr>))
      else Inr g)"
| "step p (WCopy i) g =
     (if i < length (weaks g)
      then andThen (WeakPtr_copy (weaks g ! i) (mem g)) (\<lambda>(h, w).
             Inr (g\<lparr>mem := h, weaks := weaks g @ [w]\<rparr>))
      else Inr g)"
| "step p (WMove i) g =
     (if i < length (weaks g)
      then (let (w, src') = WeakPtr_move (weaks g ! i)
            in Inr (g\<lparr>weaks := (weaks g)[i := src'] @ [w]\<rparr>))
      else Inr g)"
| "step p (WAssign i j) g =
     (if i < length (weaks g) \<and> j < length (weaks g)
      then andThen (WeakPtr_copy_assign (weaks g ! i) (weaks g ! j) (mem g)) (\<lambda>(h, this').
             Inr (g\<lparr>mem := h, weaks := (weaks g)[i := this']\<rparr>))
      else Inr g)"
| "step p (WMoveAssign i j) g =
     (if i < length (weaks g) \<and> j < length (weaks g)
      then (let this = (weaks g)[j := snd (WeakPtr_move (weaks g ! j))] ! i
            in andThen (WeakPtr_move_assign this (weaks g ! j) (mem g)) (\<lambda>(h, this', src').
                 Inr (g\<lparr>mem := h, weaks := (weaks g)[j := src', i := this']\<rparr>)))
      else Inr g)"
| "step p (WReset i) g =
     (if i < length (weaks g)
      then andThen (WeakPtr_Reset (weaks g ! i) (mem g)) (\<lambda>(h, this').
             Inr (g\<lparr>mem := h, weaks := (weaks g)[i := this']\<rparr>))
      else Inr g)"
| "step p (WSwap i j) g =
     (if i < length (weaks g) \<and> j < length (weaks g)
      then (let (this', other') = WeakPtr_Swap (weaks g ! i) (weaks g ! j)
            in Inr (g\<lparr>weaks := (weaks g)[i := this', j := other']\<rparr>))
      else Inr g)"
| "step p (WDestroy i) g =
     (if i < length (weaks g)
      then andThen (WeakPtr_dtor (weaks g ! i) (mem g)) (\<lambda>h.
             Inr (g\<lparr>mem := h, weaks := remove_nth i (weaks g)\<rparr>))
      else Inr g)"
| "step p SharedFromThisOp g =
     (case objects (mem g) p of
        Some (ESFT wt) \<Rightarrow>
          (case SharedFromThis p (mem g) of
             Inl BadWeakPtr \<Rightarrow> Inr g
           | Inl UndefinedBehavior \<Rightarrow> Inl UndefinedBehavior
           | Inr (h, s) \<Rightarrow> Inr (g\<lparr>mem := h, strongs := strongs g @ [s]\<rparr>))
      | _ \<Rightarrow> Inr g)"
| "step p WeakFromThisOp g =
     (case objects (mem g) p of
        Some (ESFT wt) \<Rightarrow>
          andThen (WeakFromThis p (mem g)) (\<lambda>(h, w).
            Inr (g\<lparr>mem := h, weaks := weaks g @ [w]\<rparr>))
      | _ \<Rightarrow> Inr g)"

fun run :: "addr \<Rightarrow> op list \<Rightarrow> config \<Rightarrow> error + config" where
  "run p [] g = Inr g"
| "run p (x # xs) g = andThen (step p x g) (run p xs)"

text \<open>The two ways a program comes to its first strong handle.\<close>

definition start_raw :: "bool \<Rightarrow> addr \<Rightarrow> heap \<Rightarrow> error + config" where
  "start_raw esft p h =
     andThen (SharedPtr_from_raw esft (Some p) h) (\<lambda>(h', s).
       Inr \<lparr>mem = h', strongs = [s], weaks = []\<rparr>)"

definition start_make :: "bool \<Rightarrow> heap \<Rightarrow> error + config" where
  "start_make esft h =
     andThen (MakeShared esft h) (\<lambda>(h', s).
       Inr \<lparr>mem = h', strongs = [s], weaks = []\<rparr>)"

definition fresh_payload :: "bool \<Rightarrow> payload" where
  "fresh_payload esft = (if esft then ESFT WeakPtr_default else Plain)"

datatype origin = FromRaw addr | FromMake

definition start :: "bool \<Rightarrow> origin \<Rightarrow> heap \<Rightarrow> error + config" where
  "start esft origin h =
     (case origin of FromRaw p \<Rightarrow> start_raw esft p h | FromMake \<Rightarrow> start_make esft h)"

text \<open>
  Where the payload of the first handle lives, and what the starting heap must hold: for
  the raw-pointer constructor the caller's freshly built object, whose
  \<^verbatim>\<open>weak_this_\<close> (if it has one) is still empty.
\<close>

definition payload_at :: "origin \<Rightarrow> heap \<Rightarrow> addr" where
  "payload_at origin h = (case origin of FromRaw p \<Rightarrow> p | FromMake \<Rightarrow> brk h + 1)"

definition block_storage :: "origin \<Rightarrow> heap \<Rightarrow> storage" where
  "block_storage origin h =
     (case origin of FromRaw p \<Rightarrow> WithPtr (Some p) | FromMake \<Rightarrow> Owning (brk h + 1))"

definition well_started :: "bool \<Rightarrow> origin \<Rightarrow> heap \<Rightarrow> bool" where
  "well_started esft origin h =
     (trace h = [] \<and>
      (case origin of FromRaw p \<Rightarrow> objects h p = Some (fresh_payload esft) | FromMake \<Rightarrow> True))"

text \<open>The handles of a configuration that refer to the block at \<open>b\<close>.\<close>

definition owns :: "addr \<Rightarrow> SharedPtr \<Rightarrow> nat" where
  "owns b s = (if block s = Some b then 1 else 0)"

definition watches :: "addr \<Rightarrow> WeakPtr \<Rightarrow> nat" where
  "watches b w = (if wblock w = Some b then 1 else 0)"

definition payload_deaths :: "addr \<Rightarrow> config \<Rightarrow> nat" where
  "payload_deaths p g = count_list (trace (mem g)) (PayloadDestroyed p)"

definition block_deaths :: "addr \<Rightarrow> config \<Rightarrow> nat" where
  "block_deaths b g = count_list (trace (mem g)) (BlockDestroyed b)"

definition owners :: "addr \<Rightarrow> SharedPtr list \<Rightarrow> nat" where
  "owners b ss = length (filter (\<lambda>s. block s = Some b) ss)"

definition watchers :: "addr \<Rightarrow> WeakPtr list \<Rightarrow> nat" where
  "watchers b ws = length (filter (\<lambda>w. wblock w = Some b) ws)"

text \<open>
  What the heap looks like when \<open>ns\<close> strong and \<open>nw\<close> weak handles of the
  program refer to the block at \<open>b\<close> with its payload at \<open>p\<close>: while a strong
  handle lives, the block counts the strong handles, and as weak references the
  strong handles, the weak handles and the payload's own \<^verbatim>\<open>weak_this_\<close>, and
  nothing has been deleted; with no strong handle left the payload is gone; with no
  handle left the block is gone as well.
\<close>

definition cnt :: "nat \<Rightarrow> size_t" where
  "cnt n = of_nat n"

definition embedded :: "bool \<Rightarrow> nat" where
  "embedded esft = (if esft then 1 else 0)"

definition live_payload :: "bool \<Rightarrow> addr \<Rightarrow> addr \<Rightarrow> payload" where
  "live_payload esft b p = (if esft then ESFT \<lparr>wblock = Some b, wobserver = Some p\<rparr> else Plain)"

definition heap_state :: "addr \<Rightarrow> addr \<Rightarrow> bool \<Rightarrow> storage \<Rightarrow> nat \<Rightarrow> nat \<Rightarrow> heap \<Rightarrow> bool" where
  "heap_state b p esft st ns nw h =
     (if 0 < ns then
        blocks h b = Some \<lparr>storage = st, ref_counter = cnt ns,
                            weak_ref_counter = cnt (ns + nw + embedded esft)\<rparr> \<and>
        objects h p = Some (live_payload esft b p) \<and> trace h = []
      else if 0 < nw then
        blocks h b = Some \<lparr>storage = st, ref_counter = 0, weak_ref_counter = cnt nw\<rparr> \<and>
        objects h p = None \<and> trace h = [PayloadDestroyed p]
      else
        blocks h b = None \<and> objects h p = None \<and>
        trace h = [PayloadDestroyed p, BlockDestroyed b])"

definition keeps :: "storage \<Rightarrow> addr \<Rightarrow> bool" where
  "keeps st p = (st = WithPtr (Some p) \<or> st = Owning p)"

definition strong_ok :: "addr \<Rightarrow> SharedPtr \<Rightarrow> bool" where
  "strong_ok b s = (block s = None \<or> block s = Some b)"

definition weak_ok :: "addr \<Rightarrow> WeakPtr \<Rightarrow> bool" where
  "weak_ok b w = (wblock w = None \<or> wblock w = Some b)"

definition config_inv :: "addr \<Rightarrow> addr \<Rightarrow> bool \<Rightarrow> storage \<Rightarrow> config \<Rightarrow> bool" where
  "config_inv b p esft st g =
     (list_all (strong_ok b) (strongs g) \<and> list_all (weak_ok b) (weaks g) \<and>
      heap_state b p esft st (owners b (strongs g)) (watchers b (weaks g)) (mem g))"

text \<open>
  The weak handle that lives inside the payload at \<open>p\<close>: 1 when the payload is alive,
  has the self-reference capability and its \<^verbatim>\<open>weak_this_\<close> refers to the block
  at \<open>b\<close>.
\<close>

definition inner_watch :: "addr \<Rightarrow> addr \<Rightarrow> heap \<Rightarrow> nat" where
  "inner_watch b p h = (case objects h p of Some (ESFT w) \<Rightarrow> watches b w | _ \<Rightarrow> 0)"

text \<open>What one statement preserves: the invariant, with at most one handle more.\<close>

definition step_post :: "addr \<Rightarrow> addr \<Rightarrow> bool \<Rightarrow> storage \<Rightarrow> config \<Rightarrow> config \<Rightarrow> bool" where
  "step_post b p esft st g g' =
     (config_inv b p esft st g' \<and>
      length (strongs g') + length (weaks g') \<le> length (strongs g) + length (weaks g) + 1)"

section \<open>Evaluation rules\<close>

lemma andThen_Inr [simp]: "andThen (Inr x) f = f x"
  by (simp add: andThen_def)

lemma andThen_Inl [simp]: "andThen (Inl e) f = Inl e"
  by (simp add: andThen_def)

lemma returns_Inr [simp]: "returns (Inr x) P = P x"
  by (simp add: returns_def)

lemma returns_Inl [simp]: "returns (Inl e) P = False"
  by (simp add: returns_def)

lemma returns_andThen: "returns (andThen r f) P = returns r (\<lambda>x. returns (f x) P)"
  by (cases r) simp_all

lemma returns_mono: "returns r P \<Longrightarrow> (\<And>x. P x \<Longrightarrow> Q x) \<Longrightarrow> returns r Q"
  by (cases r) simp_all

lemma returns_chain:
  "returns r P \<Longrightarrow> (\<And>x. P x \<Longrightarrow> returns (f x) Q) \<Longrightarrow> returns (andThen r f) Q"
  by (cases r) simp_all

section \<open>The counters follow the handles\<close>

lemma cnt_zero: "n < 2 ^ 64 \<Longrightarrow> (cnt n = 0) = (n = 0)"
  using of_nat_neq_0 [where 'a = 64 and k = n] by (auto simp: cnt_def)

lemma cnt_0 [simp]: "cnt 0 = 0"
  by (simp add: cnt_def)

lemma cnt_pred: "0 < n \<Longrightarrow> cnt n - 1 = cnt (n - 1)"
  by (cases n) (simp_all add: cnt_def)

lemma cnt_Suc: "cnt n + 1 = cnt (Suc n)"
  by (simp add: cnt_def)

lemma unat_cnt: "n < 2 ^ 64 \<Longrightarrow> unat (cnt n) = n"
  by (simp add: cnt_def unat_of_nat)

lemma inc_strong:
  assumes "heap_state b p e st ns nw h" and "0 < ns"
  shows "returns (IncrementRefCounter b h) (heap_state b p e st (Suc ns) nw)"
  using assms by (simp add: heap_state_def IncrementRefCounter_def cnt_Suc)

lemma inc_weak:
  assumes "heap_state b p e st ns nw h" and "0 < ns + nw"
  shows "returns (IncrementWeakRefCounter b h) (heap_state b p e st ns (Suc nw))"
  using assms by (cases "0 < ns") (simp_all add: heap_state_def IncrementWeakRefCounter_def cnt_Suc)

lemma dec_weak:
  assumes "heap_state b p e st ns nw h" and "0 < nw" and "ns + nw + 2 < 2 ^ 64"
  shows "returns (DecrementWeakRefCounter b h) (heap_state b p e st ns (nw - 1))"
proof (cases "0 < ns")
  case True
  then have "cnt (ns + nw + embedded e) - 1 = cnt (ns + (nw - 1) + embedded e)"
    using assms(2) by (simp add: cnt_pred)
  moreover have "cnt (ns + (nw - 1) + embedded e) \<noteq> 0"
    using True assms(3) by (simp add: cnt_zero embedded_def)
  ultimately show ?thesis
    using assms(1) True by (simp add: heap_state_def DecrementWeakRefCounter_def Let_def)
next
  case False
  have "cnt nw - 1 = cnt (nw - 1)"
    using assms(2) by (simp add: cnt_pred)
  moreover have "(cnt (nw - 1) = 0) = (nw - 1 = 0)"
    using assms(3) by (simp add: cnt_zero)
  ultimately show ?thesis
    using assms(1,2) False
    by (auto simp add: heap_state_def DecrementWeakRefCounter_def Let_def delete_this_def)
qed


lemma dec_strong_many:
  assumes "heap_state b p e st ns nw h" and "1 < ns" and "ns + nw + 2 < 2 ^ 64"
  shows "returns (DecrementRefCounter b h) (heap_state b p e st (ns - 1) nw)"
proof -
  have "cnt ns - 1 = cnt (ns - 1)" "cnt (ns - 1) \<noteq> 0"
    using assms(2,3) by (simp_all add: cnt_pred cnt_zero)
  moreover have "cnt (ns + nw + embedded e) - 1 = cnt (ns - 1 + nw + embedded e)"
    using assms(2) by (simp add: cnt_pred)
  moreover have "cnt (ns - 1 + nw + embedded e) \<noteq> 0"
    using assms(2,3) by (simp add: cnt_zero embedded_def)
  ultimately show ?thesis
    using assms(1,2) by (simp add: heap_state_def DecrementRefCounter_def Let_def)
qed

lemma dec_strong_last:
  assumes "heap_state b p e st 1 nw h" and "keeps st p" and "nw + 3 < 2 ^ 64"
  shows "returns (DecrementRefCounter b h) (heap_state b p e st 0 nw)"
proof -
  have z: "(cnt nw = 0) = (nw = 0)" "cnt (Suc nw) \<noteq> 0" "cnt (Suc (Suc nw)) \<noteq> 0"
    using assms(3) by (simp_all add: cnt_zero)
  have a: "cnt 1 - 1 = 0" "cnt (Suc nw) - 1 = cnt nw" "cnt (Suc (Suc nw)) - 1 = cnt (Suc nw)"
    by (simp_all add: cnt_pred)
  show ?thesis
    using assms(1,2) z a
    by (cases e; cases "nw = 0")
       (auto simp add: heap_state_def DecrementRefCounter_def Let_def guarded_release_def
          IncrementWeakRefCounter_def release_payload_def destroy_payload_def WeakPtr_dtor_def
          DecrementWeakRefCounter_def delete_this_def keeps_def embedded_def live_payload_def
          cnt_Suc)
qed

lemma dec_strong:
  assumes "heap_state b p e st ns nw h" and "0 < ns" and "keeps st p" and "ns + nw + 2 < 2 ^ 64"
  shows "returns (DecrementRefCounter b h) (heap_state b p e st (ns - 1) nw)"
proof (cases "ns = 1")
  case True
  then show ?thesis using dec_strong_last [of b p e st nw h] assms by simp
next
  case False
  then show ?thesis using dec_strong_many [of b p e st ns nw h] assms by simp
qed

lemma get_count:
  assumes "heap_state b p e st ns nw h" and "0 < ns + nw"
  shows "GetRefCount b h = Inr (cnt ns)"
  using assms by (cases "0 < ns") (simp_all add: heap_state_def GetRefCount_def)

lemma inc_strong_opt:
  assumes "heap_state b p e st ns nw h" and "x = None \<or> x = Some b" and "x = Some b \<longrightarrow> 0 < ns"
  shows "returns (case x of None \<Rightarrow> Inr h | Some b' \<Rightarrow> IncrementRefCounter b' h)
           (heap_state b p e st (ns + (if x = Some b then 1 else 0)) nw)"
  using assms inc_strong [of b p e st ns nw h] by (cases x) auto

lemma dec_strong_opt:
  assumes "heap_state b p e st ns nw h" and "x = None \<or> x = Some b" and "x = Some b \<longrightarrow> 0 < ns"
    and "keeps st p" and "ns + nw + 2 < 2 ^ 64"
  shows "returns (case x of None \<Rightarrow> Inr h | Some b' \<Rightarrow> DecrementRefCounter b' h)
           (heap_state b p e st (ns - (if x = Some b then 1 else 0)) nw)"
  using assms dec_strong [of b p e st ns nw h] by (cases x) auto

lemma inc_weak_opt:
  assumes "heap_state b p e st ns nw h" and "x = None \<or> x = Some b"
    and "x = Some b \<longrightarrow> 0 < ns + nw"
  shows "returns (case x of None \<Rightarrow> Inr h | Some b' \<Rightarrow> IncrementWeakRefCounter b' h)
           (heap_state b p e st ns (nw + (if x = Some b then 1 else 0)))"
  using assms inc_weak [of b p e st ns nw h] by (cases x) auto

lemma dec_weak_opt:
  assumes "heap_state b p e st ns nw h" and "x = None \<or> x = Some b" and "x = Some b \<longrightarrow> 0 < nw"
    and "ns + nw + 2 < 2 ^ 64"
  shows "returns (case x of None \<Rightarrow> Inr h | Some b' \<Rightarrow> DecrementWeakRefCounter b' h)
           (heap_state b p e st ns (nw - (if x = Some b then 1 else 0)))"
  using assms dec_weak [of b p e st ns nw h] by (cases x) auto

lemma sp_copy:
  assumes "heap_state b p e st ns nw h" and "strong_ok b s" and "owns b s \<le> ns"
  shows "returns (SharedPtr_copy s h) (\<lambda>(h', s').
           heap_state b p e st (ns + owns b s) nw h' \<and>
           s' = \<lparr>block = block s, observer = observer s\<rparr>)"
proof -
  have "returns (case block s of None \<Rightarrow> Inr h | Some b' \<Rightarrow> IncrementRefCounter b' h)
          (heap_state b p e st (ns + owns b s) nw)"
    using inc_strong_opt [OF assms(1), of "block s"] assms(2,3)
    by (auto simp: strong_ok_def owns_def)
  then show ?thesis
    by (cases "block s") (auto simp: SharedPtr_copy_def returns_andThen elim: returns_mono)
qed

lemma sp_alias:
  assumes "heap_state b p e st ns nw h" and "strong_ok b s" and "owns b s \<le> ns"
  shows "returns (SharedPtr_alias s q h) (\<lambda>(h', s').
           heap_state b p e st (ns + owns b s) nw h' \<and>
           s' = \<lparr>block = block s, observer = q\<rparr>)"
proof -
  have "returns (case block s of None \<Rightarrow> Inr h | Some b' \<Rightarrow> IncrementRefCounter b' h)
          (heap_state b p e st (ns + owns b s) nw)"
    using inc_strong_opt [OF assms(1), of "block s"] assms(2,3)
    by (auto simp: strong_ok_def owns_def)
  then show ?thesis
    by (cases "block s") (auto simp: SharedPtr_alias_def returns_andThen elim: returns_mono)
qed

lemma sp_dtor:
  assumes "heap_state b p e st ns nw h" and "strong_ok b s" and "owns b s \<le> ns"
    and "keeps st p" and "ns + nw + 2 < 2 ^ 64"
  shows "returns (SharedPtr_dtor s h) (heap_state b p e st (ns - owns b s) nw)"
  using dec_strong_opt [OF assms(1), of "block s"] assms(2-)
  by (auto simp: strong_ok_def owns_def SharedPtr_dtor_def)

lemma sp_assign:
  assumes "heap_state b p e st ns nw h" and "strong_ok b this" and "strong_ok b other"
    and "owns b this \<le> ns" and "owns b other \<le> ns - owns b this"
    and "keeps st p" and "ns + nw + 2 < 2 ^ 64"
  shows "returns (SharedPtr_assign this other h) (\<lambda>(h', this').
           heap_state b p e st (ns - owns b this + owns b other) nw h' \<and>
           this' = this\<lparr>block := block other, observer := observer other\<rparr>)"
  unfolding SharedPtr_assign_def
proof (rule returns_chain)
  show "returns (case block this of None \<Rightarrow> Inr h | Some b' \<Rightarrow> DecrementRefCounter b' h)
          (heap_state b p e st (ns - owns b this) nw)"
    using dec_strong_opt [OF assms(1), of "block this"] assms(2,4,6,7)
    by (auto simp: strong_ok_def owns_def)
next
  fix h1 assume h1: "heap_state b p e st (ns - owns b this) nw h1"
  have "returns (case block other of None \<Rightarrow> Inr h1 | Some b' \<Rightarrow> IncrementRefCounter b' h1)
          (heap_state b p e st (ns - owns b this + owns b other) nw)"
    using inc_strong_opt [OF h1, of "block other"] assms(3,5)
    by (auto simp: strong_ok_def owns_def)
  then show "returns
        (let this' = this\<lparr>block := block other, observer := observer other\<rparr>
         in andThen (case block this' of None \<Rightarrow> Inr h1 | Some b \<Rightarrow> IncrementRefCounter b h1)
              (\<lambda>h2. Inr (h2, this')))
        (\<lambda>(h', this').
            heap_state b p e st (ns - owns b this + owns b other) nw h' \<and>
            this' = this\<lparr>block := block other, observer := observer other\<rparr>)"
    by (auto simp: Let_def returns_andThen elim: returns_mono)
qed


lemma returnsD: "returns r P \<Longrightarrow> \<exists>x. r = Inr x \<and> P x"
  by (cases r) simp_all

lemma returns_pairD: "returns r (\<lambda>(a, b). P a b) \<Longrightarrow> \<exists>a b. r = Inr (a, b) \<and> P a b"
  by (cases r) auto

lemma owns_le1: "owns b s \<le> 1"
  by (simp add: owns_def)

lemma sp_copy_assign:
  assumes "heap_state b p e st ns nw h" and "strong_ok b this" and "strong_ok b src"
    and "owns b this \<le> ns" and "owns b src \<le> ns"
    and "keeps st p" and "ns + nw + 4 < 2 ^ 64"
  shows "returns (SharedPtr_copy_assign this src h) (\<lambda>(h', this').
           heap_state b p e st (ns - owns b this + owns b src) nw h' \<and>
           this' = this\<lparr>block := block src, observer := observer src\<rparr>)"
proof -
  note le = owns_le1 [of b src] owns_le1 [of b this]
  obtain h1 other where c: "SharedPtr_copy src h = Inr (h1, other)"
    and h1: "heap_state b p e st (ns + owns b src) nw h1"
    and other: "other = \<lparr>block = block src, observer = observer src\<rparr>"
    using returns_pairD [OF sp_copy [OF assms(1,3,5)]] by blast
  have ok: "strong_ok b other" and w: "owns b other = owns b src"
    using assms(3) other by (simp_all add: strong_ok_def owns_def)
  have "returns (SharedPtr_assign this other h1) (\<lambda>(h', this').
           heap_state b p e st (ns + owns b src - owns b this + owns b other) nw h' \<and>
           this' = this\<lparr>block := block other, observer := observer other\<rparr>)"
    using sp_assign [OF h1 assms(2) ok _ _ assms(6)] assms(4,5,7) w le by simp
  then obtain h2 this' where a: "SharedPtr_assign this other h1 = Inr (h2, this')"
    and h2: "heap_state b p e st (ns + owns b src - owns b this + owns b other) nw h2"
    and t: "this' = this\<lparr>block := block other, observer := observer other\<rparr>"
    using returns_pairD by blast
  have "returns (SharedPtr_dtor other h2)
          (heap_state b p e st (ns + owns b src - owns b this + owns b other - owns b other) nw)"
    using sp_dtor [OF h2 ok _ assms(6)] assms(4,5,7) w le by simp
  then obtain h3 where d: "SharedPtr_dtor other h2 = Inr h3"
    and h3: "heap_state b p e st (ns + owns b src - owns b this + owns b other - owns b other) nw h3"
    using returnsD by blast
  have "ns + owns b src - owns b this + owns b other - owns b other
          = ns - owns b this + owns b src"
    using assms(4) by simp
  moreover have "this' = this\<lparr>block := block src, observer := observer src\<rparr>"
    using t other by simp
  ultimately show ?thesis
    using h3 by (simp add: SharedPtr_copy_assign_def c a d)
qed


lemma sp_move_assign:
  assumes "heap_state b p e st ns nw h" and "strong_ok b this" and "strong_ok b src"
    and "owns b this + owns b src \<le> ns"
    and "keeps st p" and "ns + nw + 4 < 2 ^ 64"
  shows "returns (SharedPtr_move_assign this src h) (\<lambda>(h', this', src').
           heap_state b p e st (ns - owns b this) nw h' \<and>
           this' = this\<lparr>block := block src, observer := observer src\<rparr> \<and>
           src' = src\<lparr>block := None, observer := None\<rparr>)"
proof -
  define other where "other = \<lparr>block = block src, observer = observer src\<rparr>"
  have ok: "strong_ok b other" and w: "owns b other = owns b src"
    using assms(3) by (simp_all add: strong_ok_def owns_def other_def)
  have "returns (SharedPtr_assign this other h) (\<lambda>(h', this').
           heap_state b p e st (ns - owns b this + owns b other) nw h' \<and>
           this' = this\<lparr>block := block other, observer := observer other\<rparr>)"
    using sp_assign [OF assms(1,2) ok _ _ assms(5)] assms(4,6) w by simp
  then obtain h2 this' where a: "SharedPtr_assign this other h = Inr (h2, this')"
    and h2: "heap_state b p e st (ns - owns b this + owns b other) nw h2"
    and t: "this' = this\<lparr>block := block other, observer := observer other\<rparr>"
    using returns_pairD by blast
  have "returns (SharedPtr_dtor other h2)
          (heap_state b p e st (ns - owns b this + owns b other - owns b other) nw)"
    using sp_dtor [OF h2 ok _ assms(5)] assms(4,6) w owns_le1 [of b src] owns_le1 [of b this]
    by simp
  then obtain h3 where d: "SharedPtr_dtor other h2 = Inr h3"
    and h3: "heap_state b p e st (ns - owns b this + owns b other - owns b other) nw h3"
    using returnsD by blast
  have "this' = this\<lparr>block := block src, observer := observer src\<rparr>"
    using t by (simp add: other_def)
  then show ?thesis
    using h3 a d by (simp add: SharedPtr_move_assign_def SharedPtr_move_def other_def)
qed

lemma sp_Reset:
  assumes "heap_state b p e st ns nw h" and "strong_ok b this" and "owns b this \<le> ns"
    and "keeps st p" and "ns + nw + 4 < 2 ^ 64"
  shows "returns (SharedPtr_Reset this h) (\<lambda>(h', this').
           heap_state b p e st (ns - owns b this) nw h' \<and>
           this' = this\<lparr>block := None, observer := None\<rparr>)"
proof -
  have ok: "strong_ok b SharedPtr_nullptr" and w: "owns b SharedPtr_nullptr = 0"
    by (simp_all add: strong_ok_def owns_def SharedPtr_nullptr_def SharedPtr_default_def)
  have "returns (SharedPtr_assign this SharedPtr_nullptr h) (\<lambda>(h', this').
           heap_state b p e st (ns - owns b this + owns b SharedPtr_nullptr) nw h' \<and>
           this' = this\<lparr>block := block SharedPtr_nullptr, observer := observer SharedPtr_nullptr\<rparr>)"
    using sp_assign [OF assms(1,2) ok _ _ assms(4)] assms(3,5) w by simp
  then obtain h2 this' where a: "SharedPtr_assign this SharedPtr_nullptr h = Inr (h2, this')"
    and h2: "heap_state b p e st (ns - owns b this) nw h2"
    and t: "this' = this\<lparr>block := None, observer := None\<rparr>"
    using returns_pairD w by (fastforce simp: SharedPtr_nullptr_def SharedPtr_default_def)
  have "SharedPtr_dtor SharedPtr_nullptr h2 = Inr h2"
    by (simp add: SharedPtr_dtor_def SharedPtr_nullptr_def SharedPtr_default_def)
  then show ?thesis
    using h2 a t by (simp add: SharedPtr_Reset_def)
qed

lemma expired_state:
  assumes "heap_state b p e st ns nw h" and "weak_ok b w"
    and "wblock w = Some b \<longrightarrow> 0 < ns + nw" and "ns + nw + 2 < 2 ^ 64"
  shows "Expired w h = Inr (wblock w = None \<or> ns = 0)"
proof (cases "wblock w")
  case None
  then show ?thesis by (simp add: Expired_def WeakPtr_UseCount_def)
next
  case (Some b')
  then have "b' = b" using assms(2) by (simp add: weak_ok_def)
  moreover have "(cnt ns = 0) = (ns = 0)" using assms(4) by (simp add: cnt_zero)
  ultimately show ?thesis
    using Some get_count [OF assms(1)] assms(3)
    by (simp add: Expired_def WeakPtr_UseCount_def)
qed

lemma promote_expired:
  assumes "heap_state b p e st ns nw h" and "weak_ok b w"
    and "wblock w = Some b \<longrightarrow> 0 < ns + nw" and "ns + nw + 2 < 2 ^ 64"
    and "wblock w = None \<or> ns = 0"
  shows "SharedPtr_from_weak w h = Inl BadWeakPtr"
  using expired_state [OF assms(1-4)] assms(5) by (simp add: SharedPtr_from_weak_def)

lemma promote_live:
  assumes "heap_state b p e st ns nw h" and "wblock w = Some b" and "0 < ns"
    and "ns + nw + 2 < 2 ^ 64"
  shows "returns (SharedPtr_from_weak w h) (\<lambda>(h', s).
           heap_state b p e st (Suc ns) nw h' \<and> s = \<lparr>block = Some b, observer = wobserver w\<rparr>)"
proof -
  have "Expired w h = Inr False"
    using expired_state [OF assms(1), of w] assms(2-) by (simp add: weak_ok_def)
  then show ?thesis
    using inc_strong [OF assms(1,3)] assms(2)
    by (auto simp: SharedPtr_from_weak_def returns_andThen elim: returns_mono)
qed

lemma lock_expired:
  assumes "heap_state b p e st ns nw h" and "weak_ok b w"
    and "wblock w = Some b \<longrightarrow> 0 < ns + nw" and "ns + nw + 2 < 2 ^ 64"
    and "wblock w = None \<or> ns = 0"
  shows "Lock w h = Inr (h, SharedPtr_default)"
  using expired_state [OF assms(1-4)] assms(5) by (simp add: Lock_def)

lemma lock_live:
  assumes "heap_state b p e st ns nw h" and "wblock w = Some b" and "0 < ns"
    and "ns + nw + 2 < 2 ^ 64"
  shows "returns (Lock w h) (\<lambda>(h', s).
           heap_state b p e st (Suc ns) nw h' \<and> s = \<lparr>block = Some b, observer = wobserver w\<rparr>)"
proof -
  have "Expired w h = Inr False"
    using expired_state [OF assms(1), of w] assms(2-) by (simp add: weak_ok_def)
  then show ?thesis
    using promote_live [OF assms] by (simp add: Lock_def)
qed

lemma watches_le1: "watches b w \<le> 1"
  by (simp add: watches_def)

lemma wp_copy:
  assumes "heap_state b p e st ns nw h" and "weak_ok b w"
    and "wblock w = Some b \<longrightarrow> 0 < ns + nw"
  shows "returns (WeakPtr_copy w h) (\<lambda>(h', w').
           heap_state b p e st ns (nw + watches b w) h' \<and>
           w' = \<lparr>wblock = wblock w, wobserver = wobserver w\<rparr>)"
proof -
  have "returns (case wblock w of None \<Rightarrow> Inr h | Some b' \<Rightarrow> IncrementWeakRefCounter b' h)
          (heap_state b p e st ns (nw + watches b w))"
    using inc_weak_opt [OF assms(1), of "wblock w"] assms(2,3)
    by (auto simp: weak_ok_def watches_def)
  then show ?thesis
    by (cases "wblock w") (auto simp: WeakPtr_copy_def returns_andThen elim: returns_mono)
qed

lemma wp_from_shared:
  assumes "heap_state b p e st ns nw h" and "strong_ok b s" and "owns b s \<le> ns"
  shows "returns (WeakPtr_from_shared s h) (\<lambda>(h', w').
           heap_state b p e st ns (nw + owns b s) h' \<and>
           w' = \<lparr>wblock = block s, wobserver = observer s\<rparr>)"
proof -
  have "returns (case block s of None \<Rightarrow> Inr h | Some b' \<Rightarrow> IncrementWeakRefCounter b' h)
          (heap_state b p e st ns (nw + owns b s))"
    using inc_weak_opt [OF assms(1), of "block s"] assms(2,3)
    by (auto simp: strong_ok_def owns_def)
  then show ?thesis
    by (cases "block s") (auto simp: WeakPtr_from_shared_def returns_andThen elim: returns_mono)
qed

lemma wp_dtor:
  assumes "heap_state b p e st ns nw h" and "weak_ok b w" and "watches b w \<le> nw"
    and "ns + nw + 2 < 2 ^ 64"
  shows "returns (WeakPtr_dtor w h) (heap_state b p e st ns (nw - watches b w))"
  using dec_weak_opt [OF assms(1), of "wblock w"] assms(2-)
  by (auto simp: weak_ok_def watches_def WeakPtr_dtor_def)

lemma wp_assign:
  assumes "heap_state b p e st ns nw h" and "weak_ok b this" and "weak_ok b other"
    and "watches b this \<le> nw" and "watches b other \<le> nw - watches b this"
    and "ns + nw + 2 < 2 ^ 64"
  shows "returns (WeakPtr_assign this other h) (\<lambda>(h', this').
           heap_state b p e st ns (nw - watches b this + watches b other) h' \<and>
           this' = this\<lparr>wblock := wblock other, wobserver := wobserver other\<rparr>)"
proof -
  have "returns (case wblock this of None \<Rightarrow> Inr h | Some b' \<Rightarrow> DecrementWeakRefCounter b' h)
          (heap_state b p e st ns (nw - watches b this))"
    using dec_weak_opt [OF assms(1), of "wblock this"] assms(2,4,6)
    by (auto simp: weak_ok_def watches_def)
  then obtain h1 where d: "(case wblock this of None \<Rightarrow> Inr h
                             | Some b' \<Rightarrow> DecrementWeakRefCounter b' h) = Inr h1"
    and h1: "heap_state b p e st ns (nw - watches b this) h1"
    using returnsD by blast
  have pos: "wblock other = Some b \<longrightarrow> 0 < ns + (nw - watches b this)"
    using assms(5) by (auto simp: watches_def)
  have eq: "(if wblock other = Some b then 1 else 0) = watches b other"
    by (simp add: watches_def)
  have "returns (case wblock other of None \<Rightarrow> Inr h1 | Some b' \<Rightarrow> IncrementWeakRefCounter b' h1)
          (heap_state b p e st ns (nw - watches b this + watches b other))"
    using inc_weak_opt [OF h1 _ pos] assms(3) unfolding eq
    by (simp add: weak_ok_def)
  then show ?thesis
    by (auto simp: WeakPtr_assign_def d Let_def returns_andThen elim: returns_mono)
qed

lemma wp_copy_assign:
  assumes "heap_state b p e st ns nw h" and "weak_ok b this" and "weak_ok b src"
    and "watches b this \<le> nw" and "watches b src \<le> nw"
    and "ns + nw + 4 < 2 ^ 64"
  shows "returns (WeakPtr_copy_assign this src h) (\<lambda>(h', this').
           heap_state b p e st ns (nw - watches b this + watches b src) h' \<and>
           this' = this\<lparr>wblock := wblock src, wobserver := wobserver src\<rparr>)"
proof -
  note le = watches_le1 [of b src] watches_le1 [of b this]
  have "wblock src = Some b \<longrightarrow> 0 < ns + nw"
    using assms(5) by (auto simp: watches_def)
  then obtain h1 other where c: "WeakPtr_copy src h = Inr (h1, other)"
    and h1: "heap_state b p e st ns (nw + watches b src) h1"
    and other: "other = \<lparr>wblock = wblock src, wobserver = wobserver src\<rparr>"
    using returns_pairD [OF wp_copy [OF assms(1,3)]] by blast
  have ok: "weak_ok b other" and w: "watches b other = watches b src"
    using assms(3) other by (simp_all add: weak_ok_def watches_def)
  have "returns (WeakPtr_assign this other h1) (\<lambda>(h', this').
           heap_state b p e st ns (nw + watches b src - watches b this + watches b other) h' \<and>
           this' = this\<lparr>wblock := wblock other, wobserver := wobserver other\<rparr>)"
    using wp_assign [OF h1 assms(2) ok] assms(4,5,6) w le by simp
  then obtain h2 this' where a: "WeakPtr_assign this other h1 = Inr (h2, this')"
    and h2: "heap_state b p e st ns (nw + watches b src - watches b this + watches b other) h2"
    and t: "this' = this\<lparr>wblock := wblock other, wobserver := wobserver other\<rparr>"
    using returns_pairD by blast
  have "returns (WeakPtr_dtor other h2)
          (heap_state b p e st ns
             (nw + watches b src - watches b this + watches b other - watches b other))"
    using wp_dtor [OF h2 ok] assms(4,5,6) w le by simp
  then obtain h3 where d: "WeakPtr_dtor other h2 = Inr h3"
    and h3: "heap_state b p e st ns
               (nw + watches b src - watches b this + watches b other - watches b other) h3"
    using returnsD by blast
  have "nw + watches b src - watches b this + watches b other - watches b other
          = nw - watches b this + watches b src"
    using assms(4) by simp
  moreover have "this' = this\<lparr>wblock := wblock src, wobserver := wobserver src\<rparr>"
    using t other by simp
  ultimately show ?thesis
    using h3 by (simp add: WeakPtr_copy_assign_def c a d)
qed

lemma wp_move_assign:
  assumes "heap_state b p e st ns nw h" and "weak_ok b this" and "weak_ok b src"
    and "watches b this + watches b src \<le> nw"
    and "ns + nw + 4 < 2 ^ 64"
  shows "returns (WeakPtr_move_assign this src h) (\<lambda>(h', this', src').
           heap_state b p e st ns (nw - watches b this) h' \<and>
           this' = this\<lparr>wblock := wblock src, wobserver := wobserver src\<rparr> \<and>
           src' = src\<lparr>wblock := None, wobserver := None\<rparr>)"
proof -
  note le = watches_le1 [of b src] watches_le1 [of b this]
  define other where "other = \<lparr>wblock = wblock src, wobserver = wobserver src\<rparr>"
  have ok: "weak_ok b other" and w: "watches b other = watches b src"
    using assms(3) by (simp_all add: weak_ok_def watches_def other_def)
  have "returns (WeakPtr_assign this other h) (\<lambda>(h', this').
           heap_state b p e st ns (nw - watches b this + watches b other) h' \<and>
           this' = this\<lparr>wblock := wblock other, wobserver := wobserver other\<rparr>)"
    using wp_assign [OF assms(1,2) ok] assms(4,5) w by simp
  then obtain h2 this' where a: "WeakPtr_assign this other h = Inr (h2, this')"
    and h2: "heap_state b p e st ns (nw - watches b this + watches b other) h2"
    and t: "this' = this\<lparr>wblock := wblock other, wobserver := wobserver other\<rparr>"
    using returns_pairD by blast
  have "returns (WeakPtr_dtor other h2)
          (heap_state b p e st ns (nw - watches b this + watches b other - watches b other))"
    using wp_dtor [OF h2 ok] assms(4,5) w le by simp
  then obtain h3 where d: "WeakPtr_dtor other h2 = Inr h3"
    and h3: "heap_state b p e st ns (nw - watches b this + watches b other - watches b other) h3"
    using returnsD by blast
  have "this' = this\<lparr>wblock := wblock src, wobserver := wobserver src\<rparr>"
    using t by (simp add: other_def)
  then show ?thesis
    using h3 a d by (simp add: WeakPtr_move_assign_def WeakPtr_move_def other_def)
qed

lemma wp_Reset:
  assumes "heap_state b p e st ns nw h" and "weak_ok b this" and "watches b this \<le> nw"
    and "ns + nw + 4 < 2 ^ 64"
  shows "returns (WeakPtr_Reset this h) (\<lambda>(h', this').
           heap_state b p e st ns (nw - watches b this) h' \<and>
           this' = this\<lparr>wblock := None, wobserver := None\<rparr>)"
proof -
  have ok: "weak_ok b WeakPtr_default" and w: "watches b WeakPtr_default = 0"
    by (simp_all add: weak_ok_def watches_def WeakPtr_default_def)
  have "returns (WeakPtr_assign this WeakPtr_default h) (\<lambda>(h', this').
           heap_state b p e st ns (nw - watches b this + watches b WeakPtr_default) h' \<and>
           this' = this\<lparr>wblock := wblock WeakPtr_default, wobserver := wobserver WeakPtr_default\<rparr>)"
    using wp_assign [OF assms(1,2) ok] assms(3,4) w by simp
  then obtain h2 this' where a: "WeakPtr_assign this WeakPtr_default h = Inr (h2, this')"
    and h2: "heap_state b p e st ns (nw - watches b this) h2"
    and t: "this' = this\<lparr>wblock := None, wobserver := None\<rparr>"
    using returns_pairD w by (fastforce simp: WeakPtr_default_def)
  have "WeakPtr_dtor WeakPtr_default h2 = Inr h2"
    by (simp add: WeakPtr_dtor_def WeakPtr_default_def)
  then show ?thesis
    using h2 a t by (simp add: WeakPtr_Reset_def)
qed

lemma owners_sum: "owners b ss = sum_list (map (owns b) ss)"
  by (induction ss) (simp_all add: owners_def owns_def)

lemma watchers_sum: "watchers b ws = sum_list (map (watches b) ws)"
  by (induction ws) (simp_all add: watchers_def watches_def)

lemma owners_append: "owners b (ss @ [s]) = owners b ss + owns b s"
  by (simp add: owners_sum)

lemma watchers_append: "watchers b (ws @ [w]) = watchers b ws + watches b w"
  by (simp add: watchers_sum)

lemma owners_nth_le: "i < length ss \<Longrightarrow> owns b (ss ! i) \<le> owners b ss"
  using elem_le_sum_list [of i "map (owns b) ss"] by (simp add: owners_sum)

lemma watchers_nth_le: "i < length ws \<Longrightarrow> watches b (ws ! i) \<le> watchers b ws"
  using elem_le_sum_list [of i "map (watches b) ws"] by (simp add: watchers_sum)

lemma owners_update:
  "i < length ss \<Longrightarrow> owners b (ss[i := s]) = owners b ss - owns b (ss ! i) + owns b s"
  using owners_nth_le [of i ss b] by (simp add: owners_sum map_update sum_list_update)

lemma watchers_update:
  "i < length ws \<Longrightarrow> watchers b (ws[i := w]) = watchers b ws - watches b (ws ! i) + watches b w"
  using watchers_nth_le [of i ws b] by (simp add: watchers_sum map_update sum_list_update)

lemma sum_list_remove_nth:
  fixes f :: "'a \<Rightarrow> nat"
  assumes "i < length xs"
  shows "sum_list (map f (remove_nth i xs)) = sum_list (map f xs) - f (xs ! i)"
proof -
  have "sum_list (map f xs) = sum_list (map f (take i xs @ xs ! i # drop (Suc i) xs))"
    using id_take_nth_drop [OF assms] by (rule arg_cong)
  also have "\<dots> = sum_list (map f (remove_nth i xs)) + f (xs ! i)"
    by (simp add: remove_nth_def)
  finally show ?thesis by simp
qed

lemma owners_remove:
  "i < length ss \<Longrightarrow> owners b (remove_nth i ss) = owners b ss - owns b (ss ! i)"
  by (simp add: owners_sum sum_list_remove_nth)

lemma watchers_remove:
  "i < length ws \<Longrightarrow> watchers b (remove_nth i ws) = watchers b ws - watches b (ws ! i)"
  by (simp add: watchers_sum sum_list_remove_nth)

lemma owners_two_le:
  assumes "i < length ss" and "j < length ss" and "i \<noteq> j"
  shows "owns b (ss ! i) + owns b (ss ! j) \<le> owners b ss"
proof -
  have "owns b (ss[i := x] ! j) \<le> owners b (ss[i := x])" for x
    using owners_nth_le [of j "ss[i := x]" b] assms(2) by simp
  from this [of "\<lparr>block = None, observer = None\<rparr>"]
  show ?thesis
    using assms owners_nth_le [of i ss b] by (simp add: owners_update owns_def)
qed

lemma watchers_two_le:
  assumes "i < length ws" and "j < length ws" and "i \<noteq> j"
  shows "watches b (ws ! i) + watches b (ws ! j) \<le> watchers b ws"
proof -
  have "watches b (ws[i := x] ! j) \<le> watchers b (ws[i := x])" for x
    using watchers_nth_le [of j "ws[i := x]" b] assms(2) by simp
  from this [of "\<lparr>wblock = None, wobserver = None\<rparr>"]
  show ?thesis
    using assms watchers_nth_le [of i ws b] by (simp add: watchers_update watches_def)
qed

lemma owners_le_length: "owners b ss \<le> length ss"
  by (simp add: owners_def)

lemma watchers_le_length: "watchers b ws \<le> length ws"
  by (simp add: watchers_def)

lemma length_remove_nth: "i < length xs \<Longrightarrow> length (remove_nth i xs) = length xs - 1"
  by (simp add: remove_nth_def)

lemma list_all_update: "list_all P xs \<Longrightarrow> P x \<Longrightarrow> list_all P (xs[i := x])"
  by (auto simp: list_all_iff dest: set_update_subset_insert [THEN subsetD])

lemma list_all_remove_nth: "list_all P xs \<Longrightarrow> list_all P (remove_nth i xs)"
  by (auto simp: list_all_iff remove_nth_def dest: in_set_takeD in_set_dropD)

lemma list_all_nth: "list_all P xs \<Longrightarrow> i < length xs \<Longrightarrow> P (xs ! i)"
  by (simp add: list_all_length)

lemma inv_heap:
  "config_inv b p e st g \<Longrightarrow>
   heap_state b p e st (owners b (strongs g)) (watchers b (weaks g)) (mem g)"
  by (simp add: config_inv_def)

lemma inv_strong: "config_inv b p e st g \<Longrightarrow> i < length (strongs g) \<Longrightarrow> strong_ok b (strongs g ! i)"
  by (simp add: config_inv_def list_all_nth)

lemma inv_weak: "config_inv b p e st g \<Longrightarrow> i < length (weaks g) \<Longrightarrow> weak_ok b (weaks g ! i)"
  by (simp add: config_inv_def list_all_nth)

lemma inv_bound:
  "length (strongs g) + length (weaks g) + 5 < (2::nat) ^ 64 \<Longrightarrow>
   owners b (strongs g) + watchers b (weaks g) + 4 < 2 ^ 64"
  using owners_le_length [of b "strongs g"] watchers_le_length [of b "weaks g"] by simp

lemma step_post_refl: "config_inv b p e st g \<Longrightarrow> step_post b p e st g g"
  by (simp add: step_post_def)

lemma step_Copy:
  assumes "config_inv b p e st g"
  shows "returns (step p (Copy i) g) (step_post b p e st g)"
proof (cases "i < length (strongs g)")
  case False
  then show ?thesis using assms by (simp add: step_post_refl)
next
  case True
  obtain h' s' where c: "SharedPtr_copy (strongs g ! i) (mem g) = Inr (h', s')"
    and h': "heap_state b p e st (owners b (strongs g) + owns b (strongs g ! i))
               (watchers b (weaks g)) h'"
    and s': "s' = \<lparr>block = block (strongs g ! i), observer = observer (strongs g ! i)\<rparr>"
    using returns_pairD [OF sp_copy [OF inv_heap [OF assms] inv_strong [OF assms True]
            owners_nth_le [OF True]]] by blast
  have "owns b s' = owns b (strongs g ! i)" "strong_ok b s'"
    using inv_strong [OF assms True] s' by (simp_all add: owns_def strong_ok_def)
  then show ?thesis
    using True c h' assms by (simp add: step_post_def config_inv_def owners_append)
qed

lemma step_Alias:
  assumes "config_inv b p e st g"
  shows "returns (step p (Alias i q) g) (step_post b p e st g)"
proof (cases "i < length (strongs g)")
  case False
  then show ?thesis using assms by (simp add: step_post_refl)
next
  case True
  obtain h' s' where c: "SharedPtr_alias (strongs g ! i) q (mem g) = Inr (h', s')"
    and h': "heap_state b p e st (owners b (strongs g) + owns b (strongs g ! i))
               (watchers b (weaks g)) h'"
    and s': "s' = \<lparr>block = block (strongs g ! i), observer = q\<rparr>"
    using returns_pairD [OF sp_alias [OF inv_heap [OF assms] inv_strong [OF assms True]
            owners_nth_le [OF True]]] by blast
  have "owns b s' = owns b (strongs g ! i)" "strong_ok b s'"
    using inv_strong [OF assms True] s' by (simp_all add: owns_def strong_ok_def)
  then show ?thesis
    using True c h' assms by (simp add: step_post_def config_inv_def owners_append)
qed

lemma step_Move:
  assumes "config_inv b p e st g"
  shows "returns (step p (Move i) g) (step_post b p e st g)"
proof (cases "i < length (strongs g)")
  case False
  then show ?thesis using assms by (simp add: step_post_refl)
next
  case True
  let ?s = "strongs g ! i"
  have ok: "strong_ok b \<lparr>block = block ?s, observer = observer ?s\<rparr>"
      "strong_ok b (?s\<lparr>block := None, observer := None\<rparr>)"
    using inv_strong [OF assms True] by (simp_all add: strong_ok_def)
  have w: "owns b \<lparr>block = block ?s, observer = observer ?s\<rparr> = owns b ?s"
      "owns b (?s\<lparr>block := None, observer := None\<rparr>) = 0"
    by (simp_all add: owns_def)
  show ?thesis
    using True assms ok w owners_nth_le [OF True, of b]
    by (simp add: step_post_def config_inv_def SharedPtr_move_def owners_append owners_update
          list_all_update)
qed

lemma step_Promote:
  assumes "config_inv b p e st g" and "length (strongs g) + length (weaks g) + 5 < 2 ^ 64"
  shows "returns (step p (Promote i) g) (step_post b p e st g)"
proof (cases "i < length (weaks g)")
  case False
  then show ?thesis using assms by (simp add: step_post_refl)
next
  case True
  let ?w = "weaks g ! i"
  note hs = inv_heap [OF assms(1)]
  note okw = inv_weak [OF assms(1) True]
  have bd: "owners b (strongs g) + watchers b (weaks g) + 2 < 2 ^ 64"
    using inv_bound [OF assms(2), of b] by simp
  have pos: "wblock ?w = Some b \<longrightarrow> 0 < owners b (strongs g) + watchers b (weaks g)"
    using watchers_nth_le [OF True, of b] by (auto simp: watches_def)
  show ?thesis
  proof (cases "wblock ?w = Some b \<and> 0 < owners b (strongs g)")
    case False
    then have "SharedPtr_from_weak ?w (mem g) = Inl BadWeakPtr"
      using promote_expired [OF hs okw pos bd] okw by (auto simp: weak_ok_def)
    then show ?thesis using True assms(1) by (simp add: step_post_refl)
  next
    case live: True
    obtain h' s' where c: "SharedPtr_from_weak ?w (mem g) = Inr (h', s')"
      and h': "heap_state b p e st (Suc (owners b (strongs g))) (watchers b (weaks g)) h'"
      and s': "s' = \<lparr>block = Some b, observer = wobserver ?w\<rparr>"
      using returns_pairD [OF promote_live [OF hs conjunct1 [OF live] conjunct2 [OF live] bd]]
      by blast
    have "owns b s' = 1" "strong_ok b s'"
      using s' by (simp_all add: owns_def strong_ok_def)
    then show ?thesis
      using True c h' assms(1) by (simp add: step_post_def config_inv_def owners_append)
  qed
qed

lemma step_LockOp:
  assumes "config_inv b p e st g" and "length (strongs g) + length (weaks g) + 5 < 2 ^ 64"
  shows "returns (step p (LockOp i) g) (step_post b p e st g)"
proof (cases "i < length (weaks g)")
  case False
  then show ?thesis using assms by (simp add: step_post_refl)
next
  case True
  let ?w = "weaks g ! i"
  note hs = inv_heap [OF assms(1)]
  note okw = inv_weak [OF assms(1) True]
  have bd: "owners b (strongs g) + watchers b (weaks g) + 2 < 2 ^ 64"
    using inv_bound [OF assms(2), of b] by simp
  have pos: "wblock ?w = Some b \<longrightarrow> 0 < owners b (strongs g) + watchers b (weaks g)"
    using watchers_nth_le [OF True, of b] by (auto simp: watches_def)
  show ?thesis
  proof (cases "wblock ?w = Some b \<and> 0 < owners b (strongs g)")
    case False
    then have "Lock ?w (mem g) = Inr (mem g, SharedPtr_default)"
      using lock_expired [OF hs okw pos bd] okw by (auto simp: weak_ok_def)
    moreover have "owns b SharedPtr_default = 0" "strong_ok b SharedPtr_default"
      by (simp_all add: owns_def strong_ok_def SharedPtr_default_def)
    ultimately show ?thesis
      using True assms(1) by (simp add: step_post_def config_inv_def owners_append)
  next
    case live: True
    obtain h' s' where c: "Lock ?w (mem g) = Inr (h', s')"
      and h': "heap_state b p e st (Suc (owners b (strongs g))) (watchers b (weaks g)) h'"
      and s': "s' = \<lparr>block = Some b, observer = wobserver ?w\<rparr>"
      using returns_pairD [OF lock_live [OF hs conjunct1 [OF live] conjunct2 [OF live] bd]]
      by blast
    have "owns b s' = 1" "strong_ok b s'"
      using s' by (simp_all add: owns_def strong_ok_def)
    then show ?thesis
      using True c h' assms(1) by (simp add: step_post_def config_inv_def owners_append)
  qed
qed

lemma step_Assign:
  assumes "config_inv b p e st g" and "keeps st p"
    and "length (strongs g) + length (weaks g) + 5 < 2 ^ 64"
  shows "returns (step p (Assign i j) g) (step_post b p e st g)"
proof (cases "i < length (strongs g) \<and> j < length (strongs g)")
  case False
  show ?thesis using assms(1) by (simp add: False step_post_refl)
next
  case True
  then have i: "i < length (strongs g)" and j: "j < length (strongs g)" by simp_all
  obtain h' this' where c: "SharedPtr_copy_assign (strongs g ! i) (strongs g ! j) (mem g) = Inr (h', this')"
    and h': "heap_state b p e st
               (owners b (strongs g) - owns b (strongs g ! i) + owns b (strongs g ! j))
               (watchers b (weaks g)) h'"
    and t: "this' = (strongs g ! i)\<lparr>block := block (strongs g ! j),
                                     observer := observer (strongs g ! j)\<rparr>"
    using returns_pairD [OF sp_copy_assign [OF inv_heap [OF assms(1)] inv_strong [OF assms(1) i]
            inv_strong [OF assms(1) j] owners_nth_le [OF i] owners_nth_le [OF j] assms(2)
            inv_bound [OF assms(3)]]] by blast
  have "owns b this' = owns b (strongs g ! j)" "strong_ok b this'"
    using inv_strong [OF assms(1) j] t by (simp_all add: owns_def strong_ok_def)
  then show ?thesis
    using i j c h' assms(1)
    by (simp add: step_post_def config_inv_def owners_update list_all_update)
qed

lemma step_MoveAssign:
  assumes "config_inv b p e st g" and "keeps st p"
    and "length (strongs g) + length (weaks g) + 5 < 2 ^ 64"
  shows "returns (step p (MoveAssign i j) g) (step_post b p e st g)"
proof (cases "i < length (strongs g) \<and> j < length (strongs g)")
  case False
  show ?thesis using assms(1) by (simp add: False step_post_refl)
next
  case True
  then have i: "i < length (strongs g)" and j: "j < length (strongs g)" by simp_all
  let ?src = "strongs g ! j"
  define this where "this = (strongs g)[j := snd (SharedPtr_move ?src)] ! i"
  have this_eq: "this = (if i = j then ?src\<lparr>block := None, observer := None\<rparr> else strongs g ! i)"
    using i j by (simp add: this_def SharedPtr_move_def)
  have ok: "strong_ok b this"
    using inv_strong [OF assms(1) i] by (simp add: this_eq strong_ok_def)
  have le: "owns b this + owns b ?src \<le> owners b (strongs g)"
  proof (cases "i = j")
    case True
    then have "owns b this = 0" by (simp add: this_eq owns_def)
    then show ?thesis using owners_nth_le [OF j, of b] by simp
  next
    case False
    then show ?thesis using owners_two_le [OF i j False, of b] by (simp add: this_eq)
  qed
  obtain h' this' src' where c: "SharedPtr_move_assign this ?src (mem g) = Inr (h', this', src')"
    and h': "heap_state b p e st (owners b (strongs g) - owns b this) (watchers b (weaks g)) h'"
    and t: "this' = this\<lparr>block := block ?src, observer := observer ?src\<rparr>"
    and s: "src' = ?src\<lparr>block := None, observer := None\<rparr>"
    using returns_pairD [OF sp_move_assign [OF inv_heap [OF assms(1)] ok
            inv_strong [OF assms(1) j] le assms(2) inv_bound [OF assms(3)]]]
    by (auto dest!: returns_pairD simp: case_prod_unfold)
  have w: "owns b this' = owns b ?src" "owns b src' = 0"
    and oks: "strong_ok b this'" "strong_ok b src'"
    using inv_strong [OF assms(1) j] t s by (simp_all add: owns_def strong_ok_def)
  have "owners b ((strongs g)[j := src', i := this'])
          = owners b (strongs g) - owns b this"
  proof (cases "i = j")
    case True
    then show ?thesis
      using j w owners_nth_le [OF j, of b] by (simp add: owners_update this_eq owns_def)
  next
    case False
    then show ?thesis
      using i j w owners_two_le [OF i j False, of b]
      by (simp add: owners_update this_eq)
  qed
  then show ?thesis
    using i j c h' oks assms(1) this_def
    by (simp add: step_post_def config_inv_def list_all_update)
qed

lemma step_ResetOp:
  assumes "config_inv b p e st g" and "keeps st p"
    and "length (strongs g) + length (weaks g) + 5 < 2 ^ 64"
  shows "returns (step p (ResetOp i) g) (step_post b p e st g)"
proof (cases "i < length (strongs g)")
  case False
  then show ?thesis using assms by (simp add: step_post_refl)
next
  case True
  obtain h' this' where c: "SharedPtr_Reset (strongs g ! i) (mem g) = Inr (h', this')"
    and h': "heap_state b p e st (owners b (strongs g) - owns b (strongs g ! i))
               (watchers b (weaks g)) h'"
    and t: "this' = (strongs g ! i)\<lparr>block := None, observer := None\<rparr>"
    using returns_pairD [OF sp_Reset [OF inv_heap [OF assms(1)] inv_strong [OF assms(1) True]
            owners_nth_le [OF True] assms(2) inv_bound [OF assms(3)]]] by blast
  have "owns b this' = 0" "strong_ok b this'"
    using t by (simp_all add: owns_def strong_ok_def)
  then show ?thesis
    using True c h' assms(1)
    by (simp add: step_post_def config_inv_def owners_update list_all_update)
qed

lemma step_Destroy:
  assumes "config_inv b p e st g" and "keeps st p"
    and "length (strongs g) + length (weaks g) + 5 < 2 ^ 64"
  shows "returns (step p (Destroy i) g) (step_post b p e st g)"
proof (cases "i < length (strongs g)")
  case False
  then show ?thesis using assms by (simp add: step_post_refl)
next
  case True
  have bd: "owners b (strongs g) + watchers b (weaks g) + 2 < 2 ^ 64"
    using inv_bound [OF assms(3), of b] by simp
  obtain h' where c: "SharedPtr_dtor (strongs g ! i) (mem g) = Inr h'"
    and h': "heap_state b p e st (owners b (strongs g) - owns b (strongs g ! i))
               (watchers b (weaks g)) h'"
    using returnsD [OF sp_dtor [OF inv_heap [OF assms(1)] inv_strong [OF assms(1) True]
            owners_nth_le [OF True] assms(2) bd]] by blast
  show ?thesis
    using True c h' assms(1)
    by (simp add: step_post_def config_inv_def owners_remove list_all_remove_nth
          length_remove_nth)
qed

lemma step_SwapOp:
  assumes "config_inv b p e st g"
  shows "returns (step p (SwapOp i j) g) (step_post b p e st g)"
proof (cases "i < length (strongs g) \<and> j < length (strongs g)")
  case False
  show ?thesis using assms(1) by (simp add: False step_post_refl)
next
  case True
  then have i: "i < length (strongs g)" and j: "j < length (strongs g)" by simp_all
  let ?a = "strongs g ! i" and ?c = "strongs g ! j"
  let ?a' = "?a\<lparr>block := block ?c, observer := observer ?c\<rparr>"
  let ?c' = "?c\<lparr>block := block ?a, observer := observer ?a\<rparr>"
  have w: "owns b ?a' = owns b ?c" "owns b ?c' = owns b ?a"
    and oks: "strong_ok b ?a'" "strong_ok b ?c'"
    using inv_strong [OF assms i] inv_strong [OF assms j] by (simp_all add: owns_def strong_ok_def)
  have "owners b ((strongs g)[i := ?a', j := ?c']) = owners b (strongs g)"
  proof (cases "i = j")
    case True
    then show ?thesis
      using j w owners_nth_le [OF j, of b] by (simp add: owners_update)
  next
    case False
    then show ?thesis
      using i j w owners_two_le [OF i j False, of b]
      by (simp add: owners_update)
  qed
  then show ?thesis
    using i j oks assms
    by (simp add: step_post_def config_inv_def list_all_update SharedPtr_Swap_def)
qed

lemma step_Demote:
  assumes "config_inv b p e st g"
  shows "returns (step p (Demote i) g) (step_post b p e st g)"
proof (cases "i < length (strongs g)")
  case False
  then show ?thesis using assms by (simp add: step_post_refl)
next
  case True
  obtain h' w' where c: "WeakPtr_from_shared (strongs g ! i) (mem g) = Inr (h', w')"
    and h': "heap_state b p e st (owners b (strongs g))
               (watchers b (weaks g) + owns b (strongs g ! i)) h'"
    and w': "w' = \<lparr>wblock = block (strongs g ! i), wobserver = observer (strongs g ! i)\<rparr>"
    using returns_pairD [OF wp_from_shared [OF inv_heap [OF assms] inv_strong [OF assms True]
            owners_nth_le [OF True]]] by blast
  have "watches b w' = owns b (strongs g ! i)" "weak_ok b w'"
    using inv_strong [OF assms True] w'
    by (simp_all add: owns_def watches_def strong_ok_def weak_ok_def)
  then show ?thesis
    using True c h' assms by (simp add: step_post_def config_inv_def watchers_append)
qed

lemma step_WCopy:
  assumes "config_inv b p e st g"
  shows "returns (step p (WCopy i) g) (step_post b p e st g)"
proof (cases "i < length (weaks g)")
  case False
  then show ?thesis using assms by (simp add: step_post_refl)
next
  case True
  have pos: "wblock (weaks g ! i) = Some b \<longrightarrow> 0 < owners b (strongs g) + watchers b (weaks g)"
    using watchers_nth_le [OF True, of b] by (auto simp: watches_def)
  obtain h' w' where c: "WeakPtr_copy (weaks g ! i) (mem g) = Inr (h', w')"
    and h': "heap_state b p e st (owners b (strongs g))
               (watchers b (weaks g) + watches b (weaks g ! i)) h'"
    and w': "w' = \<lparr>wblock = wblock (weaks g ! i), wobserver = wobserver (weaks g ! i)\<rparr>"
    using returns_pairD [OF wp_copy [OF inv_heap [OF assms] inv_weak [OF assms True] pos]]
    by blast
  have "watches b w' = watches b (weaks g ! i)" "weak_ok b w'"
    using inv_weak [OF assms True] w' by (simp_all add: watches_def weak_ok_def)
  then show ?thesis
    using True c h' assms by (simp add: step_post_def config_inv_def watchers_append)
qed

lemma step_WMove:
  assumes "config_inv b p e st g"
  shows "returns (step p (WMove i) g) (step_post b p e st g)"
proof (cases "i < length (weaks g)")
  case False
  then show ?thesis using assms by (simp add: step_post_refl)
next
  case True
  let ?s = "weaks g ! i"
  have ok: "weak_ok b \<lparr>wblock = wblock ?s, wobserver = wobserver ?s\<rparr>"
      "weak_ok b (?s\<lparr>wblock := None, wobserver := None\<rparr>)"
    using inv_weak [OF assms True] by (simp_all add: weak_ok_def)
  have w: "watches b \<lparr>wblock = wblock ?s, wobserver = wobserver ?s\<rparr> = watches b ?s"
      "watches b (?s\<lparr>wblock := None, wobserver := None\<rparr>) = 0"
    by (simp_all add: watches_def)
  show ?thesis
    using True assms ok w watchers_nth_le [OF True, of b]
    by (simp add: step_post_def config_inv_def WeakPtr_move_def watchers_append watchers_update
          list_all_update)
qed

lemma step_WAssign:
  assumes "config_inv b p e st g"
    and "length (strongs g) + length (weaks g) + 5 < 2 ^ 64"
  shows "returns (step p (WAssign i j) g) (step_post b p e st g)"
proof (cases "i < length (weaks g) \<and> j < length (weaks g)")
  case False
  show ?thesis using assms(1) by (simp add: False step_post_refl)
next
  case True
  then have i: "i < length (weaks g)" and j: "j < length (weaks g)" by simp_all
  obtain h' this' where c: "WeakPtr_copy_assign (weaks g ! i) (weaks g ! j) (mem g) = Inr (h', this')"
    and h': "heap_state b p e st (owners b (strongs g))
               (watchers b (weaks g) - watches b (weaks g ! i) + watches b (weaks g ! j)) h'"
    and t: "this' = (weaks g ! i)\<lparr>wblock := wblock (weaks g ! j),
                                   wobserver := wobserver (weaks g ! j)\<rparr>"
    using returns_pairD [OF wp_copy_assign [OF inv_heap [OF assms(1)] inv_weak [OF assms(1) i]
            inv_weak [OF assms(1) j] watchers_nth_le [OF i] watchers_nth_le [OF j]
            inv_bound [OF assms(2)]]] by blast
  have "watches b this' = watches b (weaks g ! j)" "weak_ok b this'"
    using inv_weak [OF assms(1) j] t by (simp_all add: watches_def weak_ok_def)
  then show ?thesis
    using i j c h' assms(1)
    by (simp add: step_post_def config_inv_def watchers_update list_all_update)
qed

lemma step_WMoveAssign:
  assumes "config_inv b p e st g"
    and "length (strongs g) + length (weaks g) + 5 < 2 ^ 64"
  shows "returns (step p (WMoveAssign i j) g) (step_post b p e st g)"
proof (cases "i < length (weaks g) \<and> j < length (weaks g)")
  case False
  show ?thesis using assms(1) by (simp add: False step_post_refl)
next
  case True
  then have i: "i < length (weaks g)" and j: "j < length (weaks g)" by simp_all
  let ?src = "weaks g ! j"
  define this where "this = (weaks g)[j := snd (WeakPtr_move ?src)] ! i"
  have this_eq: "this = (if i = j then ?src\<lparr>wblock := None, wobserver := None\<rparr> else weaks g ! i)"
    using i j by (simp add: this_def WeakPtr_move_def)
  have ok: "weak_ok b this"
    using inv_weak [OF assms(1) i] by (simp add: this_eq weak_ok_def)
  have le: "watches b this + watches b ?src \<le> watchers b (weaks g)"
  proof (cases "i = j")
    case True
    then have "watches b this = 0" by (simp add: this_eq watches_def)
    then show ?thesis using watchers_nth_le [OF j, of b] by simp
  next
    case False
    then show ?thesis using watchers_two_le [OF i j False, of b] by (simp add: this_eq)
  qed
  obtain h' this' src' where c: "WeakPtr_move_assign this ?src (mem g) = Inr (h', this', src')"
    and h': "heap_state b p e st (owners b (strongs g)) (watchers b (weaks g) - watches b this) h'"
    and t: "this' = this\<lparr>wblock := wblock ?src, wobserver := wobserver ?src\<rparr>"
    and s: "src' = ?src\<lparr>wblock := None, wobserver := None\<rparr>"
    using returns_pairD [OF wp_move_assign [OF inv_heap [OF assms(1)] ok
            inv_weak [OF assms(1) j] le inv_bound [OF assms(2)]]]
    by (auto dest!: returns_pairD simp: case_prod_unfold)
  have w: "watches b this' = watches b ?src" "watches b src' = 0"
    and oks: "weak_ok b this'" "weak_ok b src'"
    using inv_weak [OF assms(1) j] t s by (simp_all add: watches_def weak_ok_def)
  have "watchers b ((weaks g)[j := src', i := this'])
          = watchers b (weaks g) - watches b this"
  proof (cases "i = j")
    case True
    then show ?thesis
      using j w watchers_nth_le [OF j, of b] by (simp add: watchers_update this_eq watches_def)
  next
    case False
    then show ?thesis
      using i j w watchers_two_le [OF i j False, of b]
      by (simp add: watchers_update this_eq)
  qed
  then show ?thesis
    using i j c h' oks assms(1) this_def
    by (simp add: step_post_def config_inv_def list_all_update)
qed

lemma step_WReset:
  assumes "config_inv b p e st g"
    and "length (strongs g) + length (weaks g) + 5 < 2 ^ 64"
  shows "returns (step p (WReset i) g) (step_post b p e st g)"
proof (cases "i < length (weaks g)")
  case False
  then show ?thesis using assms by (simp add: step_post_refl)
next
  case True
  obtain h' this' where c: "WeakPtr_Reset (weaks g ! i) (mem g) = Inr (h', this')"
    and h': "heap_state b p e st (owners b (strongs g))
               (watchers b (weaks g) - watches b (weaks g ! i)) h'"
    and t: "this' = (weaks g ! i)\<lparr>wblock := None, wobserver := None\<rparr>"
    using returns_pairD [OF wp_Reset [OF inv_heap [OF assms(1)] inv_weak [OF assms(1) True]
            watchers_nth_le [OF True] inv_bound [OF assms(2)]]] by blast
  have "watches b this' = 0" "weak_ok b this'"
    using t by (simp_all add: watches_def weak_ok_def)
  then show ?thesis
    using True c h' assms(1)
    by (simp add: step_post_def config_inv_def watchers_update list_all_update)
qed

lemma step_WDestroy:
  assumes "config_inv b p e st g"
    and "length (strongs g) + length (weaks g) + 5 < 2 ^ 64"
  shows "returns (step p (WDestroy i) g) (step_post b p e st g)"
proof (cases "i < length (weaks g)")
  case False
  then show ?thesis using assms by (simp add: step_post_refl)
next
  case True
  have bd: "owners b (strongs g) + watchers b (weaks g) + 2 < 2 ^ 64"
    using inv_bound [OF assms(2), of b] by simp
  obtain h' where c: "WeakPtr_dtor (weaks g ! i) (mem g) = Inr h'"
    and h': "heap_state b p e st (owners b (strongs g))
               (watchers b (weaks g) - watches b (weaks g ! i)) h'"
    using returnsD [OF wp_dtor [OF inv_heap [OF assms(1)] inv_weak [OF assms(1) True]
            watchers_nth_le [OF True] bd]] by blast
  show ?thesis
    using True c h' assms(1)
    by (simp add: step_post_def config_inv_def watchers_remove list_all_remove_nth
          length_remove_nth)
qed

lemma step_WSwap:
  assumes "config_inv b p e st g"
  shows "returns (step p (WSwap i j) g) (step_post b p e st g)"
proof (cases "i < length (weaks g) \<and> j < length (weaks g)")
  case False
  show ?thesis using assms by (simp add: False step_post_refl)
next
  case True
  then have i: "i < length (weaks g)" and j: "j < length (weaks g)" by simp_all
  let ?a = "weaks g ! i" and ?c = "weaks g ! j"
  let ?a' = "?a\<lparr>wblock := wblock ?c, wobserver := wobserver ?c\<rparr>"
  let ?c' = "?c\<lparr>wblock := wblock ?a, wobserver := wobserver ?a\<rparr>"
  have w: "watches b ?a' = watches b ?c" "watches b ?c' = watches b ?a"
    and oks: "weak_ok b ?a'" "weak_ok b ?c'"
    using inv_weak [OF assms i] inv_weak [OF assms j] by (simp_all add: watches_def weak_ok_def)
  have "watchers b ((weaks g)[i := ?a', j := ?c']) = watchers b (weaks g)"
  proof (cases "i = j")
    case True
    then show ?thesis
      using j w watchers_nth_le [OF j, of b] by (simp add: watchers_update)
  next
    case False
    then show ?thesis
      using i j w watchers_two_le [OF i j False, of b]
      by (simp add: watchers_update)
  qed
  then show ?thesis
    using i j oks assms
    by (simp add: step_post_def config_inv_def list_all_update WeakPtr_Swap_def)
qed

lemma payload_of_state:
  assumes "heap_state b p e st ns nw h"
  shows "objects h p = (if 0 < ns then Some (live_payload e b p) else None)"
  using assms by (auto simp: heap_state_def split: if_splits)

lemma step_SharedFromThisOp:
  assumes "config_inv b p e st g" and "length (strongs g) + length (weaks g) + 5 < 2 ^ 64"
  shows "returns (step p SharedFromThisOp g) (step_post b p e st g)"
proof (cases "0 < owners b (strongs g) \<and> e")
  case False
  then have "objects (mem g) p = None \<or> objects (mem g) p = Some Plain"
    using payload_of_state [OF inv_heap [OF assms(1)]] by (auto simp: live_payload_def)
  then show ?thesis using assms(1) by (auto simp: step_post_refl)
next
  case True
  let ?w = "\<lparr>wblock = Some b, wobserver = Some p\<rparr>"
  have obj: "objects (mem g) p = Some (ESFT ?w)"
    using payload_of_state [OF inv_heap [OF assms(1)]] True by (simp add: live_payload_def)
  have bd: "owners b (strongs g) + watchers b (weaks g) + 2 < 2 ^ 64"
    using inv_bound [OF assms(2), of b] by simp
  obtain h' s' where c: "SharedPtr_from_weak ?w (mem g) = Inr (h', s')"
    and h': "heap_state b p e st (Suc (owners b (strongs g))) (watchers b (weaks g)) h'"
    and s': "s' = \<lparr>block = Some b, observer = wobserver ?w\<rparr>"
    using returns_pairD [OF promote_live [OF inv_heap [OF assms(1)] _ conjunct1 [OF True] bd,
            of ?w]] by auto
  have "owns b s' = 1" "strong_ok b s'"
    using s' by (simp_all add: owns_def strong_ok_def)
  then show ?thesis
    using obj c h' assms(1)
    by (simp add: step_post_def config_inv_def owners_append SharedFromThis_def)
qed

lemma step_WeakFromThisOp:
  assumes "config_inv b p e st g"
  shows "returns (step p WeakFromThisOp g) (step_post b p e st g)"
proof (cases "0 < owners b (strongs g) \<and> e")
  case False
  then have "objects (mem g) p = None \<or> objects (mem g) p = Some Plain"
    using payload_of_state [OF inv_heap [OF assms(1)]] by (auto simp: live_payload_def)
  then show ?thesis using assms(1) by (auto simp: step_post_refl)
next
  case True
  let ?w = "\<lparr>wblock = Some b, wobserver = Some p\<rparr>"
  have obj: "objects (mem g) p = Some (ESFT ?w)"
    using payload_of_state [OF inv_heap [OF assms(1)]] True by (simp add: live_payload_def)
  have pos: "wblock ?w = Some b \<longrightarrow> 0 < owners b (strongs g) + watchers b (weaks g)"
    using True by simp
  have ok: "weak_ok b ?w" by (simp add: weak_ok_def)
  obtain h' w' where c: "WeakPtr_copy ?w (mem g) = Inr (h', w')"
    and h': "heap_state b p e st (owners b (strongs g)) (watchers b (weaks g) + watches b ?w) h'"
    and w': "w' = \<lparr>wblock = wblock ?w, wobserver = wobserver ?w\<rparr>"
    using returns_pairD [OF wp_copy [OF inv_heap [OF assms(1)] ok pos]] by blast
  have "watches b w' = watches b ?w" "weak_ok b w'"
    using w' by (simp_all add: watches_def weak_ok_def)
  then show ?thesis
    using obj c h' assms(1)
    by (simp add: step_post_def config_inv_def watchers_append WeakFromThis_def)
qed

lemma step_inv:
  assumes "config_inv b p e st g" and "keeps st p"
    and "length (strongs g) + length (weaks g) + 5 < 2 ^ 64"
  shows "returns (step p x g) (step_post b p e st g)"
proof (cases x)
  case (Copy i) then show ?thesis using step_Copy [OF assms(1)] by simp
next
  case (Move i) then show ?thesis using step_Move [OF assms(1)] by simp
next
  case (Alias i q) then show ?thesis using step_Alias [OF assms(1)] by simp
next
  case (Promote i) then show ?thesis using step_Promote [OF assms(1,3)] by simp
next
  case (LockOp i) then show ?thesis using step_LockOp [OF assms(1,3)] by simp
next
  case (Assign i j) then show ?thesis using step_Assign [OF assms] by simp
next
  case (MoveAssign i j) then show ?thesis using step_MoveAssign [OF assms] by simp
next
  case (ResetOp i) then show ?thesis using step_ResetOp [OF assms] by simp
next
  case (SwapOp i j) then show ?thesis using step_SwapOp [OF assms(1)] by simp
next
  case (Destroy i) then show ?thesis using step_Destroy [OF assms] by simp
next
  case (Demote i) then show ?thesis using step_Demote [OF assms(1)] by simp
next
  case (WCopy i) then show ?thesis using step_WCopy [OF assms(1)] by simp
next
  case (WMove i) then show ?thesis using step_WMove [OF assms(1)] by simp
next
  case (WAssign i j) then show ?thesis using step_WAssign [OF assms(1,3)] by simp
next
  case (WMoveAssign i j) then show ?thesis using step_WMoveAssign [OF assms(1,3)] by simp
next
  case (WReset i) then show ?thesis using step_WReset [OF assms(1,3)] by simp
next
  case (WSwap i j) then show ?thesis using step_WSwap [OF assms(1)] by simp
next
  case (WDestroy i) then show ?thesis using step_WDestroy [OF assms(1,3)] by simp
next
  case SharedFromThisOp then show ?thesis using step_SharedFromThisOp [OF assms(1,3)] by simp
next
  case WeakFromThisOp then show ?thesis using step_WeakFromThisOp [OF assms(1)] by simp
qed

lemma run_inv:
  assumes "config_inv b p e st g" and "keeps st p"
    and "length (strongs g) + length (weaks g) + length xs + 5 < 2 ^ 64"
  shows "returns (run p xs g) (\<lambda>g'. config_inv b p e st g' \<and>
           length (strongs g') + length (weaks g') \<le> length (strongs g) + length (weaks g) + length xs)"
  using assms
proof (induction xs arbitrary: g)
  case Nil
  then show ?case by simp
next
  case (Cons x xs)
  have "length (strongs g) + length (weaks g) + 5 < (2::nat) ^ 64"
    using Cons.prems(3) by simp
  from returnsD [OF step_inv [OF Cons.prems(1,2) this, of x]]
  obtain g1 where s: "step p x g = Inr g1" and p1: "step_post b p e st g g1"
    by blast
  have inv1: "config_inv b p e st g1"
    and len1: "length (strongs g1) + length (weaks g1) \<le> length (strongs g) + length (weaks g) + 1"
    using p1 by (simp_all add: step_post_def)
  have "length (strongs g1) + length (weaks g1) + length xs + 5 < (2::nat) ^ 64"
    using len1 Cons.prems(3) by simp
  from Cons.IH [OF inv1 Cons.prems(2) this]
  show ?case
    using len1 by (auto simp: s elim!: returns_mono)
qed

lemma keeps_origin: "keeps (block_storage origin h) (payload_at origin h)"
  by (cases origin) (simp_all add: keeps_def block_storage_def payload_at_def)

lemma start_raw_inv:
  assumes "objects h p = Some (fresh_payload e)" and "trace h = []"
  shows "returns (start_raw e p h) (\<lambda>g.
           config_inv (brk h) p e (WithPtr (Some p)) g \<and>
           strongs g = [\<lparr>block = Some (brk h), observer = Some p\<rparr>] \<and> weaks g = [])"
  using assms
  by (cases e)
     (simp_all add: start_raw_def SharedPtr_from_raw_def Let_def IncrementRefCounter_def
       install_weak_this_def fresh_payload_def WeakPtr_from_shared_def WeakPtr_assign_def
       WeakPtr_default_def IncrementWeakRefCounter_def WeakPtr_dtor_def
       DecrementWeakRefCounter_def config_inv_def heap_state_def owners_def watchers_def
       strong_ok_def cnt_def embedded_def live_payload_def)

lemma start_make_inv:
  assumes "trace h = []"
  shows "returns (start_make e h) (\<lambda>g.
           config_inv (brk h) (brk h + 1) e (Owning (brk h + 1)) g \<and>
           strongs g = [\<lparr>block = Some (brk h), observer = Some (brk h + 1)\<rparr>] \<and> weaks g = [])"
  using assms
  by (cases e)
     (simp_all add: start_make_def MakeShared_def Let_def IncrementRefCounter_def
       install_weak_this_def fresh_payload_def WeakPtr_from_shared_def WeakPtr_assign_def
       WeakPtr_default_def IncrementWeakRefCounter_def WeakPtr_dtor_def
       DecrementWeakRefCounter_def config_inv_def heap_state_def owners_def watchers_def
       strong_ok_def cnt_def embedded_def live_payload_def)

lemma start_inv:
  assumes "well_started e origin h"
  shows "returns (start e origin h) (\<lambda>g.
           config_inv (brk h) (payload_at origin h) e (block_storage origin h) g \<and>
           strongs g = [\<lparr>block = Some (brk h), observer = Some (payload_at origin h)\<rparr>] \<and>
           weaks g = [])"
proof (cases origin)
  case (FromRaw p)
  then show ?thesis
    using assms start_raw_inv [of h p e]
    by (simp add: well_started_def start_def payload_at_def block_storage_def)
next
  case FromMake
  then show ?thesis
    using assms start_make_inv [of h e]
    by (simp add: well_started_def start_def payload_at_def block_storage_def)
qed

lemma reach_inv:
  assumes "well_started e origin h" and "length xs + 6 < 2 ^ 64"
  shows "returns (andThen (start e origin h) (run (payload_at origin h) xs))
           (config_inv (brk h) (payload_at origin h) e (block_storage origin h))"
proof -
  obtain g where s: "start e origin h = Inr g"
    and inv: "config_inv (brk h) (payload_at origin h) e (block_storage origin h) g"
    and len: "strongs g = [\<lparr>block = Some (brk h), observer = Some (payload_at origin h)\<rparr>]"
      "weaks g = []"
    using returnsD [OF start_inv [OF assms(1)]] by blast
  have "length (strongs g) + length (weaks g) + length xs + 5 < (2::nat) ^ 64"
    using len assms(2) by simp
  from run_inv [OF inv keeps_origin this]
  show ?thesis by (auto simp: s elim!: returns_mono)
qed

lemma andThen_InrD: "andThen r f = Inr y \<Longrightarrow> \<exists>x. r = Inr x \<and> f x = Inr y"
  by (cases r) simp_all

lemma tr_IncrementRefCounter: "IncrementRefCounter b h = Inr h' \<Longrightarrow> trace h' = trace h"
  by (auto simp: IncrementRefCounter_def split: option.splits)

lemma tr_IncrementWeakRefCounter: "IncrementWeakRefCounter b h = Inr h' \<Longrightarrow> trace h' = trace h"
  by (auto simp: IncrementWeakRefCounter_def split: option.splits)

lemma tr_DecrementWeakRefCounter:
  "DecrementWeakRefCounter b h = Inr h' \<Longrightarrow> prefix (trace h) (trace h')"
  by (auto simp: DecrementWeakRefCounter_def delete_this_def Let_def split: option.splits if_splits)

lemma tr_WeakPtr_dtor: "WeakPtr_dtor w h = Inr h' \<Longrightarrow> prefix (trace h) (trace h')"
  by (auto simp: WeakPtr_dtor_def split: option.splits dest: tr_DecrementWeakRefCounter)

lemma tr_destroy_payload: "destroy_payload p h = Inr h' \<Longrightarrow> prefix (trace h) (trace h')"
  by (auto simp: destroy_payload_def split: option.splits payload.splits
        dest!: andThen_InrD dest: tr_WeakPtr_dtor intro: prefix_order.trans)

lemma tr_release_payload: "release_payload s h = Inr h' \<Longrightarrow> prefix (trace h) (trace h')"
  by (auto simp: release_payload_def split: storage.splits option.splits dest: tr_destroy_payload)

lemma tr_guarded_release: "guarded_release b h = Inr h' \<Longrightarrow> prefix (trace h) (trace h')"
  by (auto simp: guarded_release_def split: option.splits
        dest!: andThen_InrD tr_IncrementWeakRefCounter tr_release_payload)

lemma tr_DecrementRefCounter: "DecrementRefCounter b h = Inr h' \<Longrightarrow> prefix (trace h) (trace h')"
  by (auto simp: DecrementRefCounter_def Let_def delete_this_def
        split: option.splits if_splits
        dest!: andThen_InrD dest!: tr_guarded_release intro: prefix_order.trans)


lemma tr_inc_strong_opt:
  "(case x of None \<Rightarrow> Inr h | Some b \<Rightarrow> IncrementRefCounter b h) = Inr h' \<Longrightarrow> trace h' = trace h"
  by (auto split: option.splits dest: tr_IncrementRefCounter)

lemma tr_inc_weak_opt:
  "(case x of None \<Rightarrow> Inr h | Some b \<Rightarrow> IncrementWeakRefCounter b h) = Inr h' \<Longrightarrow>
   trace h' = trace h"
  by (auto split: option.splits dest: tr_IncrementWeakRefCounter)

lemma tr_SharedPtr_copy: "SharedPtr_copy s h = Inr (h', s') \<Longrightarrow> trace h' = trace h"
  by (auto simp: SharedPtr_copy_def Let_def split: option.splits
        dest!: andThen_InrD tr_IncrementRefCounter)

lemma tr_SharedPtr_alias: "SharedPtr_alias s q h = Inr (h', s') \<Longrightarrow> trace h' = trace h"
  by (auto simp: SharedPtr_alias_def Let_def split: option.splits
        dest!: andThen_InrD tr_IncrementRefCounter)

lemma tr_SharedPtr_from_weak: "SharedPtr_from_weak w h = Inr (h', s') \<Longrightarrow> trace h' = trace h"
  by (auto simp: SharedPtr_from_weak_def Let_def split: option.splits if_splits
        dest!: andThen_InrD tr_IncrementRefCounter)

lemma tr_Lock: "Lock w h = Inr (h', s') \<Longrightarrow> trace h' = trace h"
  by (auto simp: Lock_def split: if_splits dest!: andThen_InrD tr_SharedPtr_from_weak)

lemma tr_SharedPtr_dtor: "SharedPtr_dtor s h = Inr h' \<Longrightarrow> prefix (trace h) (trace h')"
  by (auto simp: SharedPtr_dtor_def split: option.splits dest: tr_DecrementRefCounter)

lemma tr_SharedPtr_assign:
  "SharedPtr_assign this other h = Inr (h', this') \<Longrightarrow> prefix (trace h) (trace h')"
proof -
  assume a: "SharedPtr_assign this other h = Inr (h', this')"
  then obtain h1 where d: "(case block this of None \<Rightarrow> Inr h | Some b \<Rightarrow> DecrementRefCounter b h) = Inr h1"
    and i: "(case block other of None \<Rightarrow> Inr h1 | Some b \<Rightarrow> IncrementRefCounter b h1) = Inr h'"
    by (auto simp: SharedPtr_assign_def Let_def dest!: andThen_InrD)
  have "prefix (trace h) (trace h1)"
    using d by (auto split: option.splits dest: tr_DecrementRefCounter)
  then show ?thesis using tr_inc_strong_opt [OF i] by simp
qed

lemma tr_SharedPtr_copy_assign:
  "SharedPtr_copy_assign this src h = Inr (h', this') \<Longrightarrow> prefix (trace h) (trace h')"
  by (auto simp: SharedPtr_copy_assign_def
        dest!: andThen_InrD tr_SharedPtr_copy tr_SharedPtr_assign tr_SharedPtr_dtor)

lemma tr_SharedPtr_move_assign:
  "SharedPtr_move_assign this src h = Inr (h', this', src') \<Longrightarrow> prefix (trace h) (trace h')"
  by (auto simp: SharedPtr_move_assign_def SharedPtr_move_def
        dest!: andThen_InrD tr_SharedPtr_assign tr_SharedPtr_dtor)

lemma tr_SharedPtr_Reset:
  "SharedPtr_Reset this h = Inr (h', this') \<Longrightarrow> prefix (trace h) (trace h')"
  by (auto simp: SharedPtr_Reset_def
        dest!: andThen_InrD tr_SharedPtr_assign tr_SharedPtr_dtor)

lemma tr_WeakPtr_copy: "WeakPtr_copy w h = Inr (h', w') \<Longrightarrow> trace h' = trace h"
  by (auto simp: WeakPtr_copy_def Let_def split: option.splits
        dest!: andThen_InrD tr_IncrementWeakRefCounter)

lemma tr_WeakPtr_from_shared: "WeakPtr_from_shared s h = Inr (h', w') \<Longrightarrow> trace h' = trace h"
  by (auto simp: WeakPtr_from_shared_def Let_def split: option.splits
        dest!: andThen_InrD tr_IncrementWeakRefCounter)

lemma tr_WeakPtr_assign:
  "WeakPtr_assign this other h = Inr (h', this') \<Longrightarrow> prefix (trace h) (trace h')"
proof -
  assume a: "WeakPtr_assign this other h = Inr (h', this')"
  then obtain h1 where d: "(case wblock this of None \<Rightarrow> Inr h
                             | Some b \<Rightarrow> DecrementWeakRefCounter b h) = Inr h1"
    and i: "(case wblock other of None \<Rightarrow> Inr h1 | Some b \<Rightarrow> IncrementWeakRefCounter b h1) = Inr h'"
    by (auto simp: WeakPtr_assign_def Let_def dest!: andThen_InrD)
  have "prefix (trace h) (trace h1)"
    using d by (auto split: option.splits dest: tr_DecrementWeakRefCounter)
  then show ?thesis using tr_inc_weak_opt [OF i] by simp
qed

lemma tr_WeakPtr_copy_assign:
  "WeakPtr_copy_assign this src h = Inr (h', this') \<Longrightarrow> prefix (trace h) (trace h')"
  by (auto simp: WeakPtr_copy_assign_def
        dest!: andThen_InrD tr_WeakPtr_copy tr_WeakPtr_assign tr_WeakPtr_dtor)

lemma tr_WeakPtr_move_assign:
  "WeakPtr_move_assign this src h = Inr (h', this', src') \<Longrightarrow> prefix (trace h) (trace h')"
  by (auto simp: WeakPtr_move_assign_def WeakPtr_move_def
        dest!: andThen_InrD tr_WeakPtr_assign tr_WeakPtr_dtor)

lemma tr_WeakPtr_Reset:
  "WeakPtr_Reset this h = Inr (h', this') \<Longrightarrow> prefix (trace h) (trace h')"
  by (auto simp: WeakPtr_Reset_def
        dest!: andThen_InrD tr_WeakPtr_assign tr_WeakPtr_dtor)

lemma tr_step: "step p x g = Inr g' \<Longrightarrow> prefix (trace (mem g)) (trace (mem g'))"
proof (cases x)
  case (Copy i) then show "step p x g = Inr g' \<Longrightarrow> ?thesis"
    by (auto split: if_splits dest!: andThen_InrD tr_SharedPtr_copy)
next
  case (Move i) then show "step p x g = Inr g' \<Longrightarrow> ?thesis"
    by (auto simp: SharedPtr_move_def split: if_splits)
next
  case (Alias i q) then show "step p x g = Inr g' \<Longrightarrow> ?thesis"
    by (auto split: if_splits dest!: andThen_InrD tr_SharedPtr_alias)
next
  case (Promote i) then show "step p x g = Inr g' \<Longrightarrow> ?thesis"
    by (auto split: if_splits sum.splits error.splits dest!: tr_SharedPtr_from_weak)
next
  case (LockOp i) then show "step p x g = Inr g' \<Longrightarrow> ?thesis"
    by (auto split: if_splits dest!: andThen_InrD tr_Lock)
next
  case (Assign i j) then show "step p x g = Inr g' \<Longrightarrow> ?thesis"
    by (auto split: if_splits dest!: andThen_InrD tr_SharedPtr_copy_assign)
next
  case (MoveAssign i j) then show "step p x g = Inr g' \<Longrightarrow> ?thesis"
    by (auto simp: Let_def split: if_splits dest!: andThen_InrD tr_SharedPtr_move_assign)
next
  case (ResetOp i) then show "step p x g = Inr g' \<Longrightarrow> ?thesis"
    by (auto split: if_splits dest!: andThen_InrD tr_SharedPtr_Reset)
next
  case (SwapOp i j) then show "step p x g = Inr g' \<Longrightarrow> ?thesis"
    by (auto simp: SharedPtr_Swap_def split: if_splits)
next
  case (Destroy i) then show "step p x g = Inr g' \<Longrightarrow> ?thesis"
    by (auto split: if_splits dest!: andThen_InrD tr_SharedPtr_dtor)
next
  case (Demote i) then show "step p x g = Inr g' \<Longrightarrow> ?thesis"
    by (auto split: if_splits dest!: andThen_InrD tr_WeakPtr_from_shared)
next
  case (WCopy i) then show "step p x g = Inr g' \<Longrightarrow> ?thesis"
    by (auto split: if_splits dest!: andThen_InrD tr_WeakPtr_copy)
next
  case (WMove i) then show "step p x g = Inr g' \<Longrightarrow> ?thesis"
    by (auto simp: WeakPtr_move_def split: if_splits)
next
  case (WAssign i j) then show "step p x g = Inr g' \<Longrightarrow> ?thesis"
    by (auto split: if_splits dest!: andThen_InrD tr_WeakPtr_copy_assign)
next
  case (WMoveAssign i j) then show "step p x g = Inr g' \<Longrightarrow> ?thesis"
    by (auto simp: Let_def split: if_splits dest!: andThen_InrD tr_WeakPtr_move_assign)
next
  case (WReset i) then show "step p x g = Inr g' \<Longrightarrow> ?thesis"
    by (auto split: if_splits dest!: andThen_InrD tr_WeakPtr_Reset)
next
  case (WSwap i j) then show "step p x g = Inr g' \<Longrightarrow> ?thesis"
    by (auto simp: WeakPtr_Swap_def split: if_splits)
next
  case (WDestroy i) then show "step p x g = Inr g' \<Longrightarrow> ?thesis"
    by (auto split: if_splits dest!: andThen_InrD tr_WeakPtr_dtor)
next
  case SharedFromThisOp then show "step p x g = Inr g' \<Longrightarrow> ?thesis"
    by (auto simp: SharedFromThis_def split: option.splits payload.splits sum.splits error.splits
          dest!: tr_SharedPtr_from_weak)
next
  case WeakFromThisOp then show "step p x g = Inr g' \<Longrightarrow> ?thesis"
    by (auto simp: WeakFromThis_def split: option.splits payload.splits
          dest!: andThen_InrD tr_WeakPtr_copy)
qed

lemma reach_step:
  assumes "well_started e origin h" and "length xs + 7 < 2 ^ 64"
  shows "returns (andThen (start e origin h) (run (payload_at origin h) xs)) (\<lambda>g.
           config_inv (brk h) (payload_at origin h) e (block_storage origin h) g \<and>
           owners (brk h) (strongs g) + watchers (brk h) (weaks g) + 2 < 2 ^ 64 \<and>
           returns (step (payload_at origin h) x g) (\<lambda>g'.
             config_inv (brk h) (payload_at origin h) e (block_storage origin h) g' \<and>
             prefix (trace (mem g)) (trace (mem g'))))"
proof -
  obtain g0 where s: "start e origin h = Inr g0"
    and inv0: "config_inv (brk h) (payload_at origin h) e (block_storage origin h) g0"
    and len0: "strongs g0 = [\<lparr>block = Some (brk h), observer = Some (payload_at origin h)\<rparr>]"
      "weaks g0 = []"
    using returnsD [OF start_inv [OF assms(1)]] by blast
  have "length (strongs g0) + length (weaks g0) + length xs + 5 < (2::nat) ^ 64"
    using len0 assms(2) by simp
  from returnsD [OF run_inv [OF inv0 keeps_origin this]]
  obtain g where r: "run (payload_at origin h) xs g0 = Inr g"
    and inv: "config_inv (brk h) (payload_at origin h) e (block_storage origin h) g"
    and len: "length (strongs g) + length (weaks g)
                \<le> length (strongs g0) + length (weaks g0) + length xs"
    by blast
  have bd: "length (strongs g) + length (weaks g) + 5 < (2::nat) ^ 64"
    using len len0 assms(2) by simp
  from returnsD [OF step_inv [OF inv keeps_origin bd, of x]]
  obtain g' where st: "step (payload_at origin h) x g = Inr g'"
    and post: "step_post (brk h) (payload_at origin h) e (block_storage origin h) g g'"
    by blast
  have "owners (brk h) (strongs g) + watchers (brk h) (weaks g) + 2 < 2 ^ 64"
    using inv_bound [OF bd, of "brk h"] by simp
  then show ?thesis
    using inv post tr_step [OF st] by (simp add: s r st step_post_def)
qed

lemma trace_of_state:
  assumes "heap_state b p e st ns nw h"
  shows "trace h = (if 0 < ns then [] else if 0 < nw then [PayloadDestroyed p]
                    else [PayloadDestroyed p, BlockDestroyed b])"
  using assms by (auto simp: heap_state_def split: if_splits)

lemma block_of_state:
  assumes "heap_state b p e st ns nw h"
  shows "blocks h b =
           (if 0 < ns then Some \<lparr>storage = st, ref_counter = cnt ns,
                                  weak_ref_counter = cnt (ns + nw + embedded e)\<rparr>
            else if 0 < nw then Some \<lparr>storage = st, ref_counter = 0, weak_ref_counter = cnt nw\<rparr>
            else None)"
  using assms by (auto simp: heap_state_def split: if_splits)


lemma stays_freed:
  assumes "config_inv b p e st g" and "config_inv b p e st g'"
    and "prefix (trace (mem g)) (trace (mem g'))"
    and "owners b (strongs g) + watchers b (weaks g) = 0"
  shows "owners b (strongs g') + watchers b (weaks g') = 0"
proof (rule ccontr)
  assume "owners b (strongs g') + watchers b (weaks g') \<noteq> 0"
  then have "length (trace (mem g')) \<le> 1"
    using trace_of_state [OF inv_heap [OF assms(2)]] by (simp split: if_splits)
  moreover have "length (trace (mem g)) = 2"
    using trace_of_state [OF inv_heap [OF assms(1)]] assms(4) by simp
  ultimately show False using prefix_length_le [OF assms(3)] by simp
qed

lemma deaths_of_state:
  assumes "config_inv b p e st g"
  shows "payload_deaths p g = (if owners b (strongs g) = 0 then 1 else 0)"
    and "block_deaths b g = (if owners b (strongs g) + watchers b (weaks g) = 0 then 1 else 0)"
  using trace_of_state [OF inv_heap [OF assms]]
  by (simp_all add: payload_deaths_def block_deaths_def)


section \<open>Equality and the null raw pointer\<close>

text \<open>
  C9. Two strong handles compare equal exactly when their cached payload pointers are
  the same, whatever blocks they refer to: the result does not change when either
  block reference is replaced; a handle aliased from \<open>s\<close> with the pointer \<open>q\<close>
  shares the block of \<open>s\<close> and equals \<open>s\<close> exactly when \<open>q\<close> is the pointer
  of \<open>s\<close>; two handles on one block with the pointers \<open>Some 1\<close> and \<open>Some 2\<close>
  are unequal; and two empty handles are equal.
\<close>

theorem equality_is_pointer_identity:
  "operator_eq l r = (observer l = observer r) \<and>
   operator_eq (l\<lparr>block := bl\<rparr>) (r\<lparr>block := br\<rparr>) = operator_eq l r \<and>
   returns (SharedPtr_alias \<lparr>block = Some b, observer = po\<rparr> q
              (h\<lparr>blocks := (blocks h)(b \<mapsto> cb)\<rparr>))
     (\<lambda>(h', a). block a = Some b \<and>
        operator_eq \<lparr>block = Some b, observer = po\<rparr> a = (po = q)) \<and>
   operator_eq \<lparr>block = Some b, observer = Some 1\<rparr> \<lparr>block = Some b, observer = Some 2\<rparr> = False \<and>
   operator_eq SharedPtr_default SharedPtr_default \<and>
   operator_eq SharedPtr_default SharedPtr_nullptr"
  by (simp add: operator_eq_def Get_def SharedPtr_alias_def IncrementRefCounter_def
        SharedPtr_default_def SharedPtr_nullptr_def)



lemma word_pred_zero: "((w :: size_t) - 1 = 0) = (w = 1)"
  by auto

lemma word_pred2_zero: "((w :: size_t) - 1 - 1 = 0) = (w = 2)"
proof -
  have "w - 1 - 1 = w - 2" by simp
  then show ?thesis by auto
qed

lemma guarded_teardown:
  assumes "blocks h b = Some cb" and "ref_counter cb = 1" and "weak_ref_counter cb \<noteq> 1"
    and "keeps (storage cb) p"
    and "objects h p = Some (ESFT \<lparr>wblock = Some b, wobserver = wo\<rparr>)"
  shows "returns
           (andThen (IncrementWeakRefCounter b
                       (h\<lparr>blocks := (blocks h)(b \<mapsto>
                            cb\<lparr>ref_counter := 0, weak_ref_counter := weak_ref_counter cb - 1\<rparr>)\<rparr>))
              (release_payload (storage cb)))
           (\<lambda>h3. blocks h3 b =
                    Some (cb\<lparr>ref_counter := 0, weak_ref_counter := weak_ref_counter cb - 1\<rparr>) \<and>
                  objects h3 p = None \<and> trace h3 = trace h @ [PayloadDestroyed p])"
  using assms
  by (auto simp: IncrementWeakRefCounter_def release_payload_def destroy_payload_def
        WeakPtr_dtor_def DecrementWeakRefCounter_def Let_def keeps_def word_pred_zero)

lemma guarded_decrement:
  assumes "blocks h b = Some cb" and "ref_counter cb = 1" and "weak_ref_counter cb \<noteq> 1"
    and "keeps (storage cb) p"
    and "objects h p = Some (ESFT \<lparr>wblock = Some b, wobserver = wo\<rparr>)"
  shows "returns (DecrementRefCounter b h)
           (\<lambda>h'. objects h' p = None \<and>
              (if weak_ref_counter cb = 2
               then blocks h' b = None \<and>
                    trace h' = trace h @ [PayloadDestroyed p, BlockDestroyed b]
               else blocks h' b =
                      Some (cb\<lparr>ref_counter := 0, weak_ref_counter := weak_ref_counter cb - 2\<rparr>) \<and>
                    trace h' = trace h @ [PayloadDestroyed p]))"
  using assms
  by (auto simp: DecrementRefCounter_def guarded_release_def
        IncrementWeakRefCounter_def release_payload_def destroy_payload_def
        WeakPtr_dtor_def DecrementWeakRefCounter_def Let_def keeps_def delete_this_def
        word_pred_zero word_pred2_zero)

lemma unguarded_teardown:
  assumes "blocks h b = Some cb" and "weak_ref_counter cb = 2"
    and "keeps (storage cb) p"
    and "objects h p = Some (ESFT \<lparr>wblock = Some b, wobserver = wo\<rparr>)"
  shows "returns
           (release_payload (storage cb)
              (h\<lparr>blocks := (blocks h)(b \<mapsto>
                   cb\<lparr>ref_counter := 0, weak_ref_counter := weak_ref_counter cb - 1\<rparr>)\<rparr>))
           (\<lambda>h3. blocks h3 b = None)"
  using assms
  by (auto simp: release_payload_def destroy_payload_def
        WeakPtr_dtor_def DecrementWeakRefCounter_def Let_def keeps_def delete_this_def)

lemma cnt_numerals [simp]: "cnt 1 = 1" "cnt (Suc 0) = 1" "cnt 2 = 2" "cnt (Suc (Suc 0)) = 2"
  by (simp_all add: cnt_def)

lemma cnt_eq_iff:
  "m < 2 ^ 64 \<Longrightarrow> n < 2 ^ 64 \<Longrightarrow> (cnt m = cnt n) = (m = n)"
  by (metis unat_cnt)

lemma reach_guard:
  assumes "config_inv b p True st g" and "keeps st p" and "owners b (strongs g) = 1"
    and "owners b (strongs g) + watchers b (weaks g) + 2 < 2 ^ 64"
  shows "case blocks (mem g) b of
           None \<Rightarrow> False
         | Some cb \<Rightarrow>
             ref_counter cb = 1 \<and>
             unat (weak_ref_counter cb) = watchers b (weaks g) + 2 \<and>
             (let h1 = (mem g)\<lparr>blocks := (blocks (mem g))(b \<mapsto>
                         cb\<lparr>ref_counter := ref_counter cb - 1,
                            weak_ref_counter := weak_ref_counter cb - 1\<rparr>)\<rparr>
              in returns (andThen (IncrementWeakRefCounter b h1) (release_payload (storage cb)))
                   (\<lambda>h3. blocks h3 b \<noteq> None \<and> objects h3 p = None \<and>
                          trace h3 = [PayloadDestroyed p]) \<and>
                 (watchers b (weaks g) = 0 \<longrightarrow>
                    returns (release_payload (storage cb) h1) (\<lambda>h3. blocks h3 b = None))) \<and>
             returns (DecrementRefCounter b (mem g))
               (\<lambda>h'. trace h' = (if watchers b (weaks g) = 0
                                  then [PayloadDestroyed p, BlockDestroyed b]
                                  else [PayloadDestroyed p]))"
proof -
  let ?nw = "watchers b (weaks g)"
  let ?cb = "\<lparr>storage = st, ref_counter = 1, weak_ref_counter = cnt (?nw + 2)\<rparr>"
  note hs = inv_heap [OF assms(1)]
  have blk: "blocks (mem g) b = Some ?cb"
    using block_of_state [OF hs] assms(3) by (simp add: embedded_def add.commute)
  have obj: "objects (mem g) p = Some (ESFT \<lparr>wblock = Some b, wobserver = Some p\<rparr>)"
    using payload_of_state [OF hs] assms(3) by (simp add: live_payload_def)
  have tr: "trace (mem g) = []"
    using trace_of_state [OF hs] assms(3) by simp
  have ne1: "weak_ref_counter ?cb \<noteq> 1"
    using cnt_eq_iff [of "?nw + 2" 1] assms(3,4) by simp
  have two: "(weak_ref_counter ?cb = 2) = (?nw = 0)"
    using cnt_eq_iff [of "?nw + 2" 2] assms(3,4) by simp
  have un: "unat (weak_ref_counter ?cb) = ?nw + 2"
    using unat_cnt [of "?nw + 2"] assms(3,4) by simp
  have k: "keeps (storage ?cb) p" using assms(2) by simp
  have r: "ref_counter ?cb = 1" by simp
  note t1 = guarded_teardown [OF blk r ne1 k obj]
  note t2 = guarded_decrement [OF blk r ne1 k obj]
  have t3: "?nw = 0 \<longrightarrow> returns
           (release_payload (storage ?cb)
              ((mem g)\<lparr>blocks := (blocks (mem g))(b \<mapsto>
                   ?cb\<lparr>ref_counter := 0, weak_ref_counter := weak_ref_counter ?cb - 1\<rparr>)\<rparr>))
           (\<lambda>h3. blocks h3 b = None)"
    using unguarded_teardown [OF blk _ k obj] two by blast
  have g1: "returns (andThen (IncrementWeakRefCounter b
                       ((mem g)\<lparr>blocks := (blocks (mem g))(b \<mapsto>
                            ?cb\<lparr>ref_counter := 0, weak_ref_counter := weak_ref_counter ?cb - 1\<rparr>)\<rparr>))
              (release_payload (storage ?cb)))
            (\<lambda>h3. blocks h3 b \<noteq> None \<and> objects h3 p = None \<and> trace h3 = [PayloadDestroyed p])"
    using t1 tr by (auto elim!: returns_mono)
  have g2: "returns (DecrementRefCounter b (mem g))
               (\<lambda>h'. trace h' = (if ?nw = 0 then [PayloadDestroyed p, BlockDestroyed b]
                                  else [PayloadDestroyed p]))"
    using t2 tr two by (auto elim!: returns_mono split: if_splits)
  show ?thesis
    using g1 g2 t3 un by (simp add: blk Let_def)
qed

section \<open>Lifetime of the payload and of the block\<close>


lemmas eval_defs =
  start_def start_make_def start_raw_def MakeShared_def SharedPtr_from_raw_def Let_def
  IncrementRefCounter_def IncrementWeakRefCounter_def DecrementWeakRefCounter_def
  DecrementRefCounter_def guarded_release_def release_payload_def destroy_payload_def
  delete_this_def GetRefCount_def install_weak_this_def
  WeakPtr_from_shared_def WeakPtr_assign_def WeakPtr_default_def WeakPtr_dtor_def
  WeakPtr_copy_def WeakPtr_move_def WeakPtr_UseCount_def Expired_def
  SharedPtr_copy_def SharedPtr_dtor_def SharedPtr_alias_def SharedPtr_from_weak_def
  SharedPtr_assign_def SharedPtr_default_def SharedPtr_nullptr_def Lock_def
  UseCount_def remove_nth_def empty_heap_def
  owners_def watchers_def payload_deaths_def block_deaths_def


lemma counters_of_state:
  assumes "config_inv b p e st g"
    and "owners b (strongs g) + watchers b (weaks g) + 2 < 2 ^ 64"
    and "0 < owners b (strongs g) + watchers b (weaks g)"
  shows "case blocks (mem g) b of
           None \<Rightarrow> False
         | Some cb \<Rightarrow>
             unat (ref_counter cb) = owners b (strongs g) \<and>
             unat (weak_ref_counter cb) =
               owners b (strongs g) + watchers b (weaks g) +
               (if 0 < owners b (strongs g) then embedded e else 0)"
proof (cases "0 < owners b (strongs g)")
  case True
  have "embedded e \<le> 1" by (simp add: embedded_def)
  then show ?thesis
    using block_of_state [OF inv_heap [OF assms(1)]] True assms(2)
    by (simp add: unat_cnt)
next
  case False
  then show ?thesis
    using block_of_state [OF inv_heap [OF assms(1)]] assms(2,3)
    by (simp add: unat_cnt)
qed

text \<open>
  C2. In every such program the block is destroyed exactly once, at the step that
  takes the number of handles (strong and weak) from positive to zero, where also
  the weak count comes to zero: in \<open>g\<close> the block has been deleted once if no
  handle is left and not at all otherwise, it exists exactly while a handle does, and
  while it exists its weak count is the number of strong handles, weak handles and
  (while the payload lives) the payload's own \<^verbatim>\<open>weak_this_\<close>. A deleted block
  follows the destroyed payload in the trace. When a self-referencing payload has one
  strong handle left, the strong decrement enters the payload's teardown with one
  weak reference more, the teardown destroys \<^verbatim>\<open>weak_this_\<close> and leaves the block
  in place, and the decrement returns with the payload destroyed first and then, if no
  weak handle is left, the block; entered without the extra reference and with no weak
  handle, the same teardown would delete the block.
\<close>

theorem block_destroyed_after_payload:
  assumes "well_started esft origin h" and "length xs + 7 < 2 ^ 64"
  shows "returns (andThen (start esft origin h) (run (payload_at origin h) xs)) (\<lambda>g.
           returns (step (payload_at origin h) x g) (\<lambda>g'.
             block_deaths (brk h) g =
               (if owners (brk h) (strongs g) + watchers (brk h) (weaks g) = 0 then 1 else 0) \<and>
             block_deaths (brk h) g' =
               block_deaths (brk h) g +
               (if 0 < owners (brk h) (strongs g) + watchers (brk h) (weaks g) \<and>
                   owners (brk h) (strongs g') + watchers (brk h) (weaks g') = 0
                then 1 else 0) \<and>
             (block_deaths (brk h) g' = 1 \<longrightarrow>
                trace (mem g') = [PayloadDestroyed (payload_at origin h), BlockDestroyed (brk h)])) \<and>
           (blocks (mem g) (brk h) \<noteq> None) =
             (0 < owners (brk h) (strongs g) + watchers (brk h) (weaks g)) \<and>
           (0 < owners (brk h) (strongs g) + watchers (brk h) (weaks g) \<longrightarrow>
              (case blocks (mem g) (brk h) of
                 None \<Rightarrow> False
               | Some cb \<Rightarrow>
                   unat (weak_ref_counter cb) =
                     owners (brk h) (strongs g) + watchers (brk h) (weaks g) +
                     (if 0 < owners (brk h) (strongs g) then embedded esft else 0))) \<and>
           (esft \<and> owners (brk h) (strongs g) = 1 \<longrightarrow>
              (case blocks (mem g) (brk h) of
                 None \<Rightarrow> False
               | Some cb \<Rightarrow>
                   ref_counter cb = 1 \<and>
                   unat (weak_ref_counter cb) = watchers (brk h) (weaks g) + 2 \<and>
                   (let h1 = (mem g)\<lparr>blocks := (blocks (mem g))(brk h \<mapsto>
                               cb\<lparr>ref_counter := ref_counter cb - 1,
                                  weak_ref_counter := weak_ref_counter cb - 1\<rparr>)\<rparr>
                    in returns (andThen (IncrementWeakRefCounter (brk h) h1)
                                  (release_payload (storage cb)))
                         (\<lambda>h3. blocks h3 (brk h) \<noteq> None \<and>
                                objects h3 (payload_at origin h) = None \<and>
                                trace h3 = [PayloadDestroyed (payload_at origin h)]) \<and>
                       (watchers (brk h) (weaks g) = 0 \<longrightarrow>
                          returns (release_payload (storage cb) h1)
                            (\<lambda>h3. blocks h3 (brk h) = None))) \<and>
                   returns (DecrementRefCounter (brk h) (mem g))
                     (\<lambda>h'. trace h' =
                        (if watchers (brk h) (weaks g) = 0
                         then [PayloadDestroyed (payload_at origin h), BlockDestroyed (brk h)]
                         else [PayloadDestroyed (payload_at origin h)])))))"
proof -
  let ?b = "brk h" and ?p = "payload_at origin h" and ?st = "block_storage origin h"
  obtain g where r: "andThen (start esft origin h) (run ?p xs) = Inr g"
    and inv: "config_inv ?b ?p esft ?st g"
    and bd: "owners ?b (strongs g) + watchers ?b (weaks g) + 2 < 2 ^ 64"
    and nxt: "returns (step ?p x g) (\<lambda>g'. config_inv ?b ?p esft ?st g' \<and>
                 prefix (trace (mem g)) (trace (mem g')))"
    using returnsD [OF reach_step [OF assms, of x]] by blast
  obtain g' where s: "step ?p x g = Inr g'" and inv': "config_inv ?b ?p esft ?st g'"
    and pre: "prefix (trace (mem g)) (trace (mem g'))"
    using returnsD [OF nxt] by blast
  note d = deaths_of_state(2) [OF inv] and d' = deaths_of_state(2) [OF inv']
  have freed: "owners ?b (strongs g) + watchers ?b (weaks g) = 0 \<Longrightarrow>
               owners ?b (strongs g') + watchers ?b (weaks g') = 0"
    using stays_freed [OF inv inv' pre] .
  have c1: "block_deaths ?b g' = block_deaths ?b g +
          (if 0 < owners ?b (strongs g) + watchers ?b (weaks g) \<and>
              owners ?b (strongs g') + watchers ?b (weaks g') = 0 then 1 else 0)"
    using d d' freed by auto
  have c2: "block_deaths ?b g' = 1 \<longrightarrow>
              trace (mem g') = [PayloadDestroyed ?p, BlockDestroyed ?b]"
    using d' trace_of_state [OF inv_heap [OF inv']] by (auto split: if_splits)
  have c3: "(blocks (mem g) ?b \<noteq> None) = (0 < owners ?b (strongs g) + watchers ?b (weaks g))"
    using block_of_state [OF inv_heap [OF inv]] by auto
  have c4: "0 < owners ?b (strongs g) + watchers ?b (weaks g) \<longrightarrow>
              (case blocks (mem g) ?b of
                 None \<Rightarrow> False
               | Some cb \<Rightarrow>
                   unat (weak_ref_counter cb) =
                     owners ?b (strongs g) + watchers ?b (weaks g) +
                     (if 0 < owners ?b (strongs g) then embedded esft else 0))"
  proof (rule impI)
    assume "0 < owners ?b (strongs g) + watchers ?b (weaks g)"
    from counters_of_state [OF inv bd this]
    show "case blocks (mem g) ?b of
                 None \<Rightarrow> False
               | Some cb \<Rightarrow>
                   unat (weak_ref_counter cb) =
                     owners ?b (strongs g) + watchers ?b (weaks g) +
                     (if 0 < owners ?b (strongs g) then embedded esft else 0)"
      by (cases "blocks (mem g) ?b") simp_all
  qed
  have c5: "esft \<and> owners ?b (strongs g) = 1 \<longrightarrow>
              (case blocks (mem g) ?b of
                 None \<Rightarrow> False
               | Some cb \<Rightarrow>
                   ref_counter cb = 1 \<and>
                   unat (weak_ref_counter cb) = watchers ?b (weaks g) + 2 \<and>
                   (let h1 = (mem g)\<lparr>blocks := (blocks (mem g))(?b \<mapsto>
                               cb\<lparr>ref_counter := ref_counter cb - 1,
                                  weak_ref_counter := weak_ref_counter cb - 1\<rparr>)\<rparr>
                    in returns (andThen (IncrementWeakRefCounter ?b h1)
                                  (release_payload (storage cb)))
                         (\<lambda>h3. blocks h3 ?b \<noteq> None \<and> objects h3 ?p = None \<and>
                                trace h3 = [PayloadDestroyed ?p]) \<and>
                       (watchers ?b (weaks g) = 0 \<longrightarrow>
                          returns (release_payload (storage cb) h1)
                            (\<lambda>h3. blocks h3 ?b = None))) \<and>
                   returns (DecrementRefCounter ?b (mem g))
                     (\<lambda>h'. trace h' =
                        (if watchers ?b (weaks g) = 0
                         then [PayloadDestroyed ?p, BlockDestroyed ?b]
                         else [PayloadDestroyed ?p])))"
  proof (intro impI, elim conjE)
    assume e: esft and one: "owners ?b (strongs g) = 1"
    show "case blocks (mem g) ?b of
                 None \<Rightarrow> False
               | Some cb \<Rightarrow>
                   ref_counter cb = 1 \<and>
                   unat (weak_ref_counter cb) = watchers ?b (weaks g) + 2 \<and>
                   (let h1 = (mem g)\<lparr>blocks := (blocks (mem g))(?b \<mapsto>
                               cb\<lparr>ref_counter := ref_counter cb - 1,
                                  weak_ref_counter := weak_ref_counter cb - 1\<rparr>)\<rparr>
                    in returns (andThen (IncrementWeakRefCounter ?b h1)
                                  (release_payload (storage cb)))
                         (\<lambda>h3. blocks h3 ?b \<noteq> None \<and> objects h3 ?p = None \<and>
                                trace h3 = [PayloadDestroyed ?p]) \<and>
                       (watchers ?b (weaks g) = 0 \<longrightarrow>
                          returns (release_payload (storage cb) h1)
                            (\<lambda>h3. blocks h3 ?b = None))) \<and>
                   returns (DecrementRefCounter ?b (mem g))
                     (\<lambda>h'. trace h' =
                        (if watchers ?b (weaks g) = 0
                         then [PayloadDestroyed ?p, BlockDestroyed ?b]
                         else [PayloadDestroyed ?p]))"
      using reach_guard [OF _ keeps_origin one bd] inv e by simp
  qed
  from d c1 c2 c3 c4 c5 show ?thesis
    unfolding r s returns_Inr andThen_Inr by (intro conjI)
qed


text \<open>
  The witness: a self-referencing payload built by \<^verbatim>\<open>MakeShared\<close>, whose only
  strong handle is destroyed: the payload's teardown destroys \<^verbatim>\<open>weak_this_\<close>,
  and the block is deleted after it, once. The teardown entered with the extra weak
  reference leaves the block in place; entered without it, it deletes the block.
\<close>

theorem block_destroyed_after_payload_witness:
  "well_started True FromMake empty_heap \<and>
   length ([] :: op list) + 7 < (2::nat) ^ 64 \<and>
   returns (andThen (start True FromMake empty_heap) (run (payload_at FromMake empty_heap) []))
     (\<lambda>g. returns (step (payload_at FromMake empty_heap) (Destroy 0) g) (\<lambda>g'.
        block_deaths (brk empty_heap) g' =
          block_deaths (brk empty_heap) g +
          (if 0 < owners (brk empty_heap) (strongs g) + watchers (brk empty_heap) (weaks g) \<and>
              owners (brk empty_heap) (strongs g') + watchers (brk empty_heap) (weaks g') = 0
           then 1 else 0))) \<and>
   returns (andThen (start True FromMake empty_heap) (run 1 []))
     (\<lambda>g. owners 0 (strongs g) = 1 \<and> watchers 0 (weaks g) = 0 \<and>
        blocks (mem g) 0 = Some \<lparr>storage = Owning 1, ref_counter = 1, weak_ref_counter = 2\<rparr> \<and>
        block_deaths 0 g = 0 \<and>
        returns (step 1 (Destroy 0) g) (\<lambda>g'.
          trace (mem g') = [PayloadDestroyed 1, BlockDestroyed 0] \<and>
          blocks (mem g') 0 = None \<and> block_deaths 0 g' = 1)) \<and>
   returns (andThen (start True FromMake empty_heap) (run 1 []))
     (\<lambda>g. returns
            (andThen (IncrementWeakRefCounter 0
                        ((mem g)\<lparr>blocks := (blocks (mem g))(0 \<mapsto>
                            \<lparr>storage = Owning 1, ref_counter = 0, weak_ref_counter = 1\<rparr>)\<rparr>))
               (release_payload (Owning 1)))
            (\<lambda>h3. blocks h3 0 \<noteq> None \<and> objects h3 1 = None \<and>
                   trace h3 = [PayloadDestroyed 1]) \<and>
          returns
            (release_payload (Owning 1)
               ((mem g)\<lparr>blocks := (blocks (mem g))(0 \<mapsto>
                   \<lparr>storage = Owning 1, ref_counter = 0, weak_ref_counter = 1\<rparr>)\<rparr>))
            (\<lambda>h3. blocks h3 0 = None))"
proof -
  have a: "well_started True FromMake empty_heap"
    by (simp add: well_started_def empty_heap_def)
  have b: "length ([] :: op list) + 7 < (2::nat) ^ 64"
    by simp
  have c: "returns (andThen (start True FromMake empty_heap) (run 1 []))
     (\<lambda>g. owners 0 (strongs g) = 1 \<and> watchers 0 (weaks g) = 0 \<and>
        blocks (mem g) 0 = Some \<lparr>storage = Owning 1, ref_counter = 1, weak_ref_counter = 2\<rparr> \<and>
        block_deaths 0 g = 0 \<and>
        returns (step 1 (Destroy 0) g) (\<lambda>g'.
          trace (mem g') = [PayloadDestroyed 1, BlockDestroyed 0] \<and>
          blocks (mem g') 0 = None \<and> block_deaths 0 g' = 1))"
    by (simp add: eval_defs)
  note t = block_destroyed_after_payload [OF a b, of "Destroy 0"]
  have d: "returns (andThen (start True FromMake empty_heap)
                      (run (payload_at FromMake empty_heap) []))
     (\<lambda>g. returns (step (payload_at FromMake empty_heap) (Destroy 0) g) (\<lambda>g'.
        block_deaths (brk empty_heap) g' =
          block_deaths (brk empty_heap) g +
          (if 0 < owners (brk empty_heap) (strongs g) + watchers (brk empty_heap) (weaks g) \<and>
              owners (brk empty_heap) (strongs g') + watchers (brk empty_heap) (weaks g') = 0
           then 1 else 0)))"
    by (rule returns_mono [OF t]) (auto elim!: returns_mono)
  have pa: "payload_at FromMake empty_heap = 1" "brk empty_heap = 0"
    by (simp_all add: payload_at_def empty_heap_def)
  obtain g where r: "andThen (start True FromMake empty_heap) (run 1 []) = Inr g"
    and ow: "owners 0 (strongs g) = 1" and wa: "watchers 0 (weaks g) = 0"
    and bl: "blocks (mem g) 0 =
               Some \<lparr>storage = Owning 1, ref_counter = 1, weak_ref_counter = 2\<rparr>"
    using returnsD [OF c] by blast
  have e: "returns
            (andThen (IncrementWeakRefCounter 0
                        ((mem g)\<lparr>blocks := (blocks (mem g))(0 \<mapsto>
                            \<lparr>storage = Owning 1, ref_counter = 0, weak_ref_counter = 1\<rparr>)\<rparr>))
               (release_payload (Owning 1)))
            (\<lambda>h3. blocks h3 0 \<noteq> None \<and> objects h3 1 = None \<and>
                   trace h3 = [PayloadDestroyed 1]) \<and>
          returns
            (release_payload (Owning 1)
               ((mem g)\<lparr>blocks := (blocks (mem g))(0 \<mapsto>
                   \<lparr>storage = Owning 1, ref_counter = 0, weak_ref_counter = 1\<rparr>)\<rparr>))
            (\<lambda>h3. blocks h3 0 = None)"
    using t [unfolded pa r returns_Inr] ow wa
    by (simp add: bl Let_def embedded_def)
  then have e': "returns (andThen (start True FromMake empty_heap) (run 1 []))
     (\<lambda>g. returns
            (andThen (IncrementWeakRefCounter 0
                        ((mem g)\<lparr>blocks := (blocks (mem g))(0 \<mapsto>
                            \<lparr>storage = Owning 1, ref_counter = 0, weak_ref_counter = 1\<rparr>)\<rparr>))
               (release_payload (Owning 1)))
            (\<lambda>h3. blocks h3 0 \<noteq> None \<and> objects h3 1 = None \<and>
                   trace h3 = [PayloadDestroyed 1]) \<and>
          returns
            (release_payload (Owning 1)
               ((mem g)\<lparr>blocks := (blocks (mem g))(0 \<mapsto>
                   \<lparr>storage = Owning 1, ref_counter = 0, weak_ref_counter = 1\<rparr>)\<rparr>))
            (\<lambda>h3. blocks h3 0 = None))"
    unfolding r returns_Inr .
  from a b c d e' show ?thesis by blast
qed

lemma inner_of_state:
  assumes "heap_state b p e st ns nw h"
  shows "inner_watch b p h = (if 0 < ns then embedded e else 0)"
  using payload_of_state [OF assms]
  by (simp add: inner_watch_def live_payload_def embedded_def watches_def)

lemma increment_both:
  "blocks h b = Some cb \<Longrightarrow>
   IncrementRefCounter b h =
     Inr (h\<lparr>blocks := (blocks h)(b \<mapsto>
            cb\<lparr>ref_counter := ref_counter cb + 1, weak_ref_counter := weak_ref_counter cb + 1\<rparr>)\<rparr>)"
  by (simp add: IncrementRefCounter_def)

lemma decrement_both:
  "blocks h b = Some cb \<Longrightarrow> ref_counter cb \<noteq> 1 \<Longrightarrow> weak_ref_counter cb \<noteq> 1 \<Longrightarrow>
   DecrementRefCounter b h =
     Inr (h\<lparr>blocks := (blocks h)(b \<mapsto>
            cb\<lparr>ref_counter := ref_counter cb - 1, weak_ref_counter := weak_ref_counter cb - 1\<rparr>)\<rparr>)"
  by (simp add: DecrementRefCounter_def Let_def word_pred_zero)

lemma decrement_last_plain:
  "blocks h b = Some cb \<Longrightarrow> ref_counter cb = 1 \<Longrightarrow> weak_ref_counter cb \<noteq> 1 \<Longrightarrow>
   keeps (storage cb) p \<Longrightarrow> objects h p = Some Plain \<Longrightarrow>
   returns (DecrementRefCounter b h) (\<lambda>h'.
     blocks h' b = Some (cb\<lparr>ref_counter := 0, weak_ref_counter := weak_ref_counter cb - 1\<rparr>) \<and>
     objects h' p = None)"
  by (auto simp: DecrementRefCounter_def guarded_release_def
        IncrementWeakRefCounter_def release_payload_def destroy_payload_def
        Let_def keeps_def delete_this_def word_pred_zero)

text \<open>
  C5. In every configuration a program reaches in which a handle refers to the block,
  the block exists, its strong count is the number of live strong handles, and its
  weak count is the number of live weak handles (those of the program and the
  \<^verbatim>\<open>weak_this_\<close> inside a live self-referencing payload) plus the number of live
  strong handles; so the weak count is at least the strong count whenever the strong
  count is positive. \<^verbatim>\<open>IncrementRefCounter\<close> adds one to both counters;
  \<^verbatim>\<open>DecrementRefCounter\<close> takes one from both, also when it takes the strong count
  to zero and destroys a payload that holds no weak handle.
\<close>

theorem weak_count_covers_strong_count:
  assumes "well_started esft origin h" and "length xs + 7 < 2 ^ 64"
  shows "returns (andThen (start esft origin h) (run (payload_at origin h) xs)) (\<lambda>g.
           0 < owners (brk h) (strongs g) + watchers (brk h) (weaks g) \<longrightarrow>
             (case blocks (mem g) (brk h) of
                None \<Rightarrow> False
              | Some cb \<Rightarrow>
                  unat (ref_counter cb) = owners (brk h) (strongs g) \<and>
                  unat (weak_ref_counter cb) =
                    watchers (brk h) (weaks g) + inner_watch (brk h) (payload_at origin h) (mem g) +
                    owners (brk h) (strongs g) \<and>
                  (0 < unat (ref_counter cb) \<longrightarrow>
                     unat (ref_counter cb) \<le> unat (weak_ref_counter cb)))) \<and>
         (blocks h1 b = Some cb \<longrightarrow>
            IncrementRefCounter b h1 =
              Inr (h1\<lparr>blocks := (blocks h1)(b \<mapsto>
                     cb\<lparr>ref_counter := ref_counter cb + 1,
                        weak_ref_counter := weak_ref_counter cb + 1\<rparr>)\<rparr>)) \<and>
         (blocks h1 b = Some cb \<and> ref_counter cb \<noteq> 1 \<and> weak_ref_counter cb \<noteq> 1 \<longrightarrow>
            DecrementRefCounter b h1 =
              Inr (h1\<lparr>blocks := (blocks h1)(b \<mapsto>
                     cb\<lparr>ref_counter := ref_counter cb - 1,
                        weak_ref_counter := weak_ref_counter cb - 1\<rparr>)\<rparr>)) \<and>
         (blocks h1 b = Some cb \<and> ref_counter cb = 1 \<and> weak_ref_counter cb \<noteq> 1 \<and>
          keeps (storage cb) p \<and> objects h1 p = Some Plain \<longrightarrow>
            returns (DecrementRefCounter b h1) (\<lambda>h'.
              blocks h' b =
                Some (cb\<lparr>ref_counter := 0, weak_ref_counter := weak_ref_counter cb - 1\<rparr>) \<and>
              objects h' p = None))"
proof -
  let ?b = "brk h" and ?p = "payload_at origin h" and ?st = "block_storage origin h"
  obtain g where r: "andThen (start esft origin h) (run ?p xs) = Inr g"
    and inv: "config_inv ?b ?p esft ?st g"
    and bd: "owners ?b (strongs g) + watchers ?b (weaks g) + 2 < 2 ^ 64"
    using returnsD [OF reach_step [OF assms, of "Copy 0"]] by blast
  have "0 < owners ?b (strongs g) + watchers ?b (weaks g) \<longrightarrow>
             (case blocks (mem g) ?b of
                None \<Rightarrow> False
              | Some cb \<Rightarrow>
                  unat (ref_counter cb) = owners ?b (strongs g) \<and>
                  unat (weak_ref_counter cb) =
                    watchers ?b (weaks g) + inner_watch ?b ?p (mem g) + owners ?b (strongs g) \<and>
                  (0 < unat (ref_counter cb) \<longrightarrow>
                     unat (ref_counter cb) \<le> unat (weak_ref_counter cb)))"
  proof (rule impI)
    assume "0 < owners ?b (strongs g) + watchers ?b (weaks g)"
    from counters_of_state [OF inv bd this] inner_of_state [OF inv_heap [OF inv]]
    show "case blocks (mem g) ?b of
                None \<Rightarrow> False
              | Some cb \<Rightarrow>
                  unat (ref_counter cb) = owners ?b (strongs g) \<and>
                  unat (weak_ref_counter cb) =
                    watchers ?b (weaks g) + inner_watch ?b ?p (mem g) + owners ?b (strongs g) \<and>
                  (0 < unat (ref_counter cb) \<longrightarrow>
                     unat (ref_counter cb) \<le> unat (weak_ref_counter cb))"
      by (cases "blocks (mem g) ?b") simp_all
  qed
  then show ?thesis
    unfolding r returns_Inr
    using increment_both [of h1 b cb] decrement_both [of h1 b cb]
      decrement_last_plain [of h1 b cb p]
    by blast
qed

text \<open>
  The witness: a self-referencing payload with two strong handles and one weak handle;
  the counters are 2 and 4.
\<close>

theorem weak_count_covers_strong_count_witness:
  "well_started True FromMake empty_heap \<and>
   length [Copy 0, Demote 1] + 7 < (2::nat) ^ 64 \<and>
   returns (andThen (start True FromMake empty_heap)
              (run (payload_at FromMake empty_heap) [Copy 0, Demote 1])) (\<lambda>g.
     0 < owners (brk empty_heap) (strongs g) + watchers (brk empty_heap) (weaks g) \<longrightarrow>
       (case blocks (mem g) (brk empty_heap) of
          None \<Rightarrow> False
        | Some cb \<Rightarrow>
            unat (ref_counter cb) = owners (brk empty_heap) (strongs g) \<and>
            unat (weak_ref_counter cb) =
              watchers (brk empty_heap) (weaks g) +
              inner_watch (brk empty_heap) (payload_at FromMake empty_heap) (mem g) +
              owners (brk empty_heap) (strongs g) \<and>
            (0 < unat (ref_counter cb) \<longrightarrow>
               unat (ref_counter cb) \<le> unat (weak_ref_counter cb)))) \<and>
   returns (andThen (start True FromMake empty_heap) (run 1 [Copy 0, Demote 1])) (\<lambda>g.
     owners 0 (strongs g) = 2 \<and> watchers 0 (weaks g) = 1 \<and> inner_watch 0 1 (mem g) = 1 \<and>
     blocks (mem g) 0 = Some \<lparr>storage = Owning 1, ref_counter = 2, weak_ref_counter = 4\<rparr>) \<and>
   returns (IncrementRefCounter 0
              (empty_heap\<lparr>blocks := [0 \<mapsto> \<lparr>storage = WithPtr (Some 1), ref_counter = 2,
                                             weak_ref_counter = 3\<rparr>],
                          objects := [1 \<mapsto> Plain]\<rparr>))
     (\<lambda>h'. blocks h' 0 =
              Some \<lparr>storage = WithPtr (Some 1), ref_counter = 3, weak_ref_counter = 4\<rparr>) \<and>
   returns (DecrementRefCounter 0
              (empty_heap\<lparr>blocks := [0 \<mapsto> \<lparr>storage = WithPtr (Some 1), ref_counter = 2,
                                             weak_ref_counter = 3\<rparr>],
                          objects := [1 \<mapsto> Plain]\<rparr>))
     (\<lambda>h'. blocks h' 0 =
              Some \<lparr>storage = WithPtr (Some 1), ref_counter = 1, weak_ref_counter = 2\<rparr>) \<and>
   returns (DecrementRefCounter 0
              (empty_heap\<lparr>blocks := [0 \<mapsto> \<lparr>storage = WithPtr (Some 1), ref_counter = 1,
                                             weak_ref_counter = 2\<rparr>],
                          objects := [1 \<mapsto> Plain]\<rparr>))
     (\<lambda>h'. blocks h' 0 =
              Some \<lparr>storage = WithPtr (Some 1), ref_counter = 0, weak_ref_counter = 1\<rparr> \<and>
            objects h' 1 = None)"
proof -
  let ?cb = "\<lparr>storage = WithPtr (Some 1), ref_counter = 2, weak_ref_counter = 3\<rparr>"
  let ?cb1 = "\<lparr>storage = WithPtr (Some 1), ref_counter = 1, weak_ref_counter = 2\<rparr>"
  let ?hc = "empty_heap\<lparr>blocks := [0 \<mapsto> ?cb], objects := [1 \<mapsto> Plain]\<rparr>"
  let ?hc1 = "empty_heap\<lparr>blocks := [0 \<mapsto> ?cb1], objects := [1 \<mapsto> Plain]\<rparr>"
  have a: "well_started True FromMake empty_heap"
    by (simp add: well_started_def empty_heap_def)
  have b: "length [Copy 0, Demote 1] + 7 < (2::nat) ^ 64"
    by simp
  have c: "returns (andThen (start True FromMake empty_heap) (run 1 [Copy 0, Demote 1])) (\<lambda>g.
     owners 0 (strongs g) = 2 \<and> watchers 0 (weaks g) = 1 \<and> inner_watch 0 1 (mem g) = 1 \<and>
     blocks (mem g) 0 = Some \<lparr>storage = Owning 1, ref_counter = 2, weak_ref_counter = 4\<rparr>)"
    by (simp add: eval_defs inner_watch_def watches_def)
  note t = weak_count_covers_strong_count [OF a b, where ?h1.0 = ?hc and b = 0 and cb = ?cb]
  note t1 = weak_count_covers_strong_count [OF a b, where ?h1.0 = ?hc1 and b = 0 and cb = ?cb1
      and p = 1]
  have d: "returns (IncrementRefCounter 0 ?hc)
     (\<lambda>h'. blocks h' 0 =
              Some \<lparr>storage = WithPtr (Some 1), ref_counter = 3, weak_ref_counter = 4\<rparr>)"
    using conjunct1 [OF conjunct2 [OF t]] by simp
  have e: "returns (DecrementRefCounter 0 ?hc)
     (\<lambda>h'. blocks h' 0 =
              Some \<lparr>storage = WithPtr (Some 1), ref_counter = 1, weak_ref_counter = 2\<rparr>)"
    using conjunct1 [OF conjunct2 [OF conjunct2 [OF t]]] by simp
  have f: "returns (DecrementRefCounter 0 ?hc1)
     (\<lambda>h'. blocks h' 0 =
              Some \<lparr>storage = WithPtr (Some 1), ref_counter = 0, weak_ref_counter = 1\<rparr> \<and>
            objects h' 1 = None)"
    using conjunct2 [OF conjunct2 [OF conjunct2 [OF t1]]] by (simp add: keeps_def)
  from a b c d e f conjunct1 [OF t]
  show ?thesis by blast
qed

lemma quiet_Inr [simp]: "quiet (Inr x)"
  by (simp add: quiet_def)

lemma quiet_UB [simp]: "quiet (Inl UndefinedBehavior)"
  by (simp add: quiet_def)

lemma quiet_andThen: "quiet r \<Longrightarrow> (\<And>x. quiet (f x)) \<Longrightarrow> quiet (andThen r f)"
  by (cases r) (simp_all add: quiet_def)

lemma quiet_option: "(\<And>b. quiet (f b)) \<Longrightarrow> quiet (case x of None \<Rightarrow> Inr h | Some b \<Rightarrow> f b)"
  by (cases x) simp_all

lemma quiet_IncrementRefCounter: "quiet (IncrementRefCounter b h)"
  by (simp add: IncrementRefCounter_def split: option.splits)

lemma quiet_IncrementWeakRefCounter: "quiet (IncrementWeakRefCounter b h)"
  by (simp add: IncrementWeakRefCounter_def split: option.splits)

lemma quiet_GetRefCount: "quiet (GetRefCount b h)"
  by (simp add: GetRefCount_def split: option.splits)

lemma quiet_DecrementWeakRefCounter: "quiet (DecrementWeakRefCounter b h)"
  by (simp add: DecrementWeakRefCounter_def Let_def split: option.splits)

lemma quiet_WeakPtr_dtor: "quiet (WeakPtr_dtor w h)"
  by (simp add: WeakPtr_dtor_def quiet_DecrementWeakRefCounter split: option.splits)

lemma quiet_destroy_payload: "quiet (destroy_payload p h)"
  by (auto simp: destroy_payload_def split: option.splits payload.splits
        intro!: quiet_andThen quiet_WeakPtr_dtor)

lemma quiet_release_payload: "quiet (release_payload s h)"
  by (simp add: release_payload_def quiet_destroy_payload split: storage.splits option.splits)

lemma quiet_guarded_release: "quiet (guarded_release b h)"
  unfolding guarded_release_def
  by (intro quiet_andThen quiet_IncrementWeakRefCounter)
     (auto split: option.splits intro!: quiet_andThen quiet_release_payload)

lemma quiet_DecrementRefCounter: "quiet (DecrementRefCounter b h)"
  unfolding DecrementRefCounter_def Let_def
  by (auto split: option.splits intro!: quiet_andThen quiet_guarded_release)

lemma quiet_inc_strong_opt:
  "quiet (case x of None \<Rightarrow> Inr h | Some b \<Rightarrow> IncrementRefCounter b h)"
  by (rule quiet_option) (rule quiet_IncrementRefCounter)

lemma quiet_dec_strong_opt:
  "quiet (case x of None \<Rightarrow> Inr h | Some b \<Rightarrow> DecrementRefCounter b h)"
  by (rule quiet_option) (rule quiet_DecrementRefCounter)

lemma quiet_inc_weak_opt:
  "quiet (case x of None \<Rightarrow> Inr h | Some b \<Rightarrow> IncrementWeakRefCounter b h)"
  by (rule quiet_option) (rule quiet_IncrementWeakRefCounter)

lemma quiet_dec_weak_opt:
  "quiet (case x of None \<Rightarrow> Inr h | Some b \<Rightarrow> DecrementWeakRefCounter b h)"
  by (rule quiet_option) (rule quiet_DecrementWeakRefCounter)

lemma quiet_WeakPtr_UseCount: "quiet (WeakPtr_UseCount w h)"
  by (simp add: WeakPtr_UseCount_def quiet_GetRefCount split: option.splits)

lemma quiet_Expired: "quiet (Expired w h)"
  unfolding Expired_def by (intro quiet_andThen quiet_WeakPtr_UseCount) simp

lemma quiet_UseCount: "quiet (UseCount s h)"
  by (simp add: UseCount_def quiet_GetRefCount split: option.splits)

lemma quiet_WeakPtr_copy: "quiet (WeakPtr_copy w h)"
  by (auto simp: WeakPtr_copy_def Let_def split: option.splits
        intro!: quiet_andThen quiet_IncrementWeakRefCounter)

lemma quiet_WeakPtr_from_shared: "quiet (WeakPtr_from_shared s h)"
  by (auto simp: WeakPtr_from_shared_def Let_def split: option.splits
        intro!: quiet_andThen quiet_IncrementWeakRefCounter)

lemma quiet_WeakPtr_assign: "quiet (WeakPtr_assign this other h)"
  unfolding WeakPtr_assign_def Let_def
  by (intro quiet_andThen quiet_dec_weak_opt) (auto split: option.splits
        intro!: quiet_andThen quiet_IncrementWeakRefCounter)

lemma quiet_WeakPtr_copy_assign: "quiet (WeakPtr_copy_assign this src h)"
  unfolding WeakPtr_copy_assign_def
  by (intro quiet_andThen quiet_WeakPtr_copy)
     (auto intro!: quiet_andThen quiet_WeakPtr_assign quiet_WeakPtr_dtor)

lemma quiet_WeakPtr_move_assign: "quiet (WeakPtr_move_assign this src h)"
  unfolding WeakPtr_move_assign_def WeakPtr_move_def Let_def
  by (auto intro!: quiet_andThen quiet_WeakPtr_assign quiet_WeakPtr_dtor)

lemma quiet_WeakPtr_Reset: "quiet (WeakPtr_Reset this h)"
  unfolding WeakPtr_Reset_def
  by (auto intro!: quiet_andThen quiet_WeakPtr_assign quiet_WeakPtr_dtor)

lemma quiet_install_weak_this: "quiet (install_weak_this this ptr h)"
  unfolding install_weak_this_def
  by (auto split: option.splits payload.splits
        intro!: quiet_andThen quiet_WeakPtr_from_shared quiet_WeakPtr_assign quiet_WeakPtr_dtor)

lemma quiet_SharedPtr_from_raw: "quiet (SharedPtr_from_raw esft ptr h)"
  unfolding SharedPtr_from_raw_def Let_def
  by (auto intro!: quiet_andThen quiet_IncrementRefCounter quiet_install_weak_this)

lemma quiet_MakeShared: "quiet (MakeShared esft h)"
  unfolding MakeShared_def Let_def
  by (auto intro!: quiet_andThen quiet_IncrementRefCounter quiet_install_weak_this)

lemma quiet_SharedPtr_copy: "quiet (SharedPtr_copy s h)"
  by (auto simp: SharedPtr_copy_def Let_def split: option.splits
        intro!: quiet_andThen quiet_IncrementRefCounter)

lemma quiet_SharedPtr_alias: "quiet (SharedPtr_alias s q h)"
  by (auto simp: SharedPtr_alias_def Let_def split: option.splits
        intro!: quiet_andThen quiet_IncrementRefCounter)

lemma quiet_SharedPtr_dtor: "quiet (SharedPtr_dtor s h)"
  by (simp add: SharedPtr_dtor_def quiet_DecrementRefCounter split: option.splits)

lemma quiet_SharedPtr_assign: "quiet (SharedPtr_assign this other h)"
  unfolding SharedPtr_assign_def Let_def
  by (intro quiet_andThen quiet_dec_strong_opt) (auto split: option.splits
        intro!: quiet_andThen quiet_IncrementRefCounter)

lemma quiet_SharedPtr_copy_assign: "quiet (SharedPtr_copy_assign this src h)"
  unfolding SharedPtr_copy_assign_def
  by (intro quiet_andThen quiet_SharedPtr_copy)
     (auto intro!: quiet_andThen quiet_SharedPtr_assign quiet_SharedPtr_dtor)

lemma quiet_SharedPtr_move_assign: "quiet (SharedPtr_move_assign this src h)"
  unfolding SharedPtr_move_assign_def SharedPtr_move_def Let_def
  by (auto intro!: quiet_andThen quiet_SharedPtr_assign quiet_SharedPtr_dtor)

lemma quiet_SharedPtr_Reset: "quiet (SharedPtr_Reset this h)"
  unfolding SharedPtr_Reset_def
  by (auto intro!: quiet_andThen quiet_SharedPtr_assign quiet_SharedPtr_dtor)

lemma quiet_SharedPtr_Reset_ptr: "quiet (SharedPtr_Reset_ptr esft this ptr h)"
  unfolding SharedPtr_Reset_ptr_def
  by (intro quiet_andThen quiet_SharedPtr_from_raw)
     (auto intro!: quiet_andThen quiet_SharedPtr_assign quiet_SharedPtr_dtor)

lemma quiet_WeakFromThis: "quiet (WeakFromThis p h)"
  by (simp add: WeakFromThis_def quiet_WeakPtr_copy split: option.splits payload.splits)

lemma promote_throws_iff:
  "(SharedPtr_from_weak w h = Inl BadWeakPtr) = (WeakPtr_UseCount w h = Inr 0)"
proof (cases "WeakPtr_UseCount w h")
  case (Inl e)
  then have "e = UndefinedBehavior"
    using quiet_WeakPtr_UseCount [of w h] by (cases e) (simp_all add: quiet_def)
  then show ?thesis using Inl by (simp add: SharedPtr_from_weak_def Expired_def)
next
  case (Inr n)
  have "quiet (case wblock w of None \<Rightarrow> Inr (h, \<lparr>block = wblock w, observer = wobserver w\<rparr>)
          | Some b \<Rightarrow> andThen (IncrementRefCounter b h)
              (\<lambda>h'. Inr (h', \<lparr>block = wblock w, observer = wobserver w\<rparr>)))"
    by (auto split: option.splits intro!: quiet_andThen quiet_IncrementRefCounter)
  then show ?thesis
    using Inr by (simp add: SharedPtr_from_weak_def Expired_def Let_def quiet_def)
qed

lemma quiet_Lock: "quiet (Lock w h)"
proof (cases "Expired w h")
  case (Inl e)
  then have "e = UndefinedBehavior"
    using quiet_Expired [of w h] by (cases e) (simp_all add: quiet_def)
  then show ?thesis using Inl by (simp add: Lock_def)
next
  case (Inr x)
  then have "SharedPtr_from_weak w h \<noteq> Inl BadWeakPtr" if "\<not> x"
    using that by (auto simp: promote_throws_iff Expired_def)
  then show ?thesis using Inr by (auto simp: Lock_def quiet_def)
qed

lemma promote_shares:
  assumes "WeakPtr_UseCount w h = Inr n" and "n \<noteq> 0"
  shows "case wblock w of
           None \<Rightarrow> False
         | Some b \<Rightarrow>
             (case blocks h b of
                None \<Rightarrow> False
              | Some cb \<Rightarrow>
                  ref_counter cb = n \<and>
                  SharedPtr_from_weak w h =
                    Inr (h\<lparr>blocks := (blocks h)(b \<mapsto>
                           cb\<lparr>ref_counter := ref_counter cb + 1,
                              weak_ref_counter := weak_ref_counter cb + 1\<rparr>)\<rparr>,
                         \<lparr>block = wblock w, observer = wobserver w\<rparr>))"
  using assms
  by (auto simp: WeakPtr_UseCount_def GetRefCount_def SharedPtr_from_weak_def Expired_def
        IncrementRefCounter_def Let_def split: option.splits)

section \<open>Promotion, expiry and Lock\<close>

text \<open>
  C3. Promotion throws \<^verbatim>\<open>BadWeakPtr\<close> exactly when the weak handle reports the
  use count 0. When it reports a count \<open>n\<close> other than 0, the handle has a block, the
  block's strong count is \<open>n\<close>, and promotion returns the heap in which that block's
  strong count (and weak count) is one higher, together with a strong handle on the
  weak handle's block and pointer. \<^verbatim>\<open>SharedFromThis\<close> throws only through the
  promotion of \<^verbatim>\<open>weak_this_\<close>; no other operation of the control block, the
  weak handle or the strong handle, nor \<^verbatim>\<open>MakeShared\<close> or
  \<^verbatim>\<open>WeakFromThis\<close>, throws it on any input.
\<close>

theorem promotion_is_the_only_throw:
  "(SharedPtr_from_weak w h = Inl BadWeakPtr) = (WeakPtr_UseCount w h = Inr 0) \<and>
   (WeakPtr_UseCount w h = Inr n \<and> n \<noteq> 0 \<longrightarrow>
      (case wblock w of
         None \<Rightarrow> False
       | Some b \<Rightarrow>
           (case blocks h b of
              None \<Rightarrow> False
            | Some cb \<Rightarrow>
                ref_counter cb = n \<and>
                SharedPtr_from_weak w h =
                  Inr (h\<lparr>blocks := (blocks h)(b \<mapsto>
                         cb\<lparr>ref_counter := ref_counter cb + 1,
                            weak_ref_counter := weak_ref_counter cb + 1\<rparr>)\<rparr>,
                       \<lparr>block = wblock w, observer = wobserver w\<rparr>)))) \<and>
   (SharedFromThis p h = Inl BadWeakPtr \<longrightarrow>
      (case objects h p of
         Some (ESFT wt) \<Rightarrow> SharedPtr_from_weak wt h = Inl BadWeakPtr
       | _ \<Rightarrow> False)) \<and>
   quiet (IncrementRefCounter b h) \<and> quiet (DecrementRefCounter b h) \<and>
   quiet (IncrementWeakRefCounter b h) \<and> quiet (DecrementWeakRefCounter b h) \<and>
   quiet (GetRefCount b h) \<and>
   quiet (WeakPtr_copy w h) \<and> quiet (WeakPtr_from_shared s h) \<and>
   quiet (WeakPtr_assign w w' h) \<and> quiet (WeakPtr_copy_assign w w' h) \<and>
   quiet (WeakPtr_move_assign w w' h) \<and> quiet (WeakPtr_Reset w h) \<and>
   quiet (WeakPtr_dtor w h) \<and> quiet (WeakPtr_UseCount w h) \<and> quiet (Expired w h) \<and>
   quiet (Lock w h) \<and>
   quiet (SharedPtr_from_raw esft ptr h) \<and> quiet (MakeShared esft h) \<and>
   quiet (SharedPtr_copy s h) \<and> quiet (SharedPtr_alias s ptr h) \<and>
   quiet (SharedPtr_assign s s' h) \<and> quiet (SharedPtr_copy_assign s s' h) \<and>
   quiet (SharedPtr_move_assign s s' h) \<and> quiet (SharedPtr_Reset s h) \<and>
   quiet (SharedPtr_Reset_ptr esft s ptr h) \<and> quiet (SharedPtr_dtor s h) \<and>
   quiet (UseCount s h) \<and> quiet (WeakFromThis p h)"
proof -
  have a: "WeakPtr_UseCount w h = Inr n \<and> n \<noteq> 0 \<longrightarrow>
      (case wblock w of
         None \<Rightarrow> False
       | Some b \<Rightarrow>
           (case blocks h b of
              None \<Rightarrow> False
            | Some cb \<Rightarrow>
                ref_counter cb = n \<and>
                SharedPtr_from_weak w h =
                  Inr (h\<lparr>blocks := (blocks h)(b \<mapsto>
                         cb\<lparr>ref_counter := ref_counter cb + 1,
                            weak_ref_counter := weak_ref_counter cb + 1\<rparr>)\<rparr>,
                       \<lparr>block = wblock w, observer = wobserver w\<rparr>)))"
    using promote_shares [of w h n] by blast
  have b: "SharedFromThis p h = Inl BadWeakPtr \<longrightarrow>
      (case objects h p of
         Some (ESFT wt) \<Rightarrow> SharedPtr_from_weak wt h = Inl BadWeakPtr
       | _ \<Rightarrow> False)"
    by (simp add: SharedFromThis_def split: option.splits payload.splits)
  show ?thesis
    by (intro conjI a b promote_throws_iff quiet_IncrementRefCounter quiet_DecrementRefCounter
        quiet_IncrementWeakRefCounter quiet_DecrementWeakRefCounter quiet_GetRefCount
        quiet_WeakPtr_copy quiet_WeakPtr_from_shared quiet_WeakPtr_assign
        quiet_WeakPtr_copy_assign quiet_WeakPtr_move_assign quiet_WeakPtr_Reset
        quiet_WeakPtr_dtor quiet_WeakPtr_UseCount quiet_Expired quiet_Lock
        quiet_SharedPtr_from_raw quiet_MakeShared quiet_SharedPtr_copy quiet_SharedPtr_alias
        quiet_SharedPtr_assign quiet_SharedPtr_copy_assign quiet_SharedPtr_move_assign
        quiet_SharedPtr_Reset quiet_SharedPtr_Reset_ptr quiet_SharedPtr_dtor quiet_UseCount
        quiet_WeakFromThis)
qed

text \<open>
  The witness: a weak handle on a block with two strong handles is promoted (the
  count becomes 3); on a block whose strong count is 0, and for a self-referencing
  payload whose \<^verbatim>\<open>weak_this_\<close> is still empty, promotion throws.
\<close>

theorem promotion_is_the_only_throw_witness:
  "WeakPtr_UseCount \<lparr>wblock = Some 0, wobserver = Some 1\<rparr>
     (empty_heap\<lparr>blocks := [0 \<mapsto> \<lparr>storage = WithPtr (Some 1), ref_counter = 2,
                                    weak_ref_counter = 3\<rparr>]\<rparr>) = Inr 2 \<and>
   SharedPtr_from_weak \<lparr>wblock = Some 0, wobserver = Some 1\<rparr>
     (empty_heap\<lparr>blocks := [0 \<mapsto> \<lparr>storage = WithPtr (Some 1), ref_counter = 2,
                                    weak_ref_counter = 3\<rparr>]\<rparr>) =
     Inr (empty_heap\<lparr>blocks := [0 \<mapsto> \<lparr>storage = WithPtr (Some 1), ref_counter = 3,
                                         weak_ref_counter = 4\<rparr>]\<rparr>,
          \<lparr>block = Some 0, observer = Some 1\<rparr>) \<and>
   SharedPtr_from_weak \<lparr>wblock = Some 0, wobserver = Some 1\<rparr>
     (empty_heap\<lparr>blocks := [0 \<mapsto> \<lparr>storage = WithPtr (Some 1), ref_counter = 0,
                                    weak_ref_counter = 1\<rparr>]\<rparr>) = Inl BadWeakPtr \<and>
   SharedFromThis 1 (empty_heap\<lparr>objects := [1 \<mapsto> ESFT WeakPtr_default]\<rparr>) = Inl BadWeakPtr \<and>
   SharedPtr_from_weak WeakPtr_default
     (empty_heap\<lparr>objects := [1 \<mapsto> ESFT WeakPtr_default]\<rparr>) = Inl BadWeakPtr"
proof -
  let ?w = "\<lparr>wblock = Some 0, wobserver = Some 1\<rparr>"
  let ?cb = "\<lparr>storage = WithPtr (Some 1), ref_counter = 2, weak_ref_counter = 3\<rparr>"
  let ?h = "empty_heap\<lparr>blocks := [0 \<mapsto> ?cb]\<rparr>"
  let ?hz = "empty_heap\<lparr>blocks := [0 \<mapsto> \<lparr>storage = WithPtr (Some 1), ref_counter = 0,
                                    weak_ref_counter = 1\<rparr>]\<rparr>"
  let ?hs = "empty_heap\<lparr>objects := [1 \<mapsto> ESFT WeakPtr_default]\<rparr>"
  have u: "WeakPtr_UseCount ?w ?h = Inr 2"
    by (simp add: WeakPtr_UseCount_def GetRefCount_def)
  have a: "SharedPtr_from_weak ?w ?h =
     Inr (empty_heap\<lparr>blocks := [0 \<mapsto> \<lparr>storage = WithPtr (Some 1), ref_counter = 3,
                                         weak_ref_counter = 4\<rparr>]\<rparr>,
          \<lparr>block = Some 0, observer = Some 1\<rparr>)"
    using conjunct1 [OF conjunct2 [OF promotion_is_the_only_throw [of ?w ?h 2]]] u
    by simp
  have u0: "WeakPtr_UseCount ?w ?hz = Inr 0"
    by (simp add: WeakPtr_UseCount_def GetRefCount_def)
  have b: "SharedPtr_from_weak ?w ?hz = Inl BadWeakPtr"
    using conjunct1 [OF promotion_is_the_only_throw [of ?w ?hz]] u0 by simp
  have c: "SharedFromThis 1 ?hs = Inl BadWeakPtr"
    by (simp add: SharedFromThis_def SharedPtr_from_weak_def Expired_def WeakPtr_UseCount_def
          WeakPtr_default_def)
  have d: "SharedPtr_from_weak WeakPtr_default ?hs = Inl BadWeakPtr"
    using conjunct1 [OF conjunct2 [OF conjunct2
            [OF promotion_is_the_only_throw [where p = 1 and h = ?hs]]]] c
    by simp
  from u a b c d show ?thesis by blast
qed

lemma expired_when_unowned:
  assumes "wblock w = None \<or>
           (case wblock w of None \<Rightarrow> False
            | Some b \<Rightarrow> (case blocks h b of None \<Rightarrow> False | Some cb \<Rightarrow> ref_counter cb = 0))"
  shows "Expired w h = Inr True \<and> Lock w h = Inr (h, SharedPtr_default)"
  using assms
  by (auto simp: Expired_def Lock_def WeakPtr_UseCount_def GetRefCount_def split: option.splits)

lemma lock_promotes:
  "Expired w h = Inr False \<Longrightarrow>
   Lock w h = SharedPtr_from_weak w h \<and> returns (Lock w h) (\<lambda>(h', s).
     block s = wblock w \<and> observer s = wobserver w \<and> wblock w \<noteq> None)"
  by (auto simp: Lock_def SharedPtr_from_weak_def Expired_def WeakPtr_UseCount_def
        GetRefCount_def IncrementRefCounter_def Let_def split: option.splits)

lemma weak_in_config:
  assumes "config_inv b p e st g" and "w \<in> set (weaks g)"
  shows "weak_ok b w \<and> (wblock w = Some b \<longrightarrow> 0 < watchers b (weaks g))"
proof -
  obtain i where i: "i < length (weaks g)" and w: "weaks g ! i = w"
    using assms(2) by (auto simp: in_set_conv_nth)
  show ?thesis
    using inv_weak [OF assms(1) i] watchers_nth_le [OF i, of b] w
    by (auto simp: watches_def)
qed

lemma all_expired:
  assumes "config_inv b p e st g" and "owners b (strongs g) = 0"
    and "owners b (strongs g) + watchers b (weaks g) + 2 < 2 ^ 64"
  shows "list_all (\<lambda>w. Expired w (mem g) = Inr True \<and>
                        Lock w (mem g) = Inr (mem g, SharedPtr_default)) (weaks g)"
  unfolding list_all_iff
proof
  fix w assume "w \<in> set (weaks g)"
  from weak_in_config [OF assms(1) this]
  have ok: "weak_ok b w" and pos: "wblock w = Some b \<longrightarrow> 0 < owners b (strongs g) + watchers b (weaks g)"
    by simp_all
  show "Expired w (mem g) = Inr True \<and> Lock w (mem g) = Inr (mem g, SharedPtr_default)"
    using expired_state [OF inv_heap [OF assms(1)] ok pos assms(3)]
      lock_expired [OF inv_heap [OF assms(1)] ok pos assms(3)] assms(2)
    by simp
qed

text \<open>
  C4. \<^verbatim>\<open>Lock\<close> never throws. For a weak handle that is empty, or whose block
  has the strong count 0, \<^verbatim>\<open>Expired\<close> is true and \<^verbatim>\<open>Lock\<close> returns the
  empty strong handle and leaves the heap as it is. For a weak handle that is not
  expired, \<^verbatim>\<open>Lock\<close> is the promotion, and it returns a strong handle on the weak
  handle's block and pointer. In every configuration a program reaches in which no
  strong handle is left, each of its weak handles is expired and locks to the empty
  handle, however many weak handles remain.
\<close>

theorem lock_never_throws:
  assumes "well_started esft origin h0" and "length xs + 7 < 2 ^ 64"
  shows "quiet (Lock w h) \<and>
         (wblock w = None \<or>
          (case wblock w of None \<Rightarrow> False
           | Some b \<Rightarrow> (case blocks h b of None \<Rightarrow> False | Some cb \<Rightarrow> ref_counter cb = 0)) \<longrightarrow>
            Expired w h = Inr True \<and> Lock w h = Inr (h, SharedPtr_default)) \<and>
         (Expired w h = Inr False \<longrightarrow>
            Lock w h = SharedPtr_from_weak w h \<and>
            returns (Lock w h) (\<lambda>(h', s).
              block s = wblock w \<and> observer s = wobserver w \<and> wblock w \<noteq> None)) \<and>
         returns (andThen (start esft origin h0) (run (payload_at origin h0) xs)) (\<lambda>g.
           owners (brk h0) (strongs g) = 0 \<longrightarrow>
             list_all (\<lambda>w. Expired w (mem g) = Inr True \<and>
                            Lock w (mem g) = Inr (mem g, SharedPtr_default)) (weaks g))"
proof -
  let ?b = "brk h0" and ?p = "payload_at origin h0" and ?st = "block_storage origin h0"
  obtain g where r: "andThen (start esft origin h0) (run ?p xs) = Inr g"
    and inv: "config_inv ?b ?p esft ?st g"
    and bd: "owners ?b (strongs g) + watchers ?b (weaks g) + 2 < 2 ^ 64"
    using returnsD [OF reach_step [OF assms, of "Copy 0"]] by blast
  have "owners ?b (strongs g) = 0 \<longrightarrow>
             list_all (\<lambda>w. Expired w (mem g) = Inr True \<and>
                            Lock w (mem g) = Inr (mem g, SharedPtr_default)) (weaks g)"
    using all_expired [OF inv _ bd] by blast
  then show ?thesis
    unfolding r returns_Inr
    using quiet_Lock [of w h] expired_when_unowned [of w h] lock_promotes [of w h]
    by blast
qed

text \<open>
  The witness: two weak handles are demoted from the only strong handle, which is then
  destroyed; both are expired and lock to the empty handle. Before that, a weak handle
  on a block with the strong count 1 locks to a second owner.
\<close>

theorem lock_never_throws_witness:
  "well_started False (FromRaw 7) (empty_heap\<lparr>objects := [7 \<mapsto> Plain]\<rparr>) \<and>
   length [Demote 0, Demote 0, Destroy 0] + 7 < (2::nat) ^ 64 \<and>
   returns (andThen (start False (FromRaw 7) (empty_heap\<lparr>objects := [7 \<mapsto> Plain]\<rparr>))
              (run 7 [Demote 0, Demote 0, Destroy 0])) (\<lambda>g.
     owners 0 (strongs g) = 0 \<and>
     weaks g = [\<lparr>wblock = Some 0, wobserver = Some 7\<rparr>, \<lparr>wblock = Some 0, wobserver = Some 7\<rparr>] \<and>
     blocks (mem g) 0 = Some \<lparr>storage = WithPtr (Some 7), ref_counter = 0, weak_ref_counter = 2\<rparr> \<and>
     trace (mem g) = [PayloadDestroyed 7] \<and>
     list_all (\<lambda>w. Expired w (mem g) = Inr True \<and>
                    Lock w (mem g) = Inr (mem g, SharedPtr_default)) (weaks g)) \<and>
   Expired \<lparr>wblock = Some 0, wobserver = Some 7\<rparr>
     (empty_heap\<lparr>blocks := [0 \<mapsto> \<lparr>storage = WithPtr (Some 7), ref_counter = 1,
                                    weak_ref_counter = 2\<rparr>]\<rparr>) = Inr False \<and>
   returns (Lock \<lparr>wblock = Some 0, wobserver = Some 7\<rparr>
     (empty_heap\<lparr>blocks := [0 \<mapsto> \<lparr>storage = WithPtr (Some 7), ref_counter = 1,
                                    weak_ref_counter = 2\<rparr>]\<rparr>))
     (\<lambda>(h', s). s = \<lparr>block = Some 0, observer = Some 7\<rparr> \<and>
        blocks h' 0 = Some \<lparr>storage = WithPtr (Some 7), ref_counter = 2, weak_ref_counter = 3\<rparr>)"
proof -
  let ?hp = "empty_heap\<lparr>objects := [7 \<mapsto> Plain]\<rparr>"
  let ?w = "\<lparr>wblock = Some 0, wobserver = Some 7\<rparr>"
  let ?hb = "empty_heap\<lparr>blocks := [0 \<mapsto> \<lparr>storage = WithPtr (Some 7), ref_counter = 1,
                                    weak_ref_counter = 2\<rparr>]\<rparr>"
  have a: "well_started False (FromRaw 7) ?hp"
    by (simp add: well_started_def empty_heap_def fresh_payload_def)
  have b: "length [Demote 0, Demote 0, Destroy 0] + 7 < (2::nat) ^ 64"
    by simp
  note t = lock_never_throws [OF a b, of ?w ?hb]
  have c: "returns (andThen (start False (FromRaw 7) ?hp) (run 7 [Demote 0, Demote 0, Destroy 0]))
     (\<lambda>g. owners 0 (strongs g) = 0 \<and>
       weaks g = [?w, ?w] \<and>
       blocks (mem g) 0 = Some \<lparr>storage = WithPtr (Some 7), ref_counter = 0, weak_ref_counter = 2\<rparr> \<and>
       trace (mem g) = [PayloadDestroyed 7])"
    by (simp add: eval_defs)
  have d: "returns (andThen (start False (FromRaw 7) ?hp) (run 7 [Demote 0, Demote 0, Destroy 0]))
     (\<lambda>g. owners 0 (strongs g) = 0 \<longrightarrow>
        list_all (\<lambda>w. Expired w (mem g) = Inr True \<and>
                       Lock w (mem g) = Inr (mem g, SharedPtr_default)) (weaks g))"
    using conjunct2 [OF conjunct2 [OF conjunct2 [OF t]]]
    by (simp add: payload_at_def empty_heap_def)
  have e: "Expired ?w ?hb = Inr False"
    by (simp add: Expired_def WeakPtr_UseCount_def GetRefCount_def)
  have f: "returns (Lock ?w ?hb)
     (\<lambda>(h', s). s = \<lparr>block = Some 0, observer = Some 7\<rparr> \<and>
        blocks h' 0 = Some \<lparr>storage = WithPtr (Some 7), ref_counter = 2, weak_ref_counter = 3\<rparr>)"
    using conjunct1 [OF conjunct2 [OF conjunct2 [OF t]]] e
    by (simp add: SharedPtr_from_weak_def IncrementRefCounter_def)
  have cd: "returns (andThen (start False (FromRaw 7) ?hp) (run 7 [Demote 0, Demote 0, Destroy 0]))
     (\<lambda>g. owners 0 (strongs g) = 0 \<and>
       weaks g = [?w, ?w] \<and>
       blocks (mem g) 0 = Some \<lparr>storage = WithPtr (Some 7), ref_counter = 0, weak_ref_counter = 2\<rparr> \<and>
       trace (mem g) = [PayloadDestroyed 7] \<and>
       list_all (\<lambda>w. Expired w (mem g) = Inr True \<and>
                      Lock w (mem g) = Inr (mem g, SharedPtr_default)) (weaks g))"
    using c d by (cases "andThen (start False (FromRaw 7) ?hp) (run 7 [Demote 0, Demote 0, Destroy 0])")
      simp_all
  from a b cd e f show ?thesis by blast
qed

section \<open>The self-reference capability\<close>

lemma raw_installs:
  assumes "objects h p = Some (fresh_payload True)"
  shows "SharedPtr_from_raw True (Some p) h =
           Inr (h\<lparr>blocks := (blocks h)(brk h \<mapsto>
                    \<lparr>storage = WithPtr (Some p), ref_counter = 1, weak_ref_counter = 2\<rparr>),
                  objects := (objects h)(p \<mapsto> ESFT \<lparr>wblock = Some (brk h), wobserver = Some p\<rparr>),
                  brk := brk h + 1\<rparr>,
                \<lparr>block = Some (brk h), observer = Some p\<rparr>)"
  using assms
  by (simp add: SharedPtr_from_raw_def Let_def IncrementRefCounter_def
       install_weak_this_def fresh_payload_def WeakPtr_from_shared_def WeakPtr_assign_def
       WeakPtr_default_def IncrementWeakRefCounter_def WeakPtr_dtor_def
       DecrementWeakRefCounter_def)

lemma make_installs:
  "MakeShared True h =
     Inr (h\<lparr>blocks := (blocks h)(brk h \<mapsto>
              \<lparr>storage = Owning (brk h + 1), ref_counter = 1, weak_ref_counter = 2\<rparr>),
            objects := (objects h)(brk h + 1 \<mapsto>
              ESFT \<lparr>wblock = Some (brk h), wobserver = Some (brk h + 1)\<rparr>),
            brk := brk h + 2\<rparr>,
          \<lparr>block = Some (brk h), observer = Some (brk h + 1)\<rparr>)"
  by (simp add: MakeShared_def Let_def IncrementRefCounter_def
       install_weak_this_def WeakPtr_from_shared_def WeakPtr_assign_def
       WeakPtr_default_def IncrementWeakRefCounter_def WeakPtr_dtor_def
       DecrementWeakRefCounter_def)

lemmas accessor_defs =
  SharedFromThis_def WeakFromThis_def SharedPtr_from_weak_def Expired_def
  WeakPtr_UseCount_def GetRefCount_def IncrementRefCounter_def WeakPtr_copy_def
  IncrementWeakRefCounter_def Let_def operator_eq_def Get_def UseCount_def

text \<open>
  C6. For a payload type with the self-reference capability, the constructor from a
  raw pointer \<open>p\<close> to a fresh payload, and \<^verbatim>\<open>MakeShared\<close>, return a strong
  handle on a new block and leave in the payload's \<^verbatim>\<open>weak_this_\<close> a weak
  handle on that block and that payload (the block then counts 1 strong and 2 weak
  references). After either, \<^verbatim>\<open>SharedFromThis\<close> returns a strong handle on the
  same block and the same payload, equal to the first, with the use count 2; it is an
  owner of its own (the block counts 2 strong and 3 weak references, nothing else
  changes) and destroying it gives the heap back. \<^verbatim>\<open>WeakFromThis\<close> returns a
  copy of \<^verbatim>\<open>weak_this_\<close>: it is what the copy constructor makes of the member,
  a weak handle with the member's block and pointer that the block counts as one more
  weak reference (3 instead of 2) while the member and everything else stay as they
  are; destroying the copy gives the heap back, and destroying the copy and then the
  first strong handle destroys the payload and then the block. For a payload type
  without the capability neither constructor touches the payload.
\<close>

theorem first_handle_installs_weak_this:
  "(objects h p = Some (fresh_payload True) \<longrightarrow>
      returns (SharedPtr_from_raw True (Some p) h) (\<lambda>(h', s).
        s = \<lparr>block = Some (brk h), observer = Some p\<rparr> \<and>
        blocks h' (brk h) =
          Some \<lparr>storage = WithPtr (Some p), ref_counter = 1, weak_ref_counter = 2\<rparr> \<and>
        objects h' p = Some (ESFT \<lparr>wblock = block s, wobserver = observer s\<rparr>) \<and>
        returns (SharedFromThis p h') (\<lambda>(h'', s').
          block s' = block s \<and> observer s' = Some p \<and> operator_eq s' s \<and>
          UseCount s h'' = Inr 2 \<and>
          h'' = h'\<lparr>blocks := (blocks h')(brk h \<mapsto>
                   \<lparr>storage = WithPtr (Some p), ref_counter = 2, weak_ref_counter = 3\<rparr>)\<rparr> \<and>
          SharedPtr_dtor s' h'' = Inr h') \<and>
        returns (WeakFromThis p h') (\<lambda>(h'', w).
          objects h' p = Some (ESFT w) \<and> objects h'' p = Some (ESFT w) \<and>
          wblock w = block s \<and> wobserver w = Some p \<and>
          WeakFromThis p h' = WeakPtr_copy \<lparr>wblock = block s, wobserver = observer s\<rparr> h' \<and>
          h'' = h'\<lparr>blocks := (blocks h')(brk h \<mapsto>
                   \<lparr>storage = WithPtr (Some p), ref_counter = 1, weak_ref_counter = 3\<rparr>)\<rparr> \<and>
          WeakPtr_dtor w h'' = Inr h' \<and>
          returns (andThen (WeakPtr_dtor w h'') (SharedPtr_dtor s)) (\<lambda>h3.
            blocks h3 (brk h) = None \<and> objects h3 p = None \<and>
            trace h3 = trace h @ [PayloadDestroyed p, BlockDestroyed (brk h)])))) \<and>
   returns (MakeShared True h) (\<lambda>(h', s).
     s = \<lparr>block = Some (brk h), observer = Some (brk h + 1)\<rparr> \<and>
     blocks h' (brk h) =
       Some \<lparr>storage = Owning (brk h + 1), ref_counter = 1, weak_ref_counter = 2\<rparr> \<and>
     objects h' (brk h + 1) = Some (ESFT \<lparr>wblock = block s, wobserver = observer s\<rparr>) \<and>
     returns (SharedFromThis (brk h + 1) h') (\<lambda>(h'', s').
       block s' = block s \<and> observer s' = Some (brk h + 1) \<and> operator_eq s' s \<and>
       UseCount s h'' = Inr 2 \<and>
       h'' = h'\<lparr>blocks := (blocks h')(brk h \<mapsto>
                \<lparr>storage = Owning (brk h + 1), ref_counter = 2, weak_ref_counter = 3\<rparr>)\<rparr> \<and>
       SharedPtr_dtor s' h'' = Inr h') \<and>
     returns (WeakFromThis (brk h + 1) h') (\<lambda>(h'', w).
       objects h' (brk h + 1) = Some (ESFT w) \<and> objects h'' (brk h + 1) = Some (ESFT w) \<and>
       wblock w = block s \<and> wobserver w = Some (brk h + 1) \<and>
       WeakFromThis (brk h + 1) h' =
         WeakPtr_copy \<lparr>wblock = block s, wobserver = observer s\<rparr> h' \<and>
       h'' = h'\<lparr>blocks := (blocks h')(brk h \<mapsto>
                \<lparr>storage = Owning (brk h + 1), ref_counter = 1, weak_ref_counter = 3\<rparr>)\<rparr> \<and>
       WeakPtr_dtor w h'' = Inr h' \<and>
       returns (andThen (WeakPtr_dtor w h'') (SharedPtr_dtor s)) (\<lambda>h3.
         blocks h3 (brk h) = None \<and> objects h3 (brk h + 1) = None \<and>
         trace h3 = trace h @ [PayloadDestroyed (brk h + 1), BlockDestroyed (brk h)]))) \<and>
   returns (SharedPtr_from_raw False (Some p) h) (\<lambda>(h', s). objects h' = objects h) \<and>
   returns (MakeShared False h) (\<lambda>(h', s). objects h' (brk h + 1) = Some Plain)"
proof -
  have raw: "objects h p = Some (fresh_payload True) \<longrightarrow>
      returns (SharedPtr_from_raw True (Some p) h) (\<lambda>(h', s).
        s = \<lparr>block = Some (brk h), observer = Some p\<rparr> \<and>
        blocks h' (brk h) =
          Some \<lparr>storage = WithPtr (Some p), ref_counter = 1, weak_ref_counter = 2\<rparr> \<and>
        objects h' p = Some (ESFT \<lparr>wblock = block s, wobserver = observer s\<rparr>) \<and>
        returns (SharedFromThis p h') (\<lambda>(h'', s').
          block s' = block s \<and> observer s' = Some p \<and> operator_eq s' s \<and>
          UseCount s h'' = Inr 2 \<and>
          h'' = h'\<lparr>blocks := (blocks h')(brk h \<mapsto>
                   \<lparr>storage = WithPtr (Some p), ref_counter = 2, weak_ref_counter = 3\<rparr>)\<rparr> \<and>
          SharedPtr_dtor s' h'' = Inr h') \<and>
        returns (WeakFromThis p h') (\<lambda>(h'', w).
          objects h' p = Some (ESFT w) \<and> objects h'' p = Some (ESFT w) \<and>
          wblock w = block s \<and> wobserver w = Some p \<and>
          WeakFromThis p h' = WeakPtr_copy \<lparr>wblock = block s, wobserver = observer s\<rparr> h' \<and>
          h'' = h'\<lparr>blocks := (blocks h')(brk h \<mapsto>
                   \<lparr>storage = WithPtr (Some p), ref_counter = 1, weak_ref_counter = 3\<rparr>)\<rparr> \<and>
          WeakPtr_dtor w h'' = Inr h' \<and>
          returns (andThen (WeakPtr_dtor w h'') (SharedPtr_dtor s)) (\<lambda>h3.
            blocks h3 (brk h) = None \<and> objects h3 p = None \<and>
            trace h3 = trace h @ [PayloadDestroyed p, BlockDestroyed (brk h)])))"
  proof
    assume f: "objects h p = Some (fresh_payload True)"
    show "returns (SharedPtr_from_raw True (Some p) h) (\<lambda>(h', s).
        s = \<lparr>block = Some (brk h), observer = Some p\<rparr> \<and>
        blocks h' (brk h) =
          Some \<lparr>storage = WithPtr (Some p), ref_counter = 1, weak_ref_counter = 2\<rparr> \<and>
        objects h' p = Some (ESFT \<lparr>wblock = block s, wobserver = observer s\<rparr>) \<and>
        returns (SharedFromThis p h') (\<lambda>(h'', s').
          block s' = block s \<and> observer s' = Some p \<and> operator_eq s' s \<and>
          UseCount s h'' = Inr 2 \<and>
          h'' = h'\<lparr>blocks := (blocks h')(brk h \<mapsto>
                   \<lparr>storage = WithPtr (Some p), ref_counter = 2, weak_ref_counter = 3\<rparr>)\<rparr> \<and>
          SharedPtr_dtor s' h'' = Inr h') \<and>
        returns (WeakFromThis p h') (\<lambda>(h'', w).
          objects h' p = Some (ESFT w) \<and> objects h'' p = Some (ESFT w) \<and>
          wblock w = block s \<and> wobserver w = Some p \<and>
          WeakFromThis p h' = WeakPtr_copy \<lparr>wblock = block s, wobserver = observer s\<rparr> h' \<and>
          h'' = h'\<lparr>blocks := (blocks h')(brk h \<mapsto>
                   \<lparr>storage = WithPtr (Some p), ref_counter = 1, weak_ref_counter = 3\<rparr>)\<rparr> \<and>
          WeakPtr_dtor w h'' = Inr h' \<and>
          returns (andThen (WeakPtr_dtor w h'') (SharedPtr_dtor s)) (\<lambda>h3.
            blocks h3 (brk h) = None \<and> objects h3 p = None \<and>
            trace h3 = trace h @ [PayloadDestroyed p, BlockDestroyed (brk h)])))"
      by (simp add: raw_installs [OF f] accessor_defs SharedPtr_dtor_def WeakPtr_dtor_def
            DecrementRefCounter_def DecrementWeakRefCounter_def guarded_release_def
            release_payload_def destroy_payload_def delete_this_def)
  qed
  have make: "returns (MakeShared True h) (\<lambda>(h', s).
     s = \<lparr>block = Some (brk h), observer = Some (brk h + 1)\<rparr> \<and>
     blocks h' (brk h) =
       Some \<lparr>storage = Owning (brk h + 1), ref_counter = 1, weak_ref_counter = 2\<rparr> \<and>
     objects h' (brk h + 1) = Some (ESFT \<lparr>wblock = block s, wobserver = observer s\<rparr>) \<and>
     returns (SharedFromThis (brk h + 1) h') (\<lambda>(h'', s').
       block s' = block s \<and> observer s' = Some (brk h + 1) \<and> operator_eq s' s \<and>
       UseCount s h'' = Inr 2 \<and>
       h'' = h'\<lparr>blocks := (blocks h')(brk h \<mapsto>
                \<lparr>storage = Owning (brk h + 1), ref_counter = 2, weak_ref_counter = 3\<rparr>)\<rparr> \<and>
       SharedPtr_dtor s' h'' = Inr h') \<and>
     returns (WeakFromThis (brk h + 1) h') (\<lambda>(h'', w).
       objects h' (brk h + 1) = Some (ESFT w) \<and> objects h'' (brk h + 1) = Some (ESFT w) \<and>
       wblock w = block s \<and> wobserver w = Some (brk h + 1) \<and>
       WeakFromThis (brk h + 1) h' =
         WeakPtr_copy \<lparr>wblock = block s, wobserver = observer s\<rparr> h' \<and>
       h'' = h'\<lparr>blocks := (blocks h')(brk h \<mapsto>
                \<lparr>storage = Owning (brk h + 1), ref_counter = 1, weak_ref_counter = 3\<rparr>)\<rparr> \<and>
       WeakPtr_dtor w h'' = Inr h' \<and>
       returns (andThen (WeakPtr_dtor w h'') (SharedPtr_dtor s)) (\<lambda>h3.
         blocks h3 (brk h) = None \<and> objects h3 (brk h + 1) = None \<and>
         trace h3 = trace h @ [PayloadDestroyed (brk h + 1), BlockDestroyed (brk h)])))"
    by (simp add: make_installs accessor_defs SharedPtr_dtor_def WeakPtr_dtor_def
            DecrementRefCounter_def DecrementWeakRefCounter_def guarded_release_def
            release_payload_def destroy_payload_def delete_this_def)
  have plain: "returns (SharedPtr_from_raw False (Some p) h) (\<lambda>(h', s). objects h' = objects h)"
    "returns (MakeShared False h) (\<lambda>(h', s). objects h' (brk h + 1) = Some Plain)"
    by (simp_all add: SharedPtr_from_raw_def MakeShared_def Let_def IncrementRefCounter_def)
  from raw make plain show ?thesis by blast
qed

text \<open>The witness: the raw-pointer constructor on a fresh self-referencing payload at 7.\<close>

theorem first_handle_installs_weak_this_witness:
  "objects (empty_heap\<lparr>objects := [7 \<mapsto> ESFT WeakPtr_default]\<rparr>) 7 = Some (fresh_payload True) \<and>
   returns (SharedPtr_from_raw True (Some 7) (empty_heap\<lparr>objects := [7 \<mapsto> ESFT WeakPtr_default]\<rparr>))
     (\<lambda>(h', s).
        s = \<lparr>block = Some 0, observer = Some 7\<rparr> \<and>
        blocks h' 0 = Some \<lparr>storage = WithPtr (Some 7), ref_counter = 1, weak_ref_counter = 2\<rparr> \<and>
        objects h' 7 = Some (ESFT \<lparr>wblock = Some 0, wobserver = Some 7\<rparr>) \<and>
        returns (SharedFromThis 7 h') (\<lambda>(h'', s').
          s' = \<lparr>block = Some 0, observer = Some 7\<rparr> \<and> UseCount s h'' = Inr 2 \<and>
          blocks h'' 0 =
            Some \<lparr>storage = WithPtr (Some 7), ref_counter = 2, weak_ref_counter = 3\<rparr>) \<and>
        returns (WeakFromThis 7 h') (\<lambda>(h'', w).
          w = \<lparr>wblock = Some 0, wobserver = Some 7\<rparr> \<and>
          blocks h'' 0 =
            Some \<lparr>storage = WithPtr (Some 7), ref_counter = 1, weak_ref_counter = 3\<rparr> \<and>
          objects h'' 7 = Some (ESFT \<lparr>wblock = Some 0, wobserver = Some 7\<rparr>) \<and>
          WeakPtr_dtor w h'' = Inr h' \<and>
          returns (andThen (WeakPtr_dtor w h'') (SharedPtr_dtor s)) (\<lambda>h3.
            blocks h3 0 = None \<and> objects h3 7 = None \<and>
            trace h3 = [PayloadDestroyed 7, BlockDestroyed 0])))"
proof -
  let ?hp = "empty_heap\<lparr>objects := [7 \<mapsto> ESFT WeakPtr_default]\<rparr>"
  have a: "objects ?hp 7 = Some (fresh_payload True)"
    by (simp add: fresh_payload_def)
  have "returns (SharedPtr_from_raw True (Some 7) ?hp)
     (\<lambda>(h', s).
        s = \<lparr>block = Some 0, observer = Some 7\<rparr> \<and>
        blocks h' 0 = Some \<lparr>storage = WithPtr (Some 7), ref_counter = 1, weak_ref_counter = 2\<rparr> \<and>
        objects h' 7 = Some (ESFT \<lparr>wblock = Some 0, wobserver = Some 7\<rparr>) \<and>
        returns (SharedFromThis 7 h') (\<lambda>(h'', s').
          s' = \<lparr>block = Some 0, observer = Some 7\<rparr> \<and> UseCount s h'' = Inr 2 \<and>
          blocks h'' 0 =
            Some \<lparr>storage = WithPtr (Some 7), ref_counter = 2, weak_ref_counter = 3\<rparr>) \<and>
        returns (WeakFromThis 7 h') (\<lambda>(h'', w).
          w = \<lparr>wblock = Some 0, wobserver = Some 7\<rparr> \<and>
          blocks h'' 0 =
            Some \<lparr>storage = WithPtr (Some 7), ref_counter = 1, weak_ref_counter = 3\<rparr> \<and>
          objects h'' 7 = Some (ESFT \<lparr>wblock = Some 0, wobserver = Some 7\<rparr>) \<and>
          WeakPtr_dtor w h'' = Inr h' \<and>
          returns (andThen (WeakPtr_dtor w h'') (SharedPtr_dtor s)) (\<lambda>h3.
            blocks h3 0 = None \<and> objects h3 7 = None \<and>
            trace h3 = [PayloadDestroyed 7, BlockDestroyed 0])))"
    using conjunct1 [OF first_handle_installs_weak_this [of ?hp 7]] a
    by (auto simp: empty_heap_def elim!: returns_mono)
  with a show ?thesis by blast
qed

section \<open>The round trip through a weak handle\<close>

text \<open>
  C7, as the claim states it, fails: a strong handle built from the raw pointer 7 has
  the use count 1; after it has been demoted and the weak handle locked, the locked
  handle equals it, and the use count is 2.
\<close>

theorem round_trip_changes_use_count:
  "returns (SharedPtr_from_raw False (Some 7) (empty_heap\<lparr>objects := [7 \<mapsto> Plain]\<rparr>))
     (\<lambda>(h, s). returns (round_trip s h) (\<lambda>(h', w, l).
        operator_eq l s \<and> UseCount s h = Inr 1 \<and> UseCount s h' = Inr 2 \<and>
        UseCount s h' \<noteq> UseCount s h))"
  by (simp add: SharedPtr_from_raw_def round_trip_def WeakPtr_from_shared_def Lock_def
        SharedPtr_from_weak_def Expired_def WeakPtr_UseCount_def GetRefCount_def
        IncrementRefCounter_def IncrementWeakRefCounter_def Let_def operator_eq_def Get_def
        UseCount_def empty_heap_def)

text \<open>
  C7, amended. For a strong handle \<open>s\<close> on a block that exists and has a strong
  count other than 0, the round trip returns a strong handle that equals \<open>s\<close> (same
  cached pointer) and shares its block; the use count after the round trip is one
  more than before, since the locked handle is one more owner; and once the locked
  handle and the weak handle of the round trip are destroyed (the weak count of the
  block not being at the end of its range) the heap, and with it the use count, is
  what it was before.
\<close>

theorem round_trip_adds_one_owner:
  assumes "block s = Some b" and "blocks h b = Some cb" and "ref_counter cb \<noteq> 0"
  shows "returns (round_trip s h) (\<lambda>(h', w, l).
           operator_eq l s \<and> block l = block s \<and> observer l = observer s \<and>
           UseCount s h = Inr (ref_counter cb) \<and>
           UseCount s h' = Inr (ref_counter cb + 1) \<and>
           UseCount s h' \<noteq> UseCount s h \<and>
           (weak_ref_counter cb \<noteq> 0 \<and> weak_ref_counter cb + 1 \<noteq> 0 \<longrightarrow>
              andThen (SharedPtr_dtor l h') (WeakPtr_dtor w) = Inr h))"
proof -
  let ?h1 = "h\<lparr>blocks := (blocks h)(b \<mapsto> cb\<lparr>weak_ref_counter := weak_ref_counter cb + 1\<rparr>)\<rparr>"
  let ?h2 = "h\<lparr>blocks := (blocks h)(b \<mapsto> cb\<lparr>ref_counter := ref_counter cb + 1,
                                             weak_ref_counter := weak_ref_counter cb + 1 + 1\<rparr>)\<rparr>"
  let ?w = "\<lparr>wblock = Some b, wobserver = observer s\<rparr>"
  let ?l = "\<lparr>block = Some b, observer = observer s\<rparr>"
  have rt: "round_trip s h = Inr (?h2, ?w, ?l)"
    using assms
    by (simp add: round_trip_def WeakPtr_from_shared_def Lock_def
        SharedPtr_from_weak_def Expired_def WeakPtr_UseCount_def GetRefCount_def
        IncrementRefCounter_def IncrementWeakRefCounter_def Let_def)
  have restore: "andThen (SharedPtr_dtor ?l ?h2) (WeakPtr_dtor ?w) = Inr h"
    if "weak_ref_counter cb \<noteq> 0" and "weak_ref_counter cb + 1 \<noteq> 0"
  proof -
    have "(blocks h)(b \<mapsto> cb) = blocks h"
      using assms(2) by (simp add: fun_upd_idem)
    moreover have "1 + weak_ref_counter cb \<noteq> 0"
      using that(2) by (simp add: add.commute)
    ultimately show ?thesis
      using that assms(3)
      by (simp add: SharedPtr_dtor_def WeakPtr_dtor_def DecrementRefCounter_def
            DecrementWeakRefCounter_def Let_def)
  qed
  have ne: "ref_counter cb + 1 \<noteq> ref_counter cb"
    by simp
  show ?thesis
    using assms restore ne
    by (simp add: rt operator_eq_def Get_def UseCount_def GetRefCount_def)
qed

text \<open>The witness: the handle of the counterexample, and the way back.\<close>

theorem round_trip_adds_one_owner_witness:
  "block \<lparr>block = Some 0, observer = Some 7\<rparr> = Some 0 \<and>
   blocks (empty_heap\<lparr>blocks := [0 \<mapsto> \<lparr>storage = WithPtr (Some 7), ref_counter = 1,
                                          weak_ref_counter = 1\<rparr>]\<rparr>) 0 =
     Some \<lparr>storage = WithPtr (Some 7), ref_counter = 1, weak_ref_counter = 1\<rparr> \<and>
   ref_counter \<lparr>storage = WithPtr (Some 7), ref_counter = 1, weak_ref_counter = 1\<rparr> \<noteq> 0 \<and>
   returns (round_trip \<lparr>block = Some 0, observer = Some 7\<rparr>
              (empty_heap\<lparr>blocks := [0 \<mapsto> \<lparr>storage = WithPtr (Some 7), ref_counter = 1,
                                             weak_ref_counter = 1\<rparr>]\<rparr>))
     (\<lambda>(h', w, l).
        l = \<lparr>block = Some 0, observer = Some 7\<rparr> \<and>
        UseCount \<lparr>block = Some 0, observer = Some 7\<rparr> h' = Inr 2 \<and>
        andThen (SharedPtr_dtor l h') (WeakPtr_dtor w) =
          Inr (empty_heap\<lparr>blocks := [0 \<mapsto> \<lparr>storage = WithPtr (Some 7), ref_counter = 1,
                                               weak_ref_counter = 1\<rparr>]\<rparr>))"
proof -
  let ?s = "\<lparr>block = Some 0, observer = Some 7\<rparr>"
  let ?cb = "\<lparr>storage = WithPtr (Some 7), ref_counter = 1, weak_ref_counter = 1\<rparr>"
  let ?hb = "empty_heap\<lparr>blocks := [0 \<mapsto> ?cb]\<rparr>"
  have a: "block ?s = Some 0" and b: "blocks ?hb 0 = Some ?cb" and c: "ref_counter ?cb \<noteq> 0"
    by simp_all
  have "returns (round_trip ?s ?hb)
     (\<lambda>(h', w, l). l = ?s \<and> UseCount ?s h' = Inr 2 \<and>
        andThen (SharedPtr_dtor l h') (WeakPtr_dtor w) = Inr ?hb)"
    by (rule returns_mono [OF round_trip_adds_one_owner [OF a b c]]) auto
  with a b c show ?thesis by blast
qed

section \<open>Handles without a block\<close>

lemma yields_Inr [simp]: "yields (Inr x) P = P x"
  by (simp add: yields_def)

lemma yields_Inl [simp]: "yields (Inl e) P"
  by (simp add: yields_def)

lemma yields_andThen: "(\<And>x. yields (f x) P) \<Longrightarrow> yields (andThen r f) P"
  by (cases r) simp_all

lemma yields_mono: "yields r P \<Longrightarrow> (\<And>x. P x \<Longrightarrow> Q x) \<Longrightarrow> yields r Q"
  by (cases r) simp_all

lemma yields_SharedPtr_from_raw:
  "yields (SharedPtr_from_raw esft ptr h) (\<lambda>(h', s). block s \<noteq> None)"
  unfolding SharedPtr_from_raw_def Let_def
  by (auto intro!: yields_andThen)

lemma yields_MakeShared: "yields (MakeShared esft h) (\<lambda>(h', s). block s \<noteq> None)"
  unfolding MakeShared_def Let_def
  by (auto intro!: yields_andThen)

lemma yields_SharedPtr_copy:
  "yields (SharedPtr_copy other h) (\<lambda>(h', s). block s = block other \<and> observer s = observer other)"
  unfolding SharedPtr_copy_def Let_def
  by (auto split: option.splits intro!: yields_andThen)

lemma yields_SharedPtr_alias:
  "yields (SharedPtr_alias other ptr h) (\<lambda>(h', s). block s = block other \<and> observer s = ptr)"
  unfolding SharedPtr_alias_def Let_def
  by (auto split: option.splits intro!: yields_andThen)

lemma yields_SharedPtr_from_weak:
  "yields (SharedPtr_from_weak w h) (\<lambda>(h', s). block s \<noteq> None)"
proof (cases "wblock w")
  case None
  then show ?thesis
    by (simp add: SharedPtr_from_weak_def Expired_def WeakPtr_UseCount_def)
next
  case (Some b)
  then show ?thesis
    unfolding SharedPtr_from_weak_def Let_def
    by (auto intro!: yields_andThen)
qed

lemma yields_Lock: "yields (Lock w h) (\<lambda>(h', s). null_block_null_pointer s)"
  unfolding Lock_def
  by (rule yields_andThen)
     (auto simp: null_block_null_pointer_def SharedPtr_default_def
        intro: yields_SharedPtr_from_weak [THEN yields_mono])


lemma yields_SharedPtr_assign:
  "yields (SharedPtr_assign this other h)
     (\<lambda>(h', this'). block this' = block other \<and> observer this' = observer other)"
  unfolding SharedPtr_assign_def Let_def
  by (auto intro!: yields_andThen)

lemma yields_bind:
  "yields r P \<Longrightarrow> (\<And>x. P x \<Longrightarrow> yields (f x) Q) \<Longrightarrow> yields (andThen r f) Q"
  by (cases r) simp_all

lemma yields_SharedPtr_copy_assign:
  "yields (SharedPtr_copy_assign this src h)
     (\<lambda>(h', this'). block this' = block src \<and> observer this' = observer src)"
  unfolding SharedPtr_copy_assign_def
proof (rule yields_bind [OF yields_SharedPtr_copy], clarify)
  fix h1 :: heap and other :: SharedPtr
  assume o: "block other = block src" "observer other = observer src"
  show "yields (andThen (SharedPtr_assign this other h1)
                 (\<lambda>(h2, this'). andThen (SharedPtr_dtor other h2) (\<lambda>h3. Inr (h3, this'))))
          (\<lambda>(h', this'). block this' = block src \<and> observer this' = observer src)"
    by (rule yields_bind [OF yields_SharedPtr_assign]) (auto simp: o intro!: yields_andThen)
qed

lemma yields_SharedPtr_move_assign:
  "yields (SharedPtr_move_assign this src h)
     (\<lambda>(h', this', src'). block this' = block src \<and> observer this' = observer src \<and>
        block src' = None \<and> observer src' = None)"
  unfolding SharedPtr_move_assign_def SharedPtr_move_def Let_def prod.case
  by (rule yields_bind [OF yields_SharedPtr_assign]) (auto intro!: yields_andThen)

lemma yields_SharedPtr_Reset:
  "yields (SharedPtr_Reset this h) (\<lambda>(h', this'). block this' = None \<and> observer this' = None)"
  unfolding SharedPtr_Reset_def
  by (rule yields_bind [OF yields_SharedPtr_assign])
     (auto simp: SharedPtr_nullptr_def SharedPtr_default_def intro!: yields_andThen)

lemma yields_SharedPtr_Reset_ptr:
  "yields (SharedPtr_Reset_ptr esft this ptr h) (\<lambda>(h', this'). block this' \<noteq> None)"
  unfolding SharedPtr_Reset_ptr_def
proof (rule yields_bind [OF yields_SharedPtr_from_raw], clarify)
  fix h1 :: heap and other :: SharedPtr and y
  assume o: "block other = Some y"
  show "yields (andThen (SharedPtr_assign this other h1)
                 (\<lambda>(h2, this'). andThen (SharedPtr_dtor other h2) (\<lambda>h3. Inr (h3, this'))))
          (\<lambda>(h', this'). block this' \<noteq> None)"
    by (rule yields_bind [OF yields_SharedPtr_assign]) (auto simp: o intro!: yields_andThen)
qed

lemma yields_SharedFromThis:
  "yields (SharedFromThis p h) (\<lambda>(h', s). block s \<noteq> None)"
  by (simp add: SharedFromThis_def yields_SharedPtr_from_weak del: not_None_eq
        split: option.splits payload.splits)


text \<open>
  C8, as the claim states it, fails: the aliasing constructor applied to the empty
  handle and the pointer 7 returns a handle with no block whose cached pointer is 7.
\<close>

theorem aliasing_the_empty_handle:
  "returns (SharedPtr_alias SharedPtr_default (Some 7) empty_heap) (\<lambda>(h', s).
     block s = None \<and> observer s = Some 7 \<and> null_block_null_pointer s = False \<and>
     operator_bool s \<and> UseCount s h' = Inr 0)"
  by (simp add: SharedPtr_alias_def SharedPtr_default_def null_block_null_pointer_def
        operator_bool_def UseCount_def)

text \<open>
  C8, amended. Every constructor and operation of the strong handle other than the
  aliasing constructor returns handles whose pointer is null when their block is:
  the default and \<^verbatim>\<open>nullptr\<close> constructors; the raw-pointer constructor,
  \<^verbatim>\<open>MakeShared\<close>, \<^verbatim>\<open>Reset(ptr)\<close>, promotion and \<^verbatim>\<open>SharedFromThis\<close>,
  whose handles always have a block; \<^verbatim>\<open>Lock\<close> and \<^verbatim>\<open>Reset()\<close>; and copy,
  move, assignment and swap, given the same of the handles they copy from. The aliasing
  constructor returns the block of its source and the pointer it is given, so its
  handle has a null pointer with a null block exactly when the source has a block or
  the given pointer is null.
\<close>

theorem null_block_null_pointer_but_for_aliasing:
  "null_block_null_pointer SharedPtr_default \<and> null_block_null_pointer SharedPtr_nullptr \<and>
   yields (SharedPtr_from_raw esft ptr h) (\<lambda>(h', s). null_block_null_pointer s) \<and>
   yields (MakeShared esft h) (\<lambda>(h', s). null_block_null_pointer s) \<and>
   yields (SharedPtr_Reset_ptr esft this ptr h) (\<lambda>(h', s). null_block_null_pointer s) \<and>
   yields (SharedPtr_from_weak w h) (\<lambda>(h', s). null_block_null_pointer s) \<and>
   yields (SharedFromThis p h) (\<lambda>(h', s). null_block_null_pointer s) \<and>
   yields (Lock w h) (\<lambda>(h', s). null_block_null_pointer s) \<and>
   yields (SharedPtr_Reset this h) (\<lambda>(h', s). null_block_null_pointer s) \<and>
   (null_block_null_pointer other \<longrightarrow>
      yields (SharedPtr_copy other h) (\<lambda>(h', s). null_block_null_pointer s) \<and>
      null_block_null_pointer (fst (SharedPtr_move other)) \<and>
      null_block_null_pointer (snd (SharedPtr_move other)) \<and>
      yields (SharedPtr_assign this other h) (\<lambda>(h', s). null_block_null_pointer s) \<and>
      yields (SharedPtr_copy_assign this other h) (\<lambda>(h', s). null_block_null_pointer s) \<and>
      yields (SharedPtr_move_assign this other h)
        (\<lambda>(h', s, other'). null_block_null_pointer s \<and> null_block_null_pointer other')) \<and>
   (null_block_null_pointer this \<and> null_block_null_pointer other \<longrightarrow>
      null_block_null_pointer (fst (SharedPtr_Swap this other)) \<and>
      null_block_null_pointer (snd (SharedPtr_Swap this other))) \<and>
   yields (SharedPtr_alias other ptr h) (\<lambda>(h', s).
     block s = block other \<and> observer s = ptr \<and>
     null_block_null_pointer s = (block other \<noteq> None \<or> ptr = None))"
proof -
  note d = null_block_null_pointer_def
  have c1: "null_block_null_pointer SharedPtr_default" "null_block_null_pointer SharedPtr_nullptr"
    by (simp_all add: d SharedPtr_default_def SharedPtr_nullptr_def)
  have c2: "yields (SharedPtr_from_raw esft ptr h) (\<lambda>(h', s). null_block_null_pointer s)"
    by (rule yields_mono [OF yields_SharedPtr_from_raw]) (auto simp: d)
  have c3: "yields (MakeShared esft h) (\<lambda>(h', s). null_block_null_pointer s)"
    by (rule yields_mono [OF yields_MakeShared]) (auto simp: d)
  have c4: "yields (SharedPtr_Reset_ptr esft this ptr h) (\<lambda>(h', s). null_block_null_pointer s)"
    by (rule yields_mono [OF yields_SharedPtr_Reset_ptr]) (auto simp: d)
  have c5: "yields (SharedPtr_from_weak w h) (\<lambda>(h', s). null_block_null_pointer s)"
    by (rule yields_mono [OF yields_SharedPtr_from_weak]) (auto simp: d)
  have c6: "yields (SharedFromThis p h) (\<lambda>(h', s). null_block_null_pointer s)"
    by (rule yields_mono [OF yields_SharedFromThis]) (auto simp: d)
  have c7: "yields (SharedPtr_Reset this h) (\<lambda>(h', s). null_block_null_pointer s)"
    by (rule yields_mono [OF yields_SharedPtr_Reset]) (auto simp: d)
  have c8: "null_block_null_pointer other \<longrightarrow>
      yields (SharedPtr_copy other h) (\<lambda>(h', s). null_block_null_pointer s) \<and>
      null_block_null_pointer (fst (SharedPtr_move other)) \<and>
      null_block_null_pointer (snd (SharedPtr_move other)) \<and>
      yields (SharedPtr_assign this other h) (\<lambda>(h', s). null_block_null_pointer s) \<and>
      yields (SharedPtr_copy_assign this other h) (\<lambda>(h', s). null_block_null_pointer s) \<and>
      yields (SharedPtr_move_assign this other h)
        (\<lambda>(h', s, other'). null_block_null_pointer s \<and> null_block_null_pointer other')"
  proof
    assume o: "null_block_null_pointer other"
    have "yields (SharedPtr_copy other h) (\<lambda>(h', s). null_block_null_pointer s)"
      by (rule yields_mono [OF yields_SharedPtr_copy]) (use o in \<open>auto simp: d\<close>)
    moreover have "null_block_null_pointer (fst (SharedPtr_move other))"
      "null_block_null_pointer (snd (SharedPtr_move other))"
      using o by (simp_all add: d SharedPtr_move_def)
    moreover have "yields (SharedPtr_assign this other h) (\<lambda>(h', s). null_block_null_pointer s)"
      by (rule yields_mono [OF yields_SharedPtr_assign]) (use o in \<open>auto simp: d\<close>)
    moreover have "yields (SharedPtr_copy_assign this other h)
                     (\<lambda>(h', s). null_block_null_pointer s)"
      by (rule yields_mono [OF yields_SharedPtr_copy_assign]) (use o in \<open>auto simp: d\<close>)
    moreover have "yields (SharedPtr_move_assign this other h)
        (\<lambda>(h', s, other'). null_block_null_pointer s \<and> null_block_null_pointer other')"
      by (rule yields_mono [OF yields_SharedPtr_move_assign]) (use o in \<open>auto simp: d\<close>)
    ultimately show "yields (SharedPtr_copy other h) (\<lambda>(h', s). null_block_null_pointer s) \<and>
      null_block_null_pointer (fst (SharedPtr_move other)) \<and>
      null_block_null_pointer (snd (SharedPtr_move other)) \<and>
      yields (SharedPtr_assign this other h) (\<lambda>(h', s). null_block_null_pointer s) \<and>
      yields (SharedPtr_copy_assign this other h) (\<lambda>(h', s). null_block_null_pointer s) \<and>
      yields (SharedPtr_move_assign this other h)
        (\<lambda>(h', s, other'). null_block_null_pointer s \<and> null_block_null_pointer other')"
      by blast
  qed
  have c9: "null_block_null_pointer this \<and> null_block_null_pointer other \<longrightarrow>
      null_block_null_pointer (fst (SharedPtr_Swap this other)) \<and>
      null_block_null_pointer (snd (SharedPtr_Swap this other))"
    by (simp add: d SharedPtr_Swap_def)
  have c10: "yields (SharedPtr_alias other ptr h) (\<lambda>(h', s).
     block s = block other \<and> observer s = ptr \<and>
     null_block_null_pointer s = (block other \<noteq> None \<or> ptr = None))"
    unfolding SharedPtr_alias_def Let_def
    by (cases "block other"; cases ptr) (auto simp: d intro!: yields_andThen)
  from c1 c2 c3 c4 c5 c6 c7 c8 c9 c10 yields_Lock [of w h]
  show ?thesis by (intro conjI)
qed

text \<open>
  The witness: a copy of a handle on a block, a copy of the empty handle, and a handle
  aliased from a handle on a block.
\<close>

theorem null_block_null_pointer_but_for_aliasing_witness:
  "null_block_null_pointer \<lparr>block = Some 0, observer = Some 7\<rparr> \<and>
   null_block_null_pointer SharedPtr_default \<and>
   returns (SharedPtr_copy \<lparr>block = Some 0, observer = Some 7\<rparr>
              (empty_heap\<lparr>blocks := [0 \<mapsto> \<lparr>storage = WithPtr (Some 7), ref_counter = 1,
                                             weak_ref_counter = 1\<rparr>]\<rparr>))
     (\<lambda>(h', s). s = \<lparr>block = Some 0, observer = Some 7\<rparr> \<and> null_block_null_pointer s) \<and>
   returns (SharedPtr_copy SharedPtr_default empty_heap)
     (\<lambda>(h', s). s = SharedPtr_default \<and> null_block_null_pointer s) \<and>
   returns (SharedPtr_alias \<lparr>block = Some 0, observer = Some 7\<rparr> (Some 8)
              (empty_heap\<lparr>blocks := [0 \<mapsto> \<lparr>storage = WithPtr (Some 7), ref_counter = 1,
                                             weak_ref_counter = 1\<rparr>]\<rparr>))
     (\<lambda>(h', s). s = \<lparr>block = Some 0, observer = Some 8\<rparr> \<and> null_block_null_pointer s) \<and>
   null_block_null_pointer (fst (SharedPtr_Swap SharedPtr_default \<lparr>block = Some 0, observer = Some 7\<rparr>)) \<and>
   null_block_null_pointer (snd (SharedPtr_Swap SharedPtr_default \<lparr>block = Some 0, observer = Some 7\<rparr>))"
proof -
  let ?s = "\<lparr>block = Some 0, observer = Some 7\<rparr>"
  let ?hb = "empty_heap\<lparr>blocks := [0 \<mapsto> \<lparr>storage = WithPtr (Some 7), ref_counter = 1,
                                             weak_ref_counter = 1\<rparr>]\<rparr>"
  note t = null_block_null_pointer_but_for_aliasing [where other = ?s and h = ?hb and ptr = "Some 8"]
  note te = null_block_null_pointer_but_for_aliasing [where other = SharedPtr_default
      and h = empty_heap]
  have a: "null_block_null_pointer ?s"
    by (simp add: null_block_null_pointer_def)
  have b: "null_block_null_pointer SharedPtr_default"
    using conjunct1 [OF te] .
  have c: "returns (SharedPtr_copy ?s ?hb) (\<lambda>(h', s). s = ?s \<and> null_block_null_pointer s)"
    using t a by (simp add: SharedPtr_copy_def IncrementRefCounter_def)
  have d: "returns (SharedPtr_copy SharedPtr_default empty_heap)
             (\<lambda>(h', s). s = SharedPtr_default \<and> null_block_null_pointer s)"
    using te b by (simp add: SharedPtr_copy_def SharedPtr_default_def)
  have e: "returns (SharedPtr_alias ?s (Some 8) ?hb)
             (\<lambda>(h', s). s = \<lparr>block = Some 0, observer = Some 8\<rparr> \<and> null_block_null_pointer s)"
    using t by (simp add: SharedPtr_alias_def IncrementRefCounter_def)
  have f: "null_block_null_pointer (fst (SharedPtr_Swap SharedPtr_default ?s)) \<and>
           null_block_null_pointer (snd (SharedPtr_Swap SharedPtr_default ?s))"
    using null_block_null_pointer_but_for_aliasing [where this = SharedPtr_default and other = ?s]
      a b
    by blast
  from a b c d e f show ?thesis by blast
qed

end
